(* ===== verification/Sentinel_Prelude.thy ===== *)
theory Sentinel_Prelude
  imports Complex_Main "HOL-Library.AList" "HOL-Library.Word" "HOL-Library.Sublist"
begin

text \<open>
  The prelude of the Sentinel Gateway development: the machine integers and strings of the Rust
  sources, the two container interfaces the components share (hash maps and reachable-state
  invariants), and the generic lemmas on them.

  \<^item> Integers keep their width (\<open>u8\<close>, \<open>u16\<close>, \<open>u32\<close>, \<open>u64\<close>); the release profile of
    \<^verbatim>\<open>Cargo.toml\<close> leaves overflow checks off, so \<open>+\<close> wraps, as it does on words.
  \<^item> A Rust \<^verbatim>\<open>str\<close> is a UTF-8 byte sequence; here it is a HOL \<open>string\<close>, one \<open>char\<close> per byte.
  \<^item> An \<^verbatim>\<open>Instant\<close> or \<^verbatim>\<open>Duration\<close> is a number of nanoseconds.
  \<^item> A \<^verbatim>\<open>HashMap\<close> is an association list with distinct keys. Rust leaves the iteration order
    open; the list order stands for it, and theorems about iteration speak of sets only.
\<close>

section \<open>Collections of facts\<close>

named_theorems guard_simps \<open>unfolding the admission guards of the gateway\<close>
named_theorems effect_simps \<open>projections of effect traces\<close>
named_theorems string_simps \<open>the string operations of the Rust standard library\<close>

section \<open>Machine integers and time\<close>

type_synonym u8 = "8 word"
type_synonym u16 = "16 word"
type_synonym u32 = "32 word"
type_synonym u64 = "64 word"
type_synonym i32 = int
type_synonym i64 = int
type_synonym nanos = nat

abbreviation sec :: "nat \<Rightarrow> nanos" where
  "sec n \<equiv> n * 1000000000"

text \<open>\<^verbatim>\<open>Instant::elapsed\<close> saturates at zero, as truncated subtraction does.\<close>

definition elapsed :: "nanos \<Rightarrow> nanos \<Rightarrow> nanos" where
  "elapsed now since = now - since"

definition saturating_mul_u64 :: "u64 \<Rightarrow> u64 \<Rightarrow> u64" where
  "saturating_mul_u64 a b = (if unat a * unat b < 2 ^ 64 then a * b else 18446744073709551615)"

lemma unat_saturating_mul_u64:
  "unat (saturating_mul_u64 a b) = min (unat a * unat b) (2 ^ 64 - 1)"
proof (cases "unat a * unat b < 2 ^ 64")
  case True
  then have "unat (a * b) = unat a * unat b"
    by (simp add: unat_word_ariths)
  with True show ?thesis by (simp add: saturating_mul_u64_def)
next
  case False
  then show ?thesis by (simp add: saturating_mul_u64_def)
qed

lemma unat_Suc_less: "(a :: 'a::len word) < b \<Longrightarrow> unat (a + 1) = Suc (unat a)"
proof -
  assume "a < b"
  then have "a \<noteq> - 1"
    by (metis not_less word_order.extremum)
  then show "unat (a + 1) = Suc (unat a)"
    by (metis Suc_eq_plus1 add.commute unatSuc unat_eq_zero eq_neg_iff_add_eq_0)
qed

lemma not_0_less_word [simp]: "\<not> (0 :: 'a::len word) < a \<longleftrightarrow> a = 0"
  by (simp add: word_gt_0)

lemma unat_u32_less: "unat (w :: u32) < 2 ^ 32"
  using unsigned_less [of w] by simp

lemma unat_u64_less: "unat (w :: u64) < 2 ^ 64"
  using unsigned_less [of w] by simp

lemma unat_pred: "(0 :: 'a::len word) < a \<Longrightarrow> unat (a - 1) = unat a - 1"
  by (simp add: unat_minus_one word_neq_0_conv)

lemma word_pred_le: "(0 :: 'a::len word) < a \<Longrightarrow> a \<le> b \<Longrightarrow> a - 1 \<le> b"
  by (simp add: word_le_nat_alt unat_pred)

section \<open>Runs\<close>

text \<open>An operation on a state, run over a list of inputs: the outputs and the last state.\<close>

fun run_steps :: "('r \<Rightarrow> 's \<Rightarrow> 'o \<times> 's) \<Rightarrow> 'r list \<Rightarrow> 's \<Rightarrow> 'o list \<times> 's" where
  "run_steps f [] s = ([], s)"
| "run_steps f (r # rs) s =
     (case f r s of (x, s') \<Rightarrow> (case run_steps f rs s' of (xs, s'') \<Rightarrow> (x # xs, s'')))"

lemma run_steps_Cons:
  "run_steps f (r # rs) s =
   (fst (f r s) # fst (run_steps f rs (snd (f r s))), snd (run_steps f rs (snd (f r s))))"
  by (simp split: prod.splits)

lemma length_run_steps [simp]: "length (fst (run_steps f rs s)) = length rs"
  by (induction rs arbitrary: s) (simp_all add: run_steps_Cons del: run_steps.simps(2))

lemma run_steps_append:
  "run_steps f (rs @ rs') s =
   (fst (run_steps f rs s) @ fst (run_steps f rs' (snd (run_steps f rs s))),
    snd (run_steps f rs' (snd (run_steps f rs s))))"
  by (induction rs arbitrary: s) (simp_all add: run_steps_Cons del: run_steps.simps(2))

lemma run_steps_inv:
  assumes "\<And>r s. P s \<Longrightarrow> P (snd (f r s))" and "P s"
  shows "P (snd (run_steps f rs s))"
  using assms(2)
  by (induction rs arbitrary: s) (simp_all add: run_steps_Cons assms(1) del: run_steps.simps(2))

text \<open>How many of the answers of a fallible operation are successes.\<close>

definition successes :: "('e + 'a) list \<Rightarrow> nat" where
  "successes xs = length (filter (\<lambda>x. \<not> isl x) xs)"

lemma successes_simps [simp]:
  "successes [] = 0" "successes (Inl e # xs) = successes xs"
  "successes (Inr a # xs) = Suc (successes xs)"
  by (simp_all add: successes_def)

lemma successes_Cons: "successes (x # xs) = (if isl x then 0 else 1) + successes xs"
  by (cases x) simp_all

section \<open>Hash maps\<close>

type_synonym ('k, 'v) hashmap = "('k \<times> 'v) list"

abbreviation hm_get :: "('k, 'v) hashmap \<Rightarrow> 'k \<Rightarrow> 'v option" where
  "hm_get \<equiv> map_of"

abbreviation hm_insert :: "'k \<Rightarrow> 'v \<Rightarrow> ('k, 'v) hashmap \<Rightarrow> ('k, 'v) hashmap" where
  "hm_insert \<equiv> AList.update"

abbreviation hm_remove :: "'k \<Rightarrow> ('k, 'v) hashmap \<Rightarrow> ('k, 'v) hashmap" where
  "hm_remove \<equiv> AList.delete"

abbreviation hm_len :: "('k, 'v) hashmap \<Rightarrow> nat" where
  "hm_len \<equiv> length"

abbreviation hm_values :: "('k, 'v) hashmap \<Rightarrow> 'v list" where
  "hm_values m \<equiv> map snd m"

abbreviation hm_contains :: "('k, 'v) hashmap \<Rightarrow> 'k \<Rightarrow> bool" where
  "hm_contains m k \<equiv> hm_get m k \<noteq> None"

definition hm_wf :: "('k, 'v) hashmap \<Rightarrow> bool" where
  "hm_wf m \<longleftrightarrow> distinct (map fst m)"

text \<open>The interface the stateful components rely on: a keyed store.\<close>

locale keyed_store =
  fixes empty :: 'm
    and get :: "'m \<Rightarrow> 'k \<Rightarrow> 'v option"
    and insert :: "'k \<Rightarrow> 'v \<Rightarrow> 'm \<Rightarrow> 'm"
    and remove :: "'k \<Rightarrow> 'm \<Rightarrow> 'm"
    and wf :: "'m \<Rightarrow> bool"
    and len :: "'m \<Rightarrow> nat"
  assumes get_empty: "get empty k = None"
    and get_insert: "get (insert k v m) k' = (if k' = k then Some v else get m k')"
    and get_remove: "get (remove k m) k' = (if k' = k then None else get m k')"
    and wf_empty: "wf empty"
    and wf_insert: "wf m \<Longrightarrow> wf (insert k v m)"
    and wf_remove: "wf m \<Longrightarrow> wf (remove k m)"
    and len_insert: "wf m \<Longrightarrow> get m k = None \<Longrightarrow> len (insert k v m) = Suc (len m)"
    and len_remove: "wf m \<Longrightarrow> get m k = Some v \<Longrightarrow> len m = Suc (len (remove k m))"
begin

lemma get_remove_insert:
  "get m k = None \<Longrightarrow> get (remove k (insert k v m)) = get m"
  by (rule ext) (simp add: get_insert get_remove)

lemma len_remove_insert:
  assumes "wf m" and "get m k = None"
  shows "len (remove k (insert k v m)) = len m"
proof -
  have "get (insert k v m) k = Some v" by (simp add: get_insert)
  with assms have "len (insert k v m) = Suc (len (remove k (insert k v m)))"
    by (intro len_remove wf_insert) auto
  with len_insert [OF assms] show ?thesis by simp
qed

lemmas laws = get_empty get_insert get_remove
lemmas wf_laws = wf_empty wf_insert wf_remove

end

lemma length_update_fresh:
  "map_of m k = None \<Longrightarrow> length (AList.update k v m) = Suc (length m)"
  by (induction m) (auto split: if_splits)

lemma delete_fresh: "map_of m k = None \<Longrightarrow> AList.delete k m = m"
  by (induction m) (auto split: if_splits)

lemma length_delete_present:
  "distinct (map fst m) \<Longrightarrow> map_of m k = Some v \<Longrightarrow> length m = Suc (length (AList.delete k m))"
proof (induction m)
  case Nil
  then show ?case by simp
next
  case (Cons p m)
  obtain k' v' where p: "p = (k', v')" by (cases p)
  show ?case
  proof (cases "k' = k")
    case True
    with Cons.prems p have "map_of m k = None" by (simp add: map_of_eq_None_iff)
    with True p show ?thesis by (simp add: delete_fresh)
  next
    case False
    with Cons p show ?thesis by auto
  qed
qed

interpretation hm: keyed_store "[]" map_of AList.update AList.delete hm_wf length
proof unfold_locales
  show "hm_wf m \<Longrightarrow> map_of m k = Some v \<Longrightarrow> length m = Suc (length (AList.delete k m))"
    for m :: "('a \<times> 'b) list" and k v
    by (auto simp: hm_wf_def intro: length_delete_present)
qed (auto simp: hm_wf_def update_conv' delete_conv' distinct_update distinct_delete
       length_update_fresh)

lemmas hm_simps [simp] = hm.laws
lemmas hm_wf_intros [simp, intro] = hm.wf_laws

lemma dom_hm_insert [simp]: "dom (hm_get (hm_insert k v m)) = Set.insert k (dom (hm_get m))"
  by (auto simp: dom_def split: if_splits)

lemma dom_hm_remove [simp]: "dom (hm_get (hm_remove k m)) = dom (hm_get m) - {k}"
  by (auto simp: dom_def split: if_splits)

lemma hm_wf_Cons: "hm_wf ((k, v) # m) \<longleftrightarrow> k \<notin> dom (hm_get m) \<and> hm_wf m"
  by (simp add: hm_wf_def dom_map_of_conv_image_fst)

lemma hm_value_iff:
  "hm_wf m \<Longrightarrow> v \<in> set (hm_values m) \<longleftrightarrow> (\<exists>k. hm_get m k = Some v)"
  by (force simp: hm_wf_def)

lemma hm_len_0_iff: "hm_len m = 0 \<longleftrightarrow> (\<forall>k. hm_get m k = None)"
proof (cases m)
  case (Cons p ps)
  then show ?thesis by (cases p) auto
qed simp

section \<open>Reachable states and invariants\<close>

text \<open>
  Every stateful component is a labelled transition system: a set of initial states and a step
  relation labelled by the event. \<open>reach\<close> is the set of reachable states; the locale is the
  contract a component's invariant satisfies, and gives it for every reachable state.
\<close>

inductive reach :: "('s \<Rightarrow> bool) \<Rightarrow> ('s \<Rightarrow> 'e \<Rightarrow> 's \<Rightarrow> bool) \<Rightarrow> 's \<Rightarrow> bool"
  for init :: "'s \<Rightarrow> bool" and step :: "'s \<Rightarrow> 'e \<Rightarrow> 's \<Rightarrow> bool" where
  reach_init: "init s \<Longrightarrow> reach init step s"
| reach_step: "reach init step s \<Longrightarrow> step s e t \<Longrightarrow> reach init step t"

locale invariant_system =
  fixes init :: "'s \<Rightarrow> bool"
    and step :: "'s \<Rightarrow> 'e \<Rightarrow> 's \<Rightarrow> bool"
    and inv :: "'s \<Rightarrow> bool"
  assumes inv_init: "init s \<Longrightarrow> inv s"
    and inv_step: "inv s \<Longrightarrow> step s e t \<Longrightarrow> inv t"
begin

lemma reach_inv: "reach init step s \<Longrightarrow> inv s"
  by (induction rule: reach.induct) (auto intro: inv_init inv_step)

end

end
