(* ===== verification/Rust_Str.thy ===== *)
theory Rust_Str
  imports Sentinel_Prelude
begin

text \<open>
  The string operations of the Rust standard library that the gateway uses, on UTF-8 byte
  strings: \<^verbatim>\<open>trim\<close>, \<^verbatim>\<open>trim_end\<close>, \<^verbatim>\<open>trim_end_matches\<close>, \<^verbatim>\<open>strip_prefix\<close>, \<^verbatim>\<open>ends_with\<close>,
  \<^verbatim>\<open>contains\<close>, \<^verbatim>\<open>lines\<close>, \<^verbatim>\<open>read_line\<close> framing, \<^verbatim>\<open>String::from_utf8_lossy\<close> and the decimal
  \<^verbatim>\<open>Display\<close> of unsigned integers.
\<close>

section \<open>Prefixes, suffixes, substrings\<close>

abbreviation NL :: char where "NL \<equiv> CHR 0x0A"
abbreviation CR :: char where "CR \<equiv> CHR 0x0D"

definition strip_prefix :: "string \<Rightarrow> string \<Rightarrow> string option" where
  "strip_prefix p s = (if prefix p s then Some (drop (length p) s) else None)"

definition ends_with :: "string \<Rightarrow> string \<Rightarrow> bool" where
  "ends_with s p = suffix p s"

definition contains :: "string \<Rightarrow> string \<Rightarrow> bool" where
  "contains s p = sublist p s"

definition trim_end_matches :: "char \<Rightarrow> string \<Rightarrow> string" where
  "trim_end_matches c s = rev (dropWhile (\<lambda>x. x = c) (rev s))"

lemma strip_prefix_Some [string_simps]: "strip_prefix p s = Some r \<longleftrightarrow> s = p @ r"
  by (auto simp: strip_prefix_def prefix_def)

lemma strip_prefix_None [string_simps]: "strip_prefix p s = None \<longleftrightarrow> \<not> prefix p s"
  by (simp add: strip_prefix_def)

lemma trim_end_matches_last:
  assumes "trim_end_matches c s \<noteq> []"
  shows "last (trim_end_matches c s) \<noteq> c"
proof -
  let ?r = "dropWhile (\<lambda>x. x = c) (rev s)"
  from assms have ne: "?r \<noteq> []" by (simp add: trim_end_matches_def)
  then have "hd ?r \<noteq> c" by (rule hd_dropWhile)
  with ne show ?thesis by (simp add: trim_end_matches_def last_rev)
qed

lemma trim_end_matches_id:
  "s = [] \<or> last s \<noteq> c \<Longrightarrow> trim_end_matches c s = s"
  by (cases s rule: rev_cases) (auto simp: trim_end_matches_def)

section \<open>White space and trimming\<close>

text \<open>The characters with the Unicode property \<^verbatim>\<open>White_Space\<close>, each as its UTF-8 encoding.\<close>

definition ws_chars :: "string list" where
  "ws_chars =
     [[CHR 0x09], [CHR 0x0A], [CHR 0x0B], [CHR 0x0C], [CHR 0x0D], [CHR 0x20],
      [CHR 0xC2, CHR 0x85], [CHR 0xC2, CHR 0xA0], [CHR 0xE1, CHR 0x9A, CHR 0x80]] @
     map (\<lambda>c. [CHR 0xE2, CHR 0x80, c])
       [CHR 0x80, CHR 0x81, CHR 0x82, CHR 0x83, CHR 0x84, CHR 0x85, CHR 0x86, CHR 0x87,
        CHR 0x88, CHR 0x89, CHR 0x8A, CHR 0xA8, CHR 0xA9, CHR 0xAF] @
     [[CHR 0xE2, CHR 0x81, CHR 0x9F], [CHR 0xE3, CHR 0x80, CHR 0x80]]"

lemma ws_chars_nonempty: "w \<in> set ws_chars \<Longrightarrow> w \<noteq> []"
  by (auto simp: ws_chars_def)

definition ws_head :: "string \<Rightarrow> string option" where
  "ws_head s = map_option (\<lambda>w. drop (length w) s) (find (\<lambda>w. prefix w s) ws_chars)"

definition ws_last :: "string \<Rightarrow> string option" where
  "ws_last s = map_option (\<lambda>w. take (length s - length w) s) (find (\<lambda>w. suffix w s) ws_chars)"

lemma ws_head_shorter: "ws_head s = Some r \<Longrightarrow> length r < length s"
  by (auto simp: ws_head_def find_Some_iff in_set_conv_nth prefix_def
      dest!: ws_chars_nonempty [OF nth_mem])

lemma ws_last_shorter: "ws_last s = Some r \<Longrightarrow> length r < length s"
  by (auto simp: ws_last_def find_Some_iff in_set_conv_nth suffix_def
      dest!: ws_chars_nonempty [OF nth_mem])

function trim_start :: "string \<Rightarrow> string" where
  "trim_start s = (case ws_head s of None \<Rightarrow> s | Some r \<Rightarrow> trim_start r)"
  by pat_completeness auto
termination
  by (relation "measure length") (auto dest: ws_head_shorter)

function trim_end :: "string \<Rightarrow> string" where
  "trim_end s = (case ws_last s of None \<Rightarrow> s | Some r \<Rightarrow> trim_end r)"
  by pat_completeness auto
termination
  by (relation "measure length") (auto dest: ws_last_shorter)

declare trim_start.simps [simp del]
declare trim_end.simps [simp del]

definition trim :: "string \<Rightarrow> string" where
  "trim s = trim_end (trim_start s)"

lemma ws_head_Some: "ws_head s = Some r \<Longrightarrow> \<exists>w \<in> set ws_chars. s = w @ r"
  by (auto simp: ws_head_def find_Some_iff prefix_def)

lemma ws_last_Some: "ws_last s = Some r \<Longrightarrow> \<exists>w \<in> set ws_chars. s = r @ w"
  by (auto simp: ws_last_def find_Some_iff suffix_def)

lemma trim_end_stable: "ws_last (trim_end s) = None"
proof (induction s rule: trim_end.induct)
  case (1 s)
  then show ?case by (cases "ws_last s") (simp_all add: trim_end.simps [of s])
qed

lemma trim_start_stable: "ws_head (trim_start s) = None"
proof (induction s rule: trim_start.induct)
  case (1 s)
  then show ?case by (cases "ws_head s") (simp_all add: trim_start.simps [of s])
qed

lemma trim_end_idem [simp]: "trim_end (trim_end s) = trim_end s"
  using trim_end_stable [of s] by (subst trim_end.simps) simp

lemma trim_end_id: "ws_last s = None \<Longrightarrow> trim_end s = s"
  by (subst trim_end.simps) simp

lemma trim_start_id: "ws_head s = None \<Longrightarrow> trim_start s = s"
  by (subst trim_start.simps) simp

lemma trim_id: "ws_head s = None \<Longrightarrow> ws_last s = None \<Longrightarrow> trim s = s"
  by (simp add: trim_def trim_start_id trim_end_id)

lemma trim_end_prefix: "\<exists>w. s = trim_end s @ w"
proof (induction s rule: trim_end.induct)
  case (1 s)
  show ?case
  proof (cases "ws_last s")
    case None
    then show ?thesis by (simp add: trim_end.simps [of s])
  next
    case (Some r)
    then obtain w w' where "r = trim_end r @ w" and "s = r @ w'"
      using 1 ws_last_Some by blast
    then have "s = trim_end r @ w @ w'" by (metis append_assoc)
    moreover from Some have "trim_end s = trim_end r" by (simp add: trim_end.simps [of s])
    ultimately show ?thesis by metis
  qed
qed

section \<open>Lines\<close>

text \<open>
  \<^verbatim>\<open>str::split_inclusive('\n')\<close>; the same pieces are what successive \<^verbatim>\<open>read_line\<close> calls return
  on a stream with these bytes.
\<close>

fun split_inclusive_nl :: "string \<Rightarrow> string list" where
  "split_inclusive_nl [] = []"
| "split_inclusive_nl (c # cs) =
     (if c = NL then [NL] # split_inclusive_nl cs
      else case split_inclusive_nl cs of [] \<Rightarrow> [[c]] | l # ls \<Rightarrow> (c # l) # ls)"

definition strip_line_end :: "string \<Rightarrow> string" where
  "strip_line_end l =
     (if l \<noteq> [] \<and> last l = NL
      then (let m = butlast l in if m \<noteq> [] \<and> last m = CR then butlast m else m)
      else l)"

definition lines :: "string \<Rightarrow> string list" where
  "lines s = map strip_line_end (split_inclusive_nl s)"

lemma concat_split_inclusive_nl: "concat (split_inclusive_nl s) = s"
  by (induction s) (auto split: list.splits)

lemma split_inclusive_nl_nonempty: "l \<in> set (split_inclusive_nl s) \<Longrightarrow> l \<noteq> []"
  by (induction s arbitrary: l) (auto split: list.splits if_splits)

lemma split_inclusive_nl_line:
  "NL \<notin> set l \<Longrightarrow> split_inclusive_nl (l @ NL # s) = (l @ [NL]) # split_inclusive_nl s"
  by (induction l) auto

lemma split_inclusive_nl_last: "NL \<notin> set l \<Longrightarrow> l \<noteq> [] \<Longrightarrow> split_inclusive_nl l = [l]"
proof (induction l)
  case (Cons c l)
  then show ?case by (cases l) (auto split: list.splits)
qed simp

lemma split_inclusive_nl_frames:
  "list_all (\<lambda>m. NL \<notin> set m) ms \<Longrightarrow>
   split_inclusive_nl (concat (map (\<lambda>m. m @ [NL]) ms)) = map (\<lambda>m. m @ [NL]) ms"
  by (induction ms) (auto simp: split_inclusive_nl_line)

section \<open>UTF-8\<close>

text \<open>
  \<open>utf8_head\<close> reads the first sequence of a non-empty byte string: whether it encodes a
  character and how many bytes it takes. An ill-formed sequence takes the maximal subpart
  that \<^verbatim>\<open>from_utf8_lossy\<close> replaces by one U+FFFD.
\<close>

definition cont_byte :: "nat \<Rightarrow> bool" where
  "cont_byte b \<longleftrightarrow> 0x80 \<le> b \<and> b \<le> 0xBF"

definition second3 :: "nat \<Rightarrow> nat \<Rightarrow> bool" where
  "second3 a b \<longleftrightarrow>
     (if a = 0xE0 then 0xA0 \<le> b \<and> b \<le> 0xBF
      else if a = 0xED then 0x80 \<le> b \<and> b \<le> 0x9F else cont_byte b)"

definition second4 :: "nat \<Rightarrow> nat \<Rightarrow> bool" where
  "second4 a b \<longleftrightarrow>
     (if a = 0xF0 then 0x90 \<le> b \<and> b \<le> 0xBF
      else if a = 0xF4 then 0x80 \<le> b \<and> b \<le> 0x8F else cont_byte b)"

definition byte_at :: "string \<Rightarrow> nat \<Rightarrow> nat" where
  "byte_at s i = (if i < length s then of_char (s ! i) else 0)"

definition utf8_head :: "string \<Rightarrow> bool \<times> nat" where
  "utf8_head s =
     (let a = byte_at s 0; b = byte_at s 1; c = byte_at s 2; d = byte_at s 3 in
      if a < 0x80 then (True, 1)
      else if 0xC2 \<le> a \<and> a \<le> 0xDF then (if cont_byte b then (True, 2) else (False, 1))
      else if 0xE0 \<le> a \<and> a \<le> 0xEF then
        (if \<not> second3 a b then (False, 1)
         else if \<not> cont_byte c then (False, 2) else (True, 3))
      else if 0xF0 \<le> a \<and> a \<le> 0xF4 then
        (if \<not> second4 a b then (False, 1)
         else if \<not> cont_byte c then (False, 2)
         else if \<not> cont_byte d then (False, 3) else (True, 4))
      else (False, 1))"

lemma utf8_head_pos: "0 < snd (utf8_head s)"
  by (simp add: utf8_head_def Let_def)

function from_utf8_lossy :: "string \<Rightarrow> string" where
  "from_utf8_lossy s =
     (if s = [] then []
      else (if fst (utf8_head s) then take (snd (utf8_head s)) s
            else [CHR 0xEF, CHR 0xBF, CHR 0xBD]) @
           from_utf8_lossy (drop (snd (utf8_head s)) s))"
  by pat_completeness auto
termination
  by (relation "measure length") (auto simp: utf8_head_pos)

function valid_utf8 :: "string \<Rightarrow> bool" where
  "valid_utf8 s =
     (if s = [] then True
      else fst (utf8_head s) \<and> valid_utf8 (drop (snd (utf8_head s)) s))"
  by pat_completeness auto
termination
  by (relation "measure length") (auto simp: utf8_head_pos)

declare from_utf8_lossy.simps [simp del]
declare valid_utf8.simps [simp del]

lemma from_utf8_lossy_valid: "valid_utf8 s \<Longrightarrow> from_utf8_lossy s = s"
proof (induction s rule: from_utf8_lossy.induct)
  case (1 s)
  show ?case
  proof (cases "s = []")
    case True
    then show ?thesis by (subst from_utf8_lossy.simps) simp
  next
    case False
    let ?n = "snd (utf8_head s)"
    from False "1.prems" have ok: "fst (utf8_head s)" "valid_utf8 (drop ?n s)"
      by (subst (asm) valid_utf8.simps, simp)+
    from "1.IH" [OF False ok(2)] have "from_utf8_lossy (drop ?n s) = drop ?n s" .
    with False ok(1) show ?thesis by (subst from_utf8_lossy.simps) simp
  qed
qed

lemma valid_utf8_ascii: "list_all (\<lambda>c. of_char c < (0x80 :: nat)) s \<Longrightarrow> valid_utf8 s"
proof (induction s)
  case Nil
  then show ?case by (subst valid_utf8.simps) simp
next
  case (Cons c s)
  then have "utf8_head (c # s) = (True, 1)"
    by (simp add: utf8_head_def byte_at_def)
  with Cons show ?case by (subst valid_utf8.simps) simp
qed

section \<open>Decimal display\<close>

definition digit_char :: "nat \<Rightarrow> char" where
  "digit_char d = char_of (48 + d)"

fun show_nat :: "nat \<Rightarrow> string" where
  "show_nat n = (if n < 10 then [digit_char n] else show_nat (n div 10) @ [digit_char (n mod 10)])"

declare show_nat.simps [simp del]

section \<open>Joining\<close>

fun join :: "string \<Rightarrow> string list \<Rightarrow> string" where
  "join sep [] = []"
| "join sep [s] = s"
| "join sep (s # t # ss) = s @ sep @ join sep (t # ss)"

end
