(* ===== verification/Jsonrpc.thy ===== *)
theory Jsonrpc
  imports Rust_Str
begin

text \<open>
  JSON values and the JSON-RPC 2.0 messages of \<^verbatim>\<open>src/src/protocol/jsonrpc.rs\<close>: ids, requests,
  responses, error codes and the three response constructors.

  JSON text is read and written by serde_json, which is not part of the repository: the reader
  and the printer of each message type are the fields of the parameter record \<open>serde\<close>, with a
  reader's error message on the left of its sum. A JSON value itself is data, with the shapes of
  \<^verbatim>\<open>serde_json::Value\<close>; an object lists its members, each key once.
\<close>

section \<open>JSON values\<close>

datatype json_number = PosInt u64 | NegInt i64 | Float rat

datatype json =
    JNull
  | JBool bool
  | JNumber json_number
  | JString string
  | JArray "json list"
  | JObject "(string \<times> json) list"

fun get :: "string \<Rightarrow> json \<Rightarrow> json option" where
  "get k (JObject ms) = map_of ms k"
| "get k _ = None"

fun as_str :: "json \<Rightarrow> string option" where
  "as_str (JString s) = Some s"
| "as_str _ = None"

fun as_u64 :: "json \<Rightarrow> u64 option" where
  "as_u64 (JNumber (PosInt n)) = Some n"
| "as_u64 _ = None"

fun_cases get_SomeE: "get k v = Some w"
fun_cases as_strE: "as_str v = Some s"
fun_cases as_u64E: "as_u64 v = Some n"

section \<open>Error codes\<close>

definition PARSE_ERROR :: i32 where "PARSE_ERROR = -32700"
definition INVALID_REQUEST :: i32 where "INVALID_REQUEST = -32600"
definition METHOD_NOT_FOUND :: i32 where "METHOD_NOT_FOUND = -32601"
definition INVALID_PARAMS :: i32 where "INVALID_PARAMS = -32602"
definition INTERNAL_ERROR :: i32 where "INTERNAL_ERROR = -32603"
definition RATE_LIMIT_ERROR :: i32 where "RATE_LIMIT_ERROR = -32004"
definition KILL_SWITCH_ERROR :: i32 where "KILL_SWITCH_ERROR = -32005"
definition CIRCUIT_OPEN_ERROR :: i32 where "CIRCUIT_OPEN_ERROR = -32007"

lemmas error_code_defs = PARSE_ERROR_def INVALID_REQUEST_def METHOD_NOT_FOUND_def
  INVALID_PARAMS_def INTERNAL_ERROR_def RATE_LIMIT_ERROR_def KILL_SWITCH_ERROR_def
  CIRCUIT_OPEN_ERROR_def

section \<open>Messages\<close>

datatype JsonRpcId = Number u64 | String string | Null

record JsonRpcRequest =
  req_jsonrpc :: string
  req_id :: "JsonRpcId option"
  req_method :: string
  req_params :: "json option"

definition is_notification :: "JsonRpcRequest \<Rightarrow> bool" where
  "is_notification r \<longleftrightarrow> req_id r = None"

record JsonRpcError =
  err_code :: i32
  err_message :: string
  err_data :: "json option"

record JsonRpcResponse =
  resp_jsonrpc :: string
  resp_id :: JsonRpcId
  resp_result :: "json option"
  resp_error :: "JsonRpcError option"

definition resp_success :: "JsonRpcId \<Rightarrow> json \<Rightarrow> JsonRpcResponse" where
  "resp_success i r =
     \<lparr>resp_jsonrpc = ''2.0'', resp_id = i, resp_result = Some r, resp_error = None\<rparr>"

definition mk_error :: "JsonRpcId \<Rightarrow> i32 \<Rightarrow> string \<Rightarrow> JsonRpcResponse" where
  "mk_error i code message =
     \<lparr>resp_jsonrpc = ''2.0'', resp_id = i, resp_result = None,
      resp_error = Some \<lparr>err_code = code, err_message = message, err_data = None\<rparr>\<rparr>"

definition error_with_data :: "JsonRpcId \<Rightarrow> i32 \<Rightarrow> string \<Rightarrow> json \<Rightarrow> JsonRpcResponse" where
  "error_with_data i code message data =
     \<lparr>resp_jsonrpc = ''2.0'', resp_id = i, resp_result = None,
      resp_error = Some \<lparr>err_code = code, err_message = message, err_data = Some data\<rparr>\<rparr>"

lemma resp_success_simps [simp]:
  "resp_id (resp_success i r) = i" "resp_error (resp_success i r) = None"
  "resp_result (resp_success i r) = Some r"
  by (simp_all add: resp_success_def)

lemma mk_error_simps [simp]:
  "resp_id (mk_error i c m) = i" "resp_result (mk_error i c m) = None"
  "resp_error (mk_error i c m) = Some \<lparr>err_code = c, err_message = m, err_data = None\<rparr>"
  by (simp_all add: mk_error_def)

lemma error_with_data_simps [simp]:
  "resp_id (error_with_data i c m d) = i" "resp_result (error_with_data i c m d) = None"
  "resp_error (error_with_data i c m d) = Some \<lparr>err_code = c, err_message = m, err_data = Some d\<rparr>"
  by (simp_all add: error_with_data_def)

text \<open>The error code of a response, if it is an error.\<close>

definition code_of :: "JsonRpcResponse \<Rightarrow> i32 option" where
  "code_of r = map_option err_code (resp_error r)"

lemma code_of_simps [simp]:
  "code_of (resp_success i v) = None" "code_of (mk_error i c m) = Some c"
  "code_of (error_with_data i c m d) = Some c"
  by (simp_all add: code_of_def)

section \<open>The JSON library, a parameter\<close>

record serde =
  from_str_request :: "string \<Rightarrow> string + JsonRpcRequest"
  from_str_response :: "string \<Rightarrow> string + JsonRpcResponse"
  from_str_value :: "string \<Rightarrow> string + json"
  to_string_value :: "json \<Rightarrow> string"
  to_string_response :: "JsonRpcResponse \<Rightarrow> string"

end
