(* ===== verification/Mcp.thy ===== *)
theory Mcp
  imports Jsonrpc
begin

text \<open>
  The MCP session life cycle of \<^verbatim>\<open>src/src/protocol/mcp.rs\<close>: the four states, the methods each
  accepts, and the \<^verbatim>\<open>initialize\<close> handler. The typed reader of the initialize parameters and the
  printer of the result belong to serde_json and rmcp and are arguments of \<open>handle_initialize\<close>.
\<close>

section \<open>Life cycle\<close>

datatype McpState = Created | Initializing | Operational | Closed

fun stage :: "McpState \<Rightarrow> nat" where
  "stage Created = 0"
| "stage Initializing = 1"
| "stage Operational = 2"
| "stage Closed = 3"

lemma stage_inject: "stage a = stage b \<longleftrightarrow> a = b"
  by (cases a; cases b) simp_all

text \<open>The order in which the comment of the source lists the states.\<close>

instantiation McpState :: linorder
begin

definition less_eq_McpState :: "McpState \<Rightarrow> McpState \<Rightarrow> bool" where
  "less_eq_McpState a b \<longleftrightarrow> stage a \<le> stage b"

definition less_McpState :: "McpState \<Rightarrow> McpState \<Rightarrow> bool" where
  "less_McpState a b \<longleftrightarrow> stage a < stage b"

instance
  by standard (auto simp: less_eq_McpState_def less_McpState_def stage_inject)

end

definition can_accept_method :: "McpState \<Rightarrow> string \<Rightarrow> bool" where
  "can_accept_method s method =
     (case s of
        Created \<Rightarrow> method = ''initialize'' \<or> method = ''ping''
      | Initializing \<Rightarrow> method = ''notifications/initialized'' \<or> method = ''ping''
      | Operational \<Rightarrow> True
      | Closed \<Rightarrow> False)"

lemma can_accept_method_simps [simp]:
  "can_accept_method Created m \<longleftrightarrow> m = ''initialize'' \<or> m = ''ping''"
  "can_accept_method Initializing m \<longleftrightarrow> m = ''notifications/initialized'' \<or> m = ''ping''"
  "can_accept_method Operational m" "\<not> can_accept_method Closed m"
  by (simp_all add: can_accept_method_def)

section \<open>The initialize handler\<close>

record Implementation =
  impl_name :: string
  impl_version :: string
  impl_title :: "string option"
  impl_description :: "string option"
  impl_icons :: "string list option"
  impl_website_url :: "string option"

record ServerCapabilities =
  cap_tools :: bool

record InitializeResult =
  protocol_version :: string
  capabilities :: ServerCapabilities
  server_info :: Implementation
  instructions :: "string option"

definition initialize_result :: InitializeResult where
  "initialize_result =
     \<lparr>protocol_version = ''2025-03-26'',
      capabilities = \<lparr>cap_tools = True\<rparr>,
      server_info = \<lparr>impl_name = ''sentinel-gateway'', impl_version = ''0.1.0'',
        impl_title = None, impl_description = None, impl_icons = None, impl_website_url = None\<rparr>,
      instructions = Some ''Sentinel Gateway - governed MCP tool access''\<rparr>"

text \<open>
  \<open>read_params\<close> is \<^verbatim>\<open>serde_json::from_value::<InitializeRequestParams>\<close>, whose value the handler
  only logs; \<open>print_result\<close> is \<^verbatim>\<open>serde_json::to_value\<close>.
\<close>

definition handle_initialize ::
  "(json \<Rightarrow> string + unit) \<Rightarrow> (InitializeResult \<Rightarrow> string + json) \<Rightarrow> json \<Rightarrow> (i32 \<times> string) + json"
  where
  "handle_initialize read_params print_result params =
     (case read_params params of
        Inl e \<Rightarrow> Inl (INVALID_PARAMS, ''Invalid initialize params: '' @ e)
      | Inr _ \<Rightarrow>
          (case print_result initialize_result of
             Inl e \<Rightarrow> Inl (INTERNAL_ERROR, ''Failed to serialize initialize result: '' @ e)
           | Inr v \<Rightarrow> Inr v))"

end
