(* ===== verification/Id_Remapper.thy ===== *)
theory Id_Remapper
  imports Jsonrpc
begin

text \<open>
  \<^verbatim>\<open>src/src/protocol/id_remapper.rs\<close>: the table that replaces a client's JSON-RPC id by a
  gateway-wide number on the way to a backend and restores it on the way back.

  The sequential operations are \<open>remap\<close> and \<open>restore\<close>. The counter is an atomic and the table is
  behind a mutex, so two threads can interleave between a \<^verbatim>\<open>fetch_add\<close> and its \<^verbatim>\<open>insert\<close>:
  \<open>remap_step\<close> is that finer step relation, and its invariant shows that no interleaving mixes up
  two callers.
\<close>

section \<open>The table\<close>

record IdRemapper =
  counter :: u64
  mappings :: "(u64, JsonRpcId \<times> string) hashmap"

definition remapper_new :: IdRemapper where
  "remapper_new = \<lparr>counter = 1, mappings = []\<rparr>"

definition remap :: "JsonRpcId \<Rightarrow> string \<Rightarrow> IdRemapper \<Rightarrow> u64 \<times> IdRemapper" where
  "remap original_id backend s =
     (let gateway_id = counter s
      in (gateway_id,
          s\<lparr>counter := counter s + 1,
            mappings := hm_insert gateway_id (original_id, backend) (mappings s)\<rparr>))"

definition restore :: "u64 \<Rightarrow> IdRemapper \<Rightarrow> (JsonRpcId \<times> string) option \<times> IdRemapper" where
  "restore gateway_id s =
     (hm_get (mappings s) gateway_id, s\<lparr>mappings := hm_remove gateway_id (mappings s)\<rparr>)"

definition pending_count :: "IdRemapper \<Rightarrow> nat" where
  "pending_count s = hm_len (mappings s)"

section \<open>The contract of a correlation table\<close>

text \<open>
  What a client of the table relies on: a key that is issued was not held, holds exactly the
  value it was issued for, and gives it back once.
\<close>

locale correlation_table =
  fixes issue :: "'v \<Rightarrow> 's \<Rightarrow> 'k \<times> 's"
    and redeem :: "'k \<Rightarrow> 's \<Rightarrow> 'v option \<times> 's"
    and held :: "'s \<Rightarrow> 'k \<Rightarrow> 'v option"
    and ready :: "'s \<Rightarrow> bool"
  assumes issue_fresh: "ready s \<Longrightarrow> held s (fst (issue v s)) = None"
    and issue_holds: "held (snd (issue v s)) = (held s)(fst (issue v s) \<mapsto> v)"
    and redeem_value: "fst (redeem k s) = held s k"
    and redeem_clears: "held (snd (redeem k s)) = (held s)(k := None)"
begin

lemma issue_redeem:
  assumes "issue v s = (k, s1)" and "redeem k s1 = (r, s2)"
  shows "r = Some v"
  using assms issue_holds [of v s] redeem_value [of k s1] by simp

lemma issue_redeem_frame:
  assumes "ready s" and "issue v s = (k, s1)" and "redeem k s1 = (r, s2)"
  shows "held s2 = held s"
  using assms issue_fresh [of s v] issue_holds [of v s] redeem_clears [of k s1]
  by (simp add: fun_upd_idem)

lemma redeem_once:
  assumes "redeem k s = (r, s1)" and "redeem k s1 = (r', s2)"
  shows "r' = None"
  using assms redeem_value [of k s1] redeem_clears [of k s] by simp

lemma redeem_other:
  assumes "redeem k s = (r, s1)" and "k' \<noteq> k"
  shows "held s1 k' = held s k'"
  using assms redeem_clears [of k s] by simp

end

interpretation rm: correlation_table
  "\<lambda>(i, b). remap i b" restore "\<lambda>s. hm_get (mappings s)"
  "\<lambda>s. hm_get (mappings s) (counter s) = None"
  by unfold_locales (auto simp: remap_def restore_def Let_def split: prod.splits)

lemma pending_count_remap:
  "hm_wf (mappings s) \<Longrightarrow> hm_get (mappings s) (counter s) = None \<Longrightarrow>
   pending_count (snd (remap i b s)) = Suc (pending_count s)"
  by (simp add: pending_count_def remap_def Let_def hm.len_insert)

text \<open>With an empty table a call leaves an empty table: the sequential use of the gateway.\<close>

lemma restore_remap_empty:
  "mappings s = [] \<Longrightarrow> mappings (snd (restore (fst (remap i b s)) (snd (remap i b s)))) = []"
  by (simp add: remap_def restore_def Let_def)

section \<open>Interleaved use\<close>

text \<open>
  \<open>flying\<close> holds the calls that have fetched a number and not yet inserted it; \<open>issued\<close> counts
  the numbers handed out. Each rule is one atomic action of one thread.
\<close>

record remap_conc =
  table :: IdRemapper
  flying :: "(u64 \<times> JsonRpcId \<times> string) list"
  issued :: nat

datatype remap_event =
    Fetch JsonRpcId string
  | Insert u64
  | Restore u64 "(JsonRpcId \<times> string) option"

definition conc_init :: "remap_conc \<Rightarrow> bool" where
  "conc_init c \<longleftrightarrow> c = \<lparr>table = remapper_new, flying = [], issued = 0\<rparr>"

inductive remap_step :: "remap_conc \<Rightarrow> remap_event \<Rightarrow> remap_conc \<Rightarrow> bool" where
  fetch: "Suc (issued c) < 2 ^ 64 \<Longrightarrow>
     remap_step c (Fetch i b)
       (c\<lparr>table := (table c)\<lparr>counter := counter (table c) + 1\<rparr>,
          flying := (counter (table c), i, b) # flying c, issued := Suc (issued c)\<rparr>)"
| insert: "hm_get (flying c) g = Some (i, b) \<Longrightarrow>
     remap_step c (Insert g)
       (c\<lparr>table := (table c)\<lparr>mappings := hm_insert g (i, b) (mappings (table c))\<rparr>,
          flying := hm_remove g (flying c)\<rparr>)"
| restore: "restore g (table c) = (r, t') \<Longrightarrow>
     remap_step c (Restore g r) (c\<lparr>table := t'\<rparr>)"

inductive_cases remap_step_fetchE: "remap_step c (Fetch i b) d"
inductive_cases remap_step_insertE: "remap_step c (Insert g) d"
inductive_cases remap_step_restoreE: "remap_step c (Restore g r) d"

definition live :: "nat \<Rightarrow> u64 set" where
  "live n = {g. 0 < unat g \<and> unat g \<le> n}"

lemma live_Suc: "live n \<subseteq> live (Suc n)"
  by (auto simp: live_def)

definition conc_inv :: "remap_conc \<Rightarrow> bool" where
  "conc_inv c \<longleftrightarrow>
     unat (counter (table c)) = Suc (issued c) mod 2 ^ 64 \<and>
     hm_wf (flying c) \<and> hm_wf (mappings (table c)) \<and>
     dom (hm_get (flying c)) \<inter> dom (hm_get (mappings (table c))) = {} \<and>
     dom (hm_get (flying c)) \<union> dom (hm_get (mappings (table c))) \<subseteq> live (issued c)"

lemma conc_inv_fetch:
  assumes inv: "conc_inv c" and bound: "Suc (issued c) < 2 ^ 64"
  shows "conc_inv (c\<lparr>table := (table c)\<lparr>counter := counter (table c) + 1\<rparr>,
          flying := (counter (table c), i, b) # flying c, issued := Suc (issued c)\<rparr>)"
proof -
  let ?g = "counter (table c)"
  have g: "unat ?g = Suc (issued c)" using inv bound by (simp add: conc_inv_def)
  then have fresh: "?g \<notin> live (issued c)" and new: "?g \<in> live (Suc (issued c))"
    by (simp_all add: live_def)
  from g have "unat (?g + 1) = Suc (Suc (issued c)) mod 2 ^ 64"
    by (simp add: unat_word_ariths)
  with inv fresh new live_Suc [of "issued c"] show ?thesis
    unfolding conc_inv_def by (simp add: hm_wf_Cons del: dom_eq_empty_conv) blast
qed

lemma conc_inv_insert:
  assumes "conc_inv c" and "hm_get (flying c) g = Some (i, b)"
  shows "conc_inv (c\<lparr>table := (table c)\<lparr>mappings := hm_insert g (i, b) (mappings (table c))\<rparr>,
          flying := hm_remove g (flying c)\<rparr>)"
proof -
  from assms(2) have "g \<in> dom (hm_get (flying c))" by blast
  with assms(1) show ?thesis unfolding conc_inv_def by (simp del: dom_eq_empty_conv) blast
qed

lemma conc_inv_restore:
  assumes "conc_inv c" and "restore g (table c) = (r, t')"
  shows "conc_inv (c\<lparr>table := t'\<rparr>)"
proof -
  from assms(2) have "t' = (table c)\<lparr>mappings := hm_remove g (mappings (table c))\<rparr>"
    by (simp add: restore_def)
  with assms(1) show ?thesis unfolding conc_inv_def by (simp del: dom_eq_empty_conv) blast
qed

interpretation conc: invariant_system conc_init remap_step conc_inv
proof unfold_locales
  show "conc_init c \<Longrightarrow> conc_inv c" for c
    by (simp add: conc_init_def conc_inv_def remapper_new_def hm_wf_def)
  show "conc_inv c \<Longrightarrow> remap_step c e d \<Longrightarrow> conc_inv d" for c e d
    by (erule remap_step.cases)
      (auto intro: conc_inv_fetch conc_inv_insert conc_inv_restore simp del: fun_upd_apply)
qed

lemma in_flight_stable:
  assumes inv: "conc_inv c" and "remap_step c e d" and "hm_get (mappings (table c)) g = Some v"
    and "\<forall>r. e \<noteq> Restore g r"
  shows "hm_get (mappings (table d)) g = Some v"
  using assms(2)
proof cases
  case (insert g' i b)
  with inv have "hm_get (mappings (table c)) g' = None" unfolding conc_inv_def by blast
  with insert assms(3) show ?thesis by auto
next
  case (restore g' r t')
  with assms(3,4) show ?thesis by (auto simp: restore_def)
qed (use assms(3) in simp)

inductive remap_run :: "remap_conc \<Rightarrow> remap_event list \<Rightarrow> remap_conc \<Rightarrow> bool" where
  run_nil: "remap_run c [] c"
| run_cons: "remap_step c e d \<Longrightarrow> remap_run d es f \<Longrightarrow> remap_run c (e # es) f"

lemma remap_run_stable:
  assumes "remap_run c es d" and "conc_inv c" and "hm_get (mappings (table c)) g = Some v"
    and "list_all (\<lambda>e. \<forall>r. e \<noteq> Restore g r) es"
  shows "conc_inv d \<and> hm_get (mappings (table d)) g = Some v"
  using assms
proof (induction rule: remap_run.induct)
  case (run_cons c e d es f)
  from run_cons.prems(3) have e: "\<forall>r. e \<noteq> Restore g r"
    and es: "list_all (\<lambda>e. \<forall>r. e \<noteq> Restore g r) es" by simp_all
  have "conc_inv d" using run_cons.prems(1) run_cons.hyps(1) by (rule conc.inv_step)
  moreover have "hm_get (mappings (table d)) g = Some v"
    by (rule in_flight_stable [OF run_cons.prems(1) run_cons.hyps(1) run_cons.prems(2) e])
  ultimately show ?case using es by (rule run_cons.IH)
qed simp

section \<open>Properties\<close>

text \<open>
  C21: Concurrent callers are never mixed up. In any interleaving of fewer than \<open>2 ^ 64 - 1\<close> calls,
  a number that is handed out is not in use, and once a caller has stored its id under its number,
  then whatever other callers do, restoring that number gives back that caller's id and backend,
  and only once.
\<close>

theorem ids_never_mixed_up:
  assumes "reach conc_init remap_step c" and "hm_get (flying c) g = Some (i, b)"
    and "remap_step c (Insert g) c1" and "remap_run c1 es c2"
    and "list_all (\<lambda>e. \<forall>r. e \<noteq> Restore g r) es" and "remap_step c2 (Restore g r) d"
  shows "hm_get (mappings (table c)) g = None \<and> r = Some (i, b) \<and> hm_get (mappings (table d)) g = None"
proof -
  have inv: "conc_inv c" using assms(1) by (rule conc.reach_inv)
  with assms(2) have fresh: "hm_get (mappings (table c)) g = None" unfolding conc_inv_def by blast
  have "hm_get (mappings (table c1)) g = Some (i, b)"
    using assms(2,3) by (auto elim: remap_step_insertE)
  with remap_run_stable [OF assms(4) conc.inv_step [OF inv assms(3)] _ assms(5)]
  have "hm_get (mappings (table c2)) g = Some (i, b)" by blast
  with assms(6) have "r = Some (i, b) \<and> hm_get (mappings (table d)) g = None"
    by (auto elim!: remap_step_restoreE simp: restore_def)
  with fresh show ?thesis by blast
qed

definition demo_conc :: remap_conc where
  "demo_conc = \<lparr>table = \<lparr>counter = 3, mappings = []\<rparr>,
     flying = [(2, String ''y'', ''b''), (1, Number 7, ''a'')], issued = Suc (Suc 0)\<rparr>"

lemma demo_conc_reach: "reach conc_init remap_step demo_conc"
proof -
  let ?c0 = "\<lparr>table = remapper_new, flying = [], issued = 0\<rparr>"
  let ?c1 = "\<lparr>table = \<lparr>counter = 2, mappings = []\<rparr>, flying = [(1, Number 7, ''a'')], issued = 1\<rparr>"
  have "reach conc_init remap_step ?c0" by (rule reach_init) (simp add: conc_init_def)
  moreover have "remap_step ?c0 (Fetch (Number 7) ''a'') ?c1"
    using remap_step.fetch [of ?c0 "Number 7" "''a''"] by (simp add: remapper_new_def)
  ultimately have "reach conc_init remap_step ?c1" by (rule reach_step)
  moreover have "remap_step ?c1 (Fetch (String ''y'') ''b'') demo_conc"
    using remap_step.fetch [of ?c1 "String ''y''" "''b''"] by (simp add: demo_conc_def)
  ultimately show ?thesis by (rule reach_step)
qed

theorem ids_never_mixed_up_witness:
  "\<exists>c1 c2 d. remap_step demo_conc (Insert 1) c1 \<and> remap_step c1 (Insert 2) c2 \<and>
     remap_step c2 (Restore 1 (Some (Number 7, ''a''))) d"
proof -
  have g: "hm_get (flying demo_conc) 1 = Some (Number 7, ''a'')" by (simp add: demo_conc_def)
  obtain c1 where c1: "remap_step demo_conc (Insert 1) c1"
    and f1: "hm_get (flying c1) 2 = Some (String ''y'', ''b'')"
    using remap_step.insert [OF g] by (fastforce simp: demo_conc_def)
  obtain c2 where c2: "remap_step c1 (Insert 2) c2" using remap_step.insert [OF f1] by blast
  obtain r d where d: "remap_step c2 (Restore 1 r) d"
    using remap_step.restore [of 1 c2] by (cases "restore 1 (table c2)") blast
  have "remap_run c1 [Insert 2] c2" using c2 by (blast intro: run_cons run_nil)
  from ids_never_mixed_up [OF demo_conc_reach g c1 this _ d] c1 c2 d show ?thesis by auto
qed

end
