(* ===== verification/Config.thy ===== *)
theory Config
  imports Rust_Str
begin

text \<open>
  The configuration of \<^verbatim>\<open>src/src/config/\<close>: the typed sections of \<^verbatim>\<open>types.rs\<close> with their default
  values, the secrets of \<^verbatim>\<open>secrets.rs\<close>, and the loading and validation of \<^verbatim>\<open>mod.rs\<close>. The file
  system, the TOML reader and the process environment are arguments.
\<close>

section \<open>Sections of the configuration\<close>

datatype BackendType = Http | Stdio

record GatewayConfig =
  listen :: string
  log_level :: string
  audit_enabled :: bool
  health_listen :: string

record AuthConfig =
  jwt_secret_env :: string
  jwt_issuer :: string
  jwt_audience :: string

record PostgresConfig =
  url_env :: string
  max_connections :: u32

record BackendConfig =
  bc_name :: string
  backend_type :: BackendType
  bc_url :: "string option"
  bc_command :: "string option"
  bc_args :: "string list"
  bc_env :: "(string, string) hashmap"
  timeout_secs :: u64
  retries :: u32
  restart_on_exit :: bool
  max_restarts :: u32
  health_interval_secs :: u64
  circuit_breaker_threshold :: u32
  circuit_breaker_recovery_secs :: u64

record RoleConfig =
  permissions :: "string list"
  denied_tools :: "string list"

record RbacConfig =
  roles :: "(string, RoleConfig) hashmap"

record RateLimitConfig =
  cfg_default_rpm :: u32
  cfg_per_tool :: "(string, u32) hashmap"

record KillSwitchConfig =
  disabled_tools :: "string list"
  disabled_backends :: "string list"

record SentinelConfig =
  cfg_gateway :: GatewayConfig
  cfg_auth :: AuthConfig
  cfg_postgres :: PostgresConfig
  cfg_backends :: "BackendConfig list"
  cfg_rbac :: RbacConfig
  cfg_rate_limits :: RateLimitConfig
  cfg_kill_switch :: KillSwitchConfig

section \<open>Defaults\<close>

definition default_listen :: string where "default_listen = ''127.0.0.1:9200''"
definition default_log_level :: string where "default_log_level = ''info''"
definition default_true :: bool where "default_true = True"
definition default_issuer :: string where "default_issuer = ''sentinel-gateway''"
definition default_audience :: string where "default_audience = ''sentinel-api''"
definition default_max_connections :: u32 where "default_max_connections = 10"
definition default_timeout :: u64 where "default_timeout = 60"
definition default_retries :: u32 where "default_retries = 3"
definition default_max_restarts :: u32 where "default_max_restarts = 5"
definition default_health_interval :: u64 where "default_health_interval = 300"
definition default_rpm :: u32 where "default_rpm = 1000"
definition default_health_listen :: string where "default_health_listen = ''127.0.0.1:9201''"
definition default_cb_threshold :: u32 where "default_cb_threshold = 5"
definition default_cb_recovery :: u64 where "default_cb_recovery = 30"

definition GatewayConfig_default :: GatewayConfig where
  "GatewayConfig_default =
     \<lparr>listen = default_listen, log_level = default_log_level, audit_enabled = default_true,
      health_listen = default_health_listen\<rparr>"

definition RateLimitConfig_default :: RateLimitConfig where
  "RateLimitConfig_default = \<lparr>cfg_default_rpm = default_rpm, cfg_per_tool = []\<rparr>"

definition KillSwitchConfig_default :: KillSwitchConfig where
  "KillSwitchConfig_default = \<lparr>disabled_tools = [], disabled_backends = []\<rparr>"

definition RbacConfig_default :: RbacConfig where
  "RbacConfig_default = \<lparr>roles = []\<rparr>"

section \<open>Errors\<close>

datatype ConfigError = MissingSecret string string | MissingConfig string

text \<open>An \<^verbatim>\<open>anyhow::Error\<close>: a message, a wrapped error, or a context around one.\<close>

datatype anyhow = Bail string | Config_Error ConfigError | Foreign string | Context string anyhow

definition with_context :: "string \<Rightarrow> anyhow + 'a \<Rightarrow> anyhow + 'a" where
  "with_context c r = (case r of Inl e \<Rightarrow> Inl (Context c e) | Inr x \<Rightarrow> Inr x)"

lemma with_context_Inr [simp]: "with_context c r = Inr x \<longleftrightarrow> r = Inr x"
  by (simp add: with_context_def split: sum.splits)

section \<open>Secrets\<close>

text \<open>\<open>env\<close> is \<^verbatim>\<open>std::env::var\<close>: \<open>None\<close> where the variable is not set.\<close>

type_synonym environment = "string \<Rightarrow> string option"

definition resolve_jwt_secret :: "environment \<Rightarrow> AuthConfig \<Rightarrow> ConfigError + string" where
  "resolve_jwt_secret env a =
     (case env (jwt_secret_env a) of
        None \<Rightarrow> Inl (MissingSecret (jwt_secret_env a) ''JWT secret key'')
      | Some v \<Rightarrow> Inr v)"

definition resolve_url :: "environment \<Rightarrow> PostgresConfig \<Rightarrow> ConfigError + string" where
  "resolve_url env p =
     (case env (url_env p) of
        None \<Rightarrow> Inl (MissingSecret (url_env p) ''PostgreSQL connection URL'')
      | Some v \<Rightarrow> Inr v)"

section \<open>Validation\<close>

fun check_backends :: "string set \<Rightarrow> BackendConfig list \<Rightarrow> anyhow + unit" where
  "check_backends names [] = Inr ()"
| "check_backends names (b # bs) =
     (if bc_name b \<in> names then Inl (Bail (''Duplicate backend name: '' @ bc_name b))
      else
        (case backend_type b of
           Http \<Rightarrow>
             (if bc_url b = None
              then Inl (Bail (''HTTP backend '' @ [CHR 0x27] @ bc_name b @ [CHR 0x27] @
                         '' must have a '' @ [CHR 0x27] @ ''url'' @ [CHR 0x27] @ '' field''))
              else check_backends (insert (bc_name b) names) bs)
         | Stdio \<Rightarrow>
             (if bc_command b = None
              then Inl (Bail (''stdio backend '' @ [CHR 0x27] @ bc_name b @ [CHR 0x27] @
                         '' must have a '' @ [CHR 0x27] @ ''command'' @ [CHR 0x27] @ '' field''))
              else check_backends (insert (bc_name b) names) bs)))"

definition validate_backends :: "SentinelConfig \<Rightarrow> anyhow + unit" where
  "validate_backends c = check_backends {} (cfg_backends c)"

definition validate :: "environment \<Rightarrow> SentinelConfig \<Rightarrow> anyhow + unit" where
  "validate env c =
     (case resolve_jwt_secret env (cfg_auth c) of
        Inl e \<Rightarrow> Inl (Context ''Config validation failed'' (Config_Error e))
      | Inr _ \<Rightarrow>
          (case resolve_url env (cfg_postgres c) of
             Inl e \<Rightarrow> Inl (Context ''Config validation failed'' (Config_Error e))
           | Inr _ \<Rightarrow> validate_backends c))"

text \<open>
  \<open>read_to_string\<close> is the file system and \<open>from_toml\<close> the TOML reader with the derived
  deserialisation of \<open>SentinelConfig\<close>.
\<close>

definition read_config ::
  "(string \<Rightarrow> string + string) \<Rightarrow> (string \<Rightarrow> string + SentinelConfig) \<Rightarrow> string \<Rightarrow>
   anyhow + SentinelConfig" where
  "read_config read_to_string from_toml path =
     (case read_to_string path of
        Inl e \<Rightarrow> Inl (Context (''Failed to read config file: '' @ path) (Foreign e))
      | Inr content \<Rightarrow>
          (case from_toml content of
             Inl e \<Rightarrow> Inl (Context (''Failed to parse config file: '' @ path) (Foreign e))
           | Inr config \<Rightarrow> Inr config))"

definition load_config ::
  "(string \<Rightarrow> string + string) \<Rightarrow> (string \<Rightarrow> string + SentinelConfig) \<Rightarrow> environment \<Rightarrow> string \<Rightarrow>
   anyhow + SentinelConfig" where
  "load_config read_to_string from_toml env path =
     (case read_config read_to_string from_toml path of
        Inl e \<Rightarrow> Inl e
      | Inr config \<Rightarrow> (case validate env config of Inl e \<Rightarrow> Inl e | Inr _ \<Rightarrow> Inr config))"

definition load_config_lenient ::
  "(string \<Rightarrow> string + string) \<Rightarrow> (string \<Rightarrow> string + SentinelConfig) \<Rightarrow> string \<Rightarrow>
   anyhow + SentinelConfig" where
  "load_config_lenient read_to_string from_toml path =
     (case read_config read_to_string from_toml path of
        Inl e \<Rightarrow> Inl e
      | Inr config \<Rightarrow> (case validate_backends config of Inl e \<Rightarrow> Inl e | Inr _ \<Rightarrow> Inr config))"

section \<open>What validation establishes\<close>

definition backend_ok :: "BackendConfig \<Rightarrow> bool" where
  "backend_ok b \<longleftrightarrow>
     (case backend_type b of Http \<Rightarrow> bc_url b \<noteq> None | Stdio \<Rightarrow> bc_command b \<noteq> None)"

definition backends_ok :: "BackendConfig list \<Rightarrow> bool" where
  "backends_ok bs \<longleftrightarrow> distinct (map bc_name bs) \<and> list_all backend_ok bs"

lemma check_backends_Inr:
  "check_backends names bs = Inr () \<longleftrightarrow>
   backends_ok bs \<and> names \<inter> set (map bc_name bs) = {}"
proof (induction bs arbitrary: names)
  case Nil
  then show ?case by (simp add: backends_ok_def)
next
  case (Cons b bs)
  then show ?case
    by (auto simp: backends_ok_def backend_ok_def split: BackendType.splits)
qed

lemma load_config_Inr:
  "load_config rd toml env path = Inr c \<longleftrightarrow>
   read_config rd toml path = Inr c \<and> env (jwt_secret_env (cfg_auth c)) \<noteq> None \<and>
   env (url_env (cfg_postgres c)) \<noteq> None \<and> validate_backends c = Inr ()"
  by (auto simp: load_config_def validate_def resolve_jwt_secret_def resolve_url_def
      split: sum.splits option.splits)

lemma load_config_lenient_Inr:
  "load_config_lenient rd toml path = Inr c \<longleftrightarrow>
   read_config rd toml path = Inr c \<and> validate_backends c = Inr ()"
  by (auto simp: load_config_lenient_def split: sum.splits)

section \<open>Properties\<close>

text \<open>
  C39: Loading accepts exactly the well-formed configurations: the file reads and parses, no two
  backends share a name, every HTTP backend has an address and every stdio backend a command; the
  strict loader asks in addition that the JWT secret and the database address are set, and the
  lenient one, which the gateway uses, does not.
\<close>

theorem load_config_accepts:
  "(load_config rd toml env path = Inr c \<longleftrightarrow>
      (\<exists>content. rd path = Inr content \<and> toml content = Inr c) \<and>
      distinct (map bc_name (cfg_backends c)) \<and> list_all backend_ok (cfg_backends c) \<and>
      env (jwt_secret_env (cfg_auth c)) \<noteq> None \<and> env (url_env (cfg_postgres c)) \<noteq> None) \<and>
   (load_config_lenient rd toml path = Inr c \<longleftrightarrow>
      (\<exists>content. rd path = Inr content \<and> toml content = Inr c) \<and>
      distinct (map bc_name (cfg_backends c)) \<and> list_all backend_ok (cfg_backends c))"
proof -
  have "read_config rd toml path = Inr c \<longleftrightarrow> (\<exists>content. rd path = Inr content \<and> toml content = Inr c)"
    by (auto simp: read_config_def split: sum.splits)
  moreover have "validate_backends c = Inr () \<longleftrightarrow>
      distinct (map bc_name (cfg_backends c)) \<and> list_all backend_ok (cfg_backends c)"
    by (simp add: validate_backends_def check_backends_Inr backends_ok_def)
  ultimately show ?thesis by (auto simp: load_config_Inr load_config_lenient_Inr)
qed

end
