(* ===== verification/Auth.thy ===== *)
theory Auth
  imports Config
begin

text \<open>
  Authentication and authorisation, \<^verbatim>\<open>src/src/auth/\<close>: the JWT validator of \<^verbatim>\<open>jwt.rs\<close> and the role
  check of \<^verbatim>\<open>rbac.rs\<close>. Token decoding and encoding are jsonwebtoken's, so \<open>decode\<close> and \<open>encode\<close>
  are arguments; \<open>decode_contract\<close> states what the library documents of a token it accepts.
\<close>

section \<open>Roles\<close>

datatype Permission = Read | Execute

fun required_permission_str :: "Permission \<Rightarrow> string" where
  "required_permission_str Read = ''tools.read''"
| "required_permission_str Execute = ''tools.execute''"

definition is_tool_allowed :: "string \<Rightarrow> string \<Rightarrow> Permission \<Rightarrow> RbacConfig \<Rightarrow> bool" where
  "is_tool_allowed role tool_name permission cfg =
     (case hm_get (roles cfg) role of
        None \<Rightarrow> False
      | Some role_config \<Rightarrow>
          if list_ex (\<lambda>d. d = tool_name) (denied_tools role_config) then False
          else if list_ex (\<lambda>p. p = ''*'') (permissions role_config) then True
          else
            (let required = required_permission_str permission in
             if list_ex (\<lambda>p. p = required) (permissions role_config) then True
             else if permission = Read \<and>
                 list_ex (\<lambda>p. p = ''tools.execute'') (permissions role_config) then True
             else False))"

text \<open>The policy as one condition: the role exists, does not deny the tool, and grants enough.\<close>

definition grants :: "RoleConfig \<Rightarrow> Permission \<Rightarrow> bool" where
  "grants r p \<longleftrightarrow>
     ''*'' \<in> set (permissions r) \<or> ''tools.execute'' \<in> set (permissions r) \<or>
     p = Read \<and> ''tools.read'' \<in> set (permissions r)"

lemma is_tool_allowed_iff:
  "is_tool_allowed role tool p cfg \<longleftrightarrow>
   (\<exists>r. hm_get (roles cfg) role = Some r \<and> tool \<notin> set (denied_tools r) \<and> grants r p)"
  by (cases p) (auto simp: is_tool_allowed_def grants_def Let_def list_ex_iff split: option.splits)

lemma execute_implies_read:
  "is_tool_allowed role tool Execute cfg \<Longrightarrow> is_tool_allowed role tool Read cfg"
  by (auto simp: is_tool_allowed_iff grants_def)

section \<open>Tokens\<close>

datatype AuthError =
    InvalidToken string
  | ExpiredToken
  | InvalidClaims string
  | MissingToken

definition json_rpc_code :: "AuthError \<Rightarrow> i64" where
  "json_rpc_code e = -32001"

definition auth_error_display :: "AuthError \<Rightarrow> string" where
  "auth_error_display e =
     (case e of
        InvalidToken m \<Rightarrow> ''invalid token: '' @ m
      | ExpiredToken \<Rightarrow> ''token expired''
      | InvalidClaims m \<Rightarrow> ''invalid claims: '' @ m
      | MissingToken \<Rightarrow> ''missing token'')"

record Claims =
  cl_sub :: string
  cl_role :: string
  cl_iss :: string
  cl_aud :: string
  cl_exp :: u64
  cl_iat :: "u64 option"
  cl_jti :: "string option"

record CallerIdentity =
  ci_subject :: string
  ci_role :: string
  ci_token_id :: "string option"

definition identity_of :: "Claims \<Rightarrow> CallerIdentity" where
  "identity_of c = \<lparr>ci_subject = cl_sub c, ci_role = cl_role c, ci_token_id = cl_jti c\<rparr>"

text \<open>The error kinds of jsonwebtoken the source tells apart, each with its display text.\<close>

datatype jwt_error_kind =
    ExpiredSignature
  | InvalidIssuer
  | InvalidAudience
  | InvalidSignature
  | MissingRequiredClaim string
  | OtherKind

record jwt_error =
  jwt_kind :: jwt_error_kind
  jwt_text :: string

datatype jwt_algorithm = HS256

record Validation =
  val_algorithm :: jwt_algorithm
  val_issuers :: "string list"
  val_audiences :: "string list"
  required_spec_claims :: "string list"
  validate_exp :: bool

record JwtValidator =
  decoding_key :: string
  jwt_validation :: Validation

definition validator_new :: "string \<Rightarrow> string \<Rightarrow> string \<Rightarrow> JwtValidator" where
  "validator_new secret issuer audience =
     \<lparr>decoding_key = secret,
      jwt_validation = \<lparr>val_algorithm = HS256, val_issuers = [issuer], val_audiences = [audience],
        required_spec_claims = [''exp'', ''iss'', ''aud'', ''sub''], validate_exp = True\<rparr>\<rparr>"

type_synonym decoder = "string \<Rightarrow> string \<Rightarrow> Validation \<Rightarrow> jwt_error + Claims"

definition map_jwt_error :: "jwt_error \<Rightarrow> AuthError" where
  "map_jwt_error e =
     (case jwt_kind e of
        ExpiredSignature \<Rightarrow> ExpiredToken
      | InvalidIssuer \<Rightarrow> InvalidToken (jwt_text e)
      | InvalidAudience \<Rightarrow> InvalidToken (jwt_text e)
      | InvalidSignature \<Rightarrow> InvalidToken (jwt_text e)
      | MissingRequiredClaim claim \<Rightarrow> InvalidClaims (''missing required claim: '' @ claim)
      | OtherKind \<Rightarrow> InvalidToken (jwt_text e))"

definition jwt_validate :: "decoder \<Rightarrow> JwtValidator \<Rightarrow> string \<Rightarrow> AuthError + CallerIdentity" where
  "jwt_validate decode v token =
     (case decode token (decoding_key v) (jwt_validation v) of
        Inl e \<Rightarrow> Inl (map_jwt_error e)
      | Inr claims \<Rightarrow>
          if cl_role claims = '''' then Inl (InvalidClaims ''missing role'')
          else Inr (identity_of claims))"

definition create_token ::
  "(Claims \<Rightarrow> string \<Rightarrow> jwt_error + string) \<Rightarrow> Claims \<Rightarrow> string \<Rightarrow> AuthError + string" where
  "create_token encode claims secret =
     (case encode claims secret of Inl e \<Rightarrow> Inl (InvalidToken (jwt_text e)) | Inr t \<Rightarrow> Inr t)"

text \<open>
  What jsonwebtoken documents of an accepted token, at the time \<open>now\<close> (in seconds) and with
  its leeway of 60 seconds: the issuer and the audience are among the expected ones, and the
  expiry is not more than the leeway ago.
\<close>

definition decode_contract :: "decoder \<Rightarrow> nat \<Rightarrow> bool" where
  "decode_contract decode now \<longleftrightarrow>
     (\<forall>token key v c. decode token key v = Inr c \<longrightarrow>
        cl_iss c \<in> set (val_issuers v) \<and> cl_aud c \<in> set (val_audiences v) \<and>
        (validate_exp v \<longrightarrow> now \<le> unat (cl_exp c) + 60))"

lemma jwt_validate_Inr:
  "jwt_validate decode v token = Inr i \<longleftrightarrow>
   (\<exists>c. decode token (decoding_key v) (jwt_validation v) = Inr c \<and> cl_role c \<noteq> '''' \<and>
        i = identity_of c)"
  by (auto simp: jwt_validate_def split: sum.splits)

section \<open>Session authentication\<close>

text \<open>
  The authentication block of \<^verbatim>\<open>main\<close>: with no secret the session runs unauthenticated
  (\<open>Inr None\<close>); otherwise a token is required and validated once, at session start.
\<close>

definition authenticate_session ::
  "environment \<Rightarrow> decoder \<Rightarrow> AuthConfig \<Rightarrow> anyhow + CallerIdentity option" where
  "authenticate_session env decode a =
     (let secret = (case env (jwt_secret_env a) of None \<Rightarrow> '''' | Some s \<Rightarrow> s) in
      if secret = '''' then Inr None
      else
        (case env ''SENTINEL_TOKEN'' of
           None \<Rightarrow> Inl (Bail ''SENTINEL_TOKEN env var required when JWT auth is enabled'')
         | Some token \<Rightarrow>
             (case jwt_validate decode
                     (validator_new secret (jwt_issuer a) (jwt_audience a)) token of
                Inl e \<Rightarrow> Inl (Bail (''Authentication failed: '' @ auth_error_display e))
              | Inr identity \<Rightarrow> Inr (Some identity))))"

text \<open>The caller of a dispatch loop that was given none.\<close>

definition default_caller :: CallerIdentity where
  "default_caller = \<lparr>ci_subject = ''admin'', ci_role = ''admin'', ci_token_id = None\<rparr>"

definition effective_caller :: "CallerIdentity option \<Rightarrow> CallerIdentity" where
  "effective_caller c = (case c of None \<Rightarrow> default_caller | Some i \<Rightarrow> i)"

section \<open>Properties\<close>

text \<open>
  C18: The role check is the documented policy: a caller may use a tool exactly if its role is
  configured, does not deny the tool, and holds the wildcard, the permission to execute, or, for
  reading, the permission to read. So a denial outweighs every permission, an unknown role may do
  nothing, and whoever may execute a tool may also see it.
\<close>

theorem rbac_policy:
  "(is_tool_allowed role tool p cfg \<longleftrightarrow>
      (\<exists>r. hm_get (roles cfg) role = Some r \<and> tool \<notin> set (denied_tools r) \<and>
         (''*'' \<in> set (permissions r) \<or> ''tools.execute'' \<in> set (permissions r) \<or>
          p = Read \<and> ''tools.read'' \<in> set (permissions r)))) \<and>
   {t. is_tool_allowed role t Execute cfg} \<subseteq> {t. is_tool_allowed role t Read cfg}"
  by (auto simp: is_tool_allowed_iff grants_def)

end
