(* ===== verification/Rate_Limit.thy ===== *)
theory Rate_Limit
  imports Config
begin

text \<open>
  The per-client, per-tool rate limiter of \<^verbatim>\<open>src/src/ratelimit.rs\<close>. A bucket refills to its
  maximum at the first request that comes 60 seconds or more after the last refill.

  The source measures elapsed time in \<^verbatim>\<open>f64\<close> seconds. Here it is in nanoseconds: 60.0 and every
  whole number of seconds up to 60 are exact doubles, and times below 60 seconds that differ by a
  nanosecond are far more than a rounding error apart, so the comparison with 60.0, the maximum
  with 1.0 and the later \<^verbatim>\<open>ceil\<close> give the same results. Every reading of the clock is an
  argument: \<open>t_new\<close> when a bucket is created, \<open>t_el\<close> for \<^verbatim>\<open>elapsed()\<close>, \<open>t_ref\<close> for the refill.
\<close>

section \<open>Token buckets\<close>

record TokenBucket =
  tokens :: u32
  max_tokens :: u32
  last_refill :: nanos

definition bucket_new :: "u32 \<Rightarrow> nanos \<Rightarrow> TokenBucket" where
  "bucket_new m now = \<lparr>tokens = m, max_tokens = m, last_refill = now\<rparr>"

definition try_consume :: "nanos \<Rightarrow> nanos \<Rightarrow> TokenBucket \<Rightarrow> (nanos + unit) \<times> TokenBucket" where
  "try_consume t_el t_ref b =
     (let el = elapsed t_el (last_refill b);
          b = (if sec 60 \<le> el then b\<lparr>tokens := max_tokens b, last_refill := t_ref\<rparr> else b)
      in if 0 < tokens b then (Inr (), b\<lparr>tokens := tokens b - 1\<rparr>)
         else (Inl (max (sec 60 - el) (sec 1)), b))"

definition bucket_inv :: "TokenBucket \<Rightarrow> bool" where
  "bucket_inv b \<longleftrightarrow> tokens b \<le> max_tokens b"

section \<open>The limiter\<close>

record RateLimiter =
  buckets :: "(string \<times> string, TokenBucket) hashmap"
  rl_default_rpm :: u32
  rl_per_tool :: "(string, u32) hashmap"

definition limiter_new :: "RateLimitConfig \<Rightarrow> RateLimiter" where
  "limiter_new config =
     \<lparr>buckets = [], rl_default_rpm = cfg_default_rpm config, rl_per_tool = cfg_per_tool config\<rparr>"

definition rpm_of :: "RateLimiter \<Rightarrow> string \<Rightarrow> u32" where
  "rpm_of rl tool = (case hm_get (rl_per_tool rl) tool of None \<Rightarrow> rl_default_rpm rl | Some n \<Rightarrow> n)"

definition bucket_of :: "RateLimiter \<Rightarrow> string \<Rightarrow> string \<Rightarrow> nanos \<Rightarrow> TokenBucket" where
  "bucket_of rl client tool t_new =
     (case hm_get (buckets rl) (client, tool) of
        None \<Rightarrow> bucket_new (rpm_of rl tool) t_new
      | Some b \<Rightarrow> b)"

definition check ::
  "RateLimiter \<Rightarrow> string \<Rightarrow> string \<Rightarrow> nanos \<Rightarrow> nanos \<Rightarrow> nanos \<Rightarrow> (nanos + unit) \<times> RateLimiter" where
  "check rl client tool t_new t_el t_ref =
     (case try_consume t_el t_ref (bucket_of rl client tool t_new) of
        (r, b) \<Rightarrow> (r, rl\<lparr>buckets := hm_insert (client, tool) b (buckets rl)\<rparr>))"

text \<open>The limiter's invariant: every bucket holds at most its limit, which is the tool's.\<close>

definition limiter_inv :: "RateLimiter \<Rightarrow> bool" where
  "limiter_inv rl \<longleftrightarrow>
     hm_wf (buckets rl) \<and>
     (\<forall>client tool b. hm_get (buckets rl) (client, tool) = Some b \<longrightarrow>
        bucket_inv b \<and> max_tokens b = rpm_of rl tool)"

section \<open>One bucket\<close>

lemma try_consume_max [simp]: "max_tokens (snd (try_consume t t' b)) = max_tokens b"
  by (simp add: try_consume_def Let_def)

lemma try_consume_inv: "bucket_inv b \<Longrightarrow> bucket_inv (snd (try_consume t t' b))"
  by (auto simp: try_consume_def Let_def bucket_inv_def intro: word_pred_le)

text \<open>The tokens left after the refill that a request at \<open>t\<close> triggers, if it does.\<close>

definition available :: "TokenBucket \<Rightarrow> nanos \<Rightarrow> u32" where
  "available b t = (if sec 60 \<le> elapsed t (last_refill b) then max_tokens b else tokens b)"

lemma try_consume_Inr: "fst (try_consume t t' b) = Inr () \<longleftrightarrow> 0 < available b t"
  by (auto simp: try_consume_def Let_def available_def)

lemma try_consume_retry:
  "fst (try_consume t t' b) = Inl r \<Longrightarrow> sec 1 \<le> r \<and> r \<le> sec 60"
  by (auto simp: try_consume_def Let_def elapsed_def split: if_splits)

lemma try_consume_tokens:
  "unat (tokens (snd (try_consume t t' b))) = unat (available b t) - 1"
proof (cases "0 < available b t")
  case True
  then have "1 \<le> available b t" by (metis inc_le add_0)
  then show ?thesis
    using True by (simp add: try_consume_def Let_def available_def unat_sub split: if_splits)
next
  case False
  then have "available b t = 0" by (metis word_neq_0_conv)
  with False show ?thesis by (auto simp: try_consume_def Let_def available_def split: if_splits)
qed


text \<open>
  The contract of a gate with a budget, for requests that do not replenish it: it admits while
  the budget is positive, and spends one unit for each.
\<close>

locale budget_gate =
  fixes serve :: "'r \<Rightarrow> 's \<Rightarrow> ('e + unit) \<times> 's"
    and budget :: "'s \<Rightarrow> nat"
    and quiet :: "'r \<Rightarrow> 's \<Rightarrow> bool"
  assumes admits: "quiet r s \<Longrightarrow> isl (fst (serve r s)) \<longleftrightarrow> budget s = 0"
    and spends: "quiet r s \<Longrightarrow> budget (snd (serve r s)) = budget s - 1"
    and stays_quiet: "quiet r s \<Longrightarrow> quiet r' s \<Longrightarrow> quiet r' (snd (serve r s))"
begin

lemma quiet_successes:
  "list_all (\<lambda>r. quiet r s) rs \<Longrightarrow>
   successes (fst (run_steps serve rs s)) = min (length rs) (budget s)"
proof (induction rs arbitrary: s)
  case Nil
  then show ?case by simp
next
  case (Cons r rs)
  then have q: "quiet r s" by simp
  with Cons.prems have "list_all (\<lambda>r'. quiet r' (snd (serve r s))) rs"
    by (auto simp: list_all_iff intro: stays_quiet)
  with q show ?case
    by (cases "budget s")
      (simp_all add: run_steps_Cons successes_Cons Cons.IH admits spends del: run_steps.simps(2))
qed

end

text \<open>A request to the limiter, with its three readings of the clock.\<close>

record rl_request =
  rq_client :: string
  rq_tool :: string
  rq_new :: nanos
  rq_el :: nanos
  rq_ref :: nanos

definition serve_bucket :: "rl_request \<Rightarrow> TokenBucket \<Rightarrow> (nanos + unit) \<times> TokenBucket" where
  "serve_bucket r b = try_consume (rq_el r) (rq_ref r) b"

definition serve_limiter :: "rl_request \<Rightarrow> RateLimiter \<Rightarrow> (nanos + unit) \<times> RateLimiter" where
  "serve_limiter r rl = check rl (rq_client r) (rq_tool r) (rq_new r) (rq_el r) (rq_ref r)"

definition no_refill :: "rl_request \<Rightarrow> TokenBucket \<Rightarrow> bool" where
  "no_refill r b \<longleftrightarrow> elapsed (rq_el r) (last_refill b) < sec 60"

lemma no_refill_keeps:
  "no_refill r b \<Longrightarrow> last_refill (snd (serve_bucket r b)) = last_refill b"
  by (auto simp: no_refill_def serve_bucket_def try_consume_def Let_def)

interpretation bucket: budget_gate serve_bucket "\<lambda>b. unat (tokens b)" no_refill
proof unfold_locales
  show "no_refill r b \<Longrightarrow> isl (fst (serve_bucket r b)) \<longleftrightarrow> unat (tokens b) = 0" for r b
    by (auto simp: no_refill_def serve_bucket_def try_consume_def Let_def unat_eq_0)
  show "no_refill r b \<Longrightarrow> unat (tokens (snd (serve_bucket r b))) = unat (tokens b) - 1" for r b
    by (simp add: no_refill_def serve_bucket_def try_consume_tokens available_def)
  show "no_refill r b \<Longrightarrow> no_refill r' b \<Longrightarrow> no_refill r' (snd (serve_bucket r b))" for r r' b
    using no_refill_keeps [of r b] by (simp add: no_refill_def)
qed

text \<open>In a window shorter than a minute a bucket is refilled at most once.\<close>

definition in_window :: "nanos \<Rightarrow> rl_request \<Rightarrow> bool" where
  "in_window t0 r \<longleftrightarrow> t0 \<le> rq_ref r \<and> rq_el r < t0 + sec 60"

lemma bucket_window:
  assumes "list_all (in_window t0) rs" and "bucket_inv b"
  shows "successes (fst (run_steps serve_bucket rs b)) \<le> unat (tokens b) + unat (max_tokens b)"
  using assms
proof (induction rs arbitrary: b)
  case Nil
  then show ?case by simp
next
  case (Cons r rs)
  let ?b = "snd (serve_bucket r b)"
  have inv: "bucket_inv ?b" and mx: "max_tokens ?b = max_tokens b"
    using Cons.prems(2) by (simp_all add: serve_bucket_def try_consume_inv)
  have sp: "unat (tokens ?b) = unat (available b (rq_el r)) - 1"
    by (simp add: serve_bucket_def try_consume_tokens)
  have ad: "isl (fst (serve_bucket r b)) \<longleftrightarrow> unat (available b (rq_el r)) = 0"
    using try_consume_Inr [of "rq_el r" "rq_ref r" b]
    by (cases "fst (serve_bucket r b)") (auto simp: serve_bucket_def unat_eq_0 word_neq_0_conv)
  show ?case
  proof (cases "no_refill r b")
    case True
    then have av: "available b (rq_el r) = tokens b" by (simp add: no_refill_def available_def)
    from Cons.IH [of ?b] Cons.prems(1) inv mx sp av
    have "successes (fst (run_steps serve_bucket rs ?b)) \<le> unat (tokens b) - 1 + unat (max_tokens b)"
      by simp
    with ad av show ?thesis
      by (simp add: run_steps_Cons successes_Cons del: run_steps.simps(2)) linarith
  next
    case False
    then have av: "available b (rq_el r) = max_tokens b" and "last_refill ?b = rq_ref r"
      by (auto simp: no_refill_def available_def serve_bucket_def try_consume_def Let_def)
    with Cons.prems(1) have "list_all (\<lambda>r'. no_refill r' ?b) rs"
      by (auto simp: list_all_iff in_window_def no_refill_def elapsed_def)
    from bucket.quiet_successes [OF this] ad av sp show ?thesis
      by (simp add: run_steps_Cons successes_Cons del: run_steps.simps(2)) linarith
  qed
qed

section \<open>The limiter is a family of independent buckets\<close>

lemma check_eq:
  "check rl c t tn te tr =
   (fst (try_consume te tr (bucket_of rl c t tn)),
    rl\<lparr>buckets := hm_insert (c, t) (snd (try_consume te tr (bucket_of rl c t tn))) (buckets rl)\<rparr>)"
  by (simp add: check_def case_prod_unfold)

lemma check_frame:
  "(c', t') \<noteq> (c, t) \<Longrightarrow>
   hm_get (buckets (snd (check rl c t tn te tr))) (c', t') = hm_get (buckets rl) (c', t')"
  by (auto simp: check_eq)

lemma check_config [simp]:
  "rl_default_rpm (snd (check rl c t tn te tr)) = rl_default_rpm rl"
  "rl_per_tool (snd (check rl c t tn te tr)) = rl_per_tool rl"
  "rpm_of (snd (check rl c t tn te tr)) u = rpm_of rl u"
  by (simp_all add: check_eq rpm_of_def split: option.split)

lemma check_own:
  "fst (check rl c t tn te tr) = fst (try_consume te tr (bucket_of rl c t tn))"
  "hm_get (buckets (snd (check rl c t tn te tr))) (c, t) =
   Some (snd (try_consume te tr (bucket_of rl c t tn)))"
  by (simp_all add: check_eq)

lemma bucket_new_inv [simp]: "bucket_inv (bucket_new m t)"
  by (simp add: bucket_inv_def bucket_new_def)

lemma bucket_of_inv: "limiter_inv rl \<Longrightarrow> bucket_inv (bucket_of rl c t tn)"
  by (auto simp: limiter_inv_def bucket_of_def split: option.splits)

lemma bucket_of_max: "limiter_inv rl \<Longrightarrow> max_tokens (bucket_of rl c t tn) = rpm_of rl t"
  by (auto simp: limiter_inv_def bucket_of_def bucket_new_def split: option.splits)

lemma limiter_inv_new: "limiter_inv (limiter_new cfg)"
  by (simp add: limiter_inv_def limiter_new_def hm_wf_def)

lemma check_inv:
  assumes "limiter_inv rl"
  shows "limiter_inv (snd (check rl c t tn te tr))"
proof -
  let ?b = "snd (try_consume te tr (bucket_of rl c t tn))"
  have "bucket_inv ?b" "max_tokens ?b = rpm_of rl t"
    using assms by (simp_all add: try_consume_inv bucket_of_inv bucket_of_max)
  with assms show ?thesis
    unfolding limiter_inv_def check_config by (auto simp: check_eq)
qed

text \<open>
  The decisions a limiter takes for one client and tool, in any interleaving with requests of
  others, are those of that pair's bucket alone.
\<close>

definition own :: "string \<Rightarrow> string \<Rightarrow> rl_request \<Rightarrow> bool" where
  "own c t r \<longleftrightarrow> rq_client r = c \<and> rq_tool r = t"

fun own_results :: "string \<Rightarrow> string \<Rightarrow> rl_request list \<Rightarrow> 'a list \<Rightarrow> 'a list" where
  "own_results c t (r # rs) (x # xs) =
     (if own c t r then x # own_results c t rs xs else own_results c t rs xs)"
| "own_results c t _ _ = []"

lemma isolation_known:
  assumes "hm_get (buckets rl) (c, t) = Some b"
  shows "own_results c t rs (fst (run_steps serve_limiter rs rl)) =
         fst (run_steps serve_bucket (filter (own c t) rs) b)"
  using assms
proof (induction rs arbitrary: rl b)
  case Nil
  then show ?case by simp
next
  case (Cons r rs)
  let ?rl = "snd (serve_limiter r rl)"
  show ?case
  proof (cases "own c t r")
    case True
    with Cons.prems have "serve_limiter r rl = (fst (serve_bucket r b),
        rl\<lparr>buckets := hm_insert (c, t) (snd (serve_bucket r b)) (buckets rl)\<rparr>)"
      by (simp add: own_def serve_limiter_def serve_bucket_def check_eq bucket_of_def)
    with True Cons.IH [of ?rl "snd (serve_bucket r b)"] show ?thesis
      by (simp add: run_steps_Cons del: run_steps.simps(2))
  next
    case False
    with Cons.prems have "hm_get (buckets ?rl) (c, t) = Some b"
      by (auto simp: own_def serve_limiter_def check_frame)
    from Cons.IH [OF this] False show ?thesis
      by (simp add: run_steps_Cons del: run_steps.simps(2))
  qed
qed

lemma isolation_new:
  assumes "hm_get (buckets rl) (c, t) = None" and "filter (own c t) rs = r0 # rs0"
  shows "own_results c t rs (fst (run_steps serve_limiter rs rl)) =
         fst (run_steps serve_bucket (r0 # rs0) (bucket_new (rpm_of rl t) (rq_new r0)))"
  using assms
proof (induction rs arbitrary: rl)
  case Nil
  then show ?case by simp
next
  case (Cons r rs)
  let ?rl = "snd (serve_limiter r rl)" and ?b0 = "bucket_new (rpm_of rl t) (rq_new r0)"
  show ?case
  proof (cases "own c t r")
    case True
    with Cons.prems have r: "r = r0" "filter (own c t) rs = rs0" by simp_all
    with True Cons.prems(1) have s: "serve_limiter r rl = (fst (serve_bucket r ?b0),
        rl\<lparr>buckets := hm_insert (c, t) (snd (serve_bucket r ?b0)) (buckets rl)\<rparr>)"
      by (simp add: own_def serve_limiter_def serve_bucket_def check_eq bucket_of_def)
    then have "hm_get (buckets ?rl) (c, t) = Some (snd (serve_bucket r ?b0))" by simp
    from isolation_known [OF this, of rs] s True r show ?thesis
      by (simp add: run_steps_Cons del: run_steps.simps(2))
  next
    case False
    with Cons.prems have "hm_get (buckets ?rl) (c, t) = None" "rpm_of ?rl t = rpm_of rl t"
      by (auto simp: own_def serve_limiter_def check_frame)
    with Cons.IH [of ?rl] False Cons.prems show ?thesis
      by (simp add: run_steps_Cons del: run_steps.simps(2))
  qed
qed

section \<open>Properties\<close>

lemma isolation:
  assumes "filter (own c t) rs = r0 # rs0"
  shows "own_results c t rs (fst (run_steps serve_limiter rs rl)) =
         fst (run_steps serve_bucket (r0 # rs0) (bucket_of rl c t (rq_new r0)))"
proof (cases "hm_get (buckets rl) (c, t)")
  case None
  with isolation_new [OF None assms] show ?thesis by (simp add: bucket_of_def)
next
  case (Some b)
  with isolation_known [OF Some, of rs] assms show ?thesis by (simp add: bucket_of_def)
qed

lemma own_results_none:
  "filter (own c t) rs = [] \<Longrightarrow> own_results c t rs xs = []"
  by (induction c t rs xs rule: own_results.induct) (auto split: if_splits)

lemma limiter_window:
  assumes "limiter_inv rl" and "list_all (in_window t0) rs"
  shows "successes (own_results c t rs (fst (run_steps serve_limiter rs rl)))
           \<le> 2 * unat (rpm_of rl t)"
proof (cases "filter (own c t) rs")
  case Nil
  then show ?thesis by (simp add: own_results_none)
next
  case (Cons r0 rs0)
  let ?b = "bucket_of rl c t (rq_new r0)"
  from assms(1) have b: "bucket_inv ?b" "max_tokens ?b = rpm_of rl t"
    by (simp_all add: bucket_of_inv bucket_of_max)
  have "list_all (in_window t0) (filter (own c t) rs)"
    using assms(2) by (auto simp: list_all_iff)
  with Cons have "list_all (in_window t0) (r0 # rs0)" by simp
  from bucket_window [OF this b(1)] b isolation [OF Cons, of rl] show ?thesis
    by (simp add: bucket_inv_def word_le_nat_alt)
qed

text \<open>A sample configuration and request, for the witnesses.\<close>

definition demo_limits :: "u32 \<Rightarrow> RateLimitConfig" where
  "demo_limits n = \<lparr>cfg_default_rpm = n, cfg_per_tool = [(''slow'', 1)]\<rparr>"

definition demo_request :: "string \<Rightarrow> string \<Rightarrow> nanos \<Rightarrow> rl_request" where
  "demo_request c t n = \<lparr>rq_client = c, rq_tool = t, rq_new = n, rq_el = n, rq_ref = n\<rparr>"

lemmas demo_rate_defs = demo_limits_def demo_request_def own_def limiter_new_def serve_limiter_def
  serve_bucket_def check_def bucket_of_def bucket_new_def rpm_of_def try_consume_def elapsed_def
  in_window_def no_refill_def successes_def

text \<open>
  C23: The limiter isolates its clients and tools: in any interleaving of requests, the answers
  given to one client for one tool are exactly those of that pair's own token bucket run on its
  own requests, whatever the others do.
\<close>

theorem rate_limit_isolation:
  assumes "filter (own c t) rs = r0 # rs0"
  shows "own_results c t rs (fst (run_steps serve_limiter rs rl)) =
         fst (run_steps serve_bucket (r0 # rs0) (bucket_of rl c t (rq_new r0)))"
  using assms by (rule isolation)

theorem rate_limit_isolation_witness:
  "own_results ''a'' ''slow''
     [demo_request ''b'' ''slow'' 0, demo_request ''a'' ''slow'' 1, demo_request ''a'' ''slow'' 2]
     (fst (run_steps serve_limiter
       [demo_request ''b'' ''slow'' 0, demo_request ''a'' ''slow'' 1, demo_request ''a'' ''slow'' 2]
       (limiter_new (demo_limits 5)))) =
   fst (run_steps serve_bucket [demo_request ''a'' ''slow'' 1, demo_request ''a'' ''slow'' 2]
     (bucket_of (limiter_new (demo_limits 5)) ''a'' ''slow'' 1))"
  using rate_limit_isolation [of "''a''" "''slow''"
      "[demo_request ''b'' ''slow'' 0, demo_request ''a'' ''slow'' 1, demo_request ''a'' ''slow'' 2]"
      "demo_request ''a'' ''slow'' 1" "[demo_request ''a'' ''slow'' 2]" "limiter_new (demo_limits 5)"]
  by (simp add: own_def demo_request_def)

text \<open>
  In any window shorter than a minute, from any state of the limiter that its operations
  can produce, one client gets at most twice a tool's limit of admitted calls.
\<close>

theorem rate_limit_window:
  assumes "limiter_inv rl" and "list_all (in_window t0) rs"
  shows "successes (own_results c t rs (fst (run_steps serve_limiter rs rl)))
           \<le> 2 * unat (rpm_of rl t)"
  using assms by (rule limiter_window)

theorem rate_limit_window_witness:
  "successes (own_results ''a'' ''x'' (replicate 9 (demo_request ''a'' ''x'' 7))
     (fst (run_steps serve_limiter (replicate 9 (demo_request ''a'' ''x'' 7))
       (limiter_new (demo_limits 3)))))
     \<le> 2 * unat (rpm_of (limiter_new (demo_limits 3)) ''x'')"
  by (rule rate_limit_window [OF limiter_inv_new, of 0])
    (simp add: list_all_iff in_window_def demo_request_def)

text \<open>
  A new limiter admits exactly the first \<open>rpm\<close> calls of a client to a tool during the
  minute after its first call, and refuses the rest of them.
\<close>

theorem rate_limit_first_minute:
  assumes "filter (own c t) rs = r0 # rs0"
    and "list_all (\<lambda>r. rq_el r < rq_new r0 + sec 60) (r0 # rs0)"
  shows "successes (own_results c t rs (fst (run_steps serve_limiter rs (limiter_new cfg)))) =
         min (length (r0 # rs0)) (unat (rpm_of (limiter_new cfg) t))"
proof -
  let ?b = "bucket_of (limiter_new cfg) c t (rq_new r0)"
  have b: "?b = bucket_new (rpm_of (limiter_new cfg) t) (rq_new r0)"
    by (simp add: bucket_of_def limiter_new_def)
  with assms(2) have "list_all (\<lambda>r. no_refill r ?b) (r0 # rs0)"
    by (auto simp: list_all_iff no_refill_def bucket_new_def elapsed_def)
  from bucket.quiet_successes [OF this] isolation [OF assms(1)] b show ?thesis
    by (simp add: bucket_new_def del: run_steps.simps(2))
qed

theorem rate_limit_first_minute_witness:
  "successes (own_results ''a'' ''slow'' [demo_request ''a'' ''slow'' 5, demo_request ''a'' ''slow'' 6]
     (fst (run_steps serve_limiter [demo_request ''a'' ''slow'' 5, demo_request ''a'' ''slow'' 6]
       (limiter_new (demo_limits 3))))) =
   min (length [demo_request ''a'' ''slow'' 5, demo_request ''a'' ''slow'' 6])
     (unat (rpm_of (limiter_new (demo_limits 3)) ''slow''))"
  by (rule rate_limit_first_minute) (simp_all add: own_def demo_request_def)

text \<open>
  C22: The retry hint is sufficient. A refused call carries a hint between one and sixty seconds,
  and if the tool's limit is positive, the same client is admitted at any time from that long
  after the refusal on (the clock not having run behind the bucket's last refill).
\<close>

theorem retry_after_sufficient:
  assumes refused: "check rl c t tn te tr = (Inl retry, rl')"
    and inv: "limiter_inv rl" and limit: "0 < rpm_of rl t"
    and clock: "last_refill (bucket_of rl c t tn) \<le> te"
    and later: "te + retry \<le> te'"
  shows "sec 1 \<le> retry \<and> retry \<le> sec 60 \<and> fst (check rl' c t tn' te' tr') = Inr ()"
proof -
  let ?b = "bucket_of rl c t tn"
  have f: "fst (try_consume te tr ?b) = Inl retry"
    and rl': "bucket_of rl' c t tn' = snd (try_consume te tr ?b)"
    using refused by (auto simp: check_eq bucket_of_def)
  have mx: "max_tokens ?b = rpm_of rl t" using inv by (rule bucket_of_max)
  with f limit have el: "\<not> sec 60 \<le> te - last_refill ?b"
    by (auto simp: try_consume_def Let_def elapsed_def)
  with f have b: "snd (try_consume te tr ?b) = ?b"
    and r: "retry = max (sec 60 - (te - last_refill ?b)) (sec 1)"
    by (auto simp: try_consume_def Let_def elapsed_def split: if_splits)
  have "sec 60 \<le> te' - last_refill ?b"
    using r later clock el by simp
  then have "0 < available ?b te'"
    using mx limit by (simp add: available_def elapsed_def)
  then show ?thesis
    using try_consume_retry [OF f] try_consume_Inr [of te' tr' ?b] b rl' by (simp add: check_own)
qed

theorem retry_after_sufficient_witness:
  "sec 1 \<le> sec 40 \<and> sec 40 \<le> sec 60 \<and>
   fst (check (snd (run_steps serve_limiter [demo_request ''a'' ''slow'' 0, demo_request ''a'' ''slow'' (sec 20)]
          (limiter_new (demo_limits 3)))) ''a'' ''slow'' 0 (sec 60) (sec 60)) = Inr ()"
  by (rule retry_after_sufficient [of "snd (run_steps serve_limiter [demo_request ''a'' ''slow'' 0]
        (limiter_new (demo_limits 3)))" "''a''" "''slow''" "sec 20" "sec 20" "sec 20"])
    (simp_all add: demo_rate_defs check_inv [unfolded check_def] limiter_inv_def bucket_inv_def hm_wf_def)

text \<open>
  The limit is per refill period and does not slide with the clock: with a limit of three
  calls a minute, a client that used one call gets five more admitted within one nanosecond,
  two at the end of the period and three at the start of the next.
\<close>

theorem rate_limit_not_sliding:
  "rpm_of (limiter_new (demo_limits 3)) ''x'' = 3 \<and>
   fst (run_steps serve_limiter
     [demo_request ''a'' ''x'' 0,
      demo_request ''a'' ''x'' (sec 60 - 1), demo_request ''a'' ''x'' (sec 60 - 1),
      demo_request ''a'' ''x'' (sec 60), demo_request ''a'' ''x'' (sec 60),
      demo_request ''a'' ''x'' (sec 60)]
     (limiter_new (demo_limits 3))) =
   [Inr (), Inr (), Inr (), Inr (), Inr (), Inr ()]"
  by (simp add: demo_rate_defs)

end
