(* ===== verification/Hot_Config.thy ===== *)
theory Hot_Config
  imports Rate_Limit
begin

text \<open>
  The part of the configuration that a running gateway can reload, \<^verbatim>\<open>src/src/config/hot.rs\<close>, with the
  handler of SIGHUP in \<^verbatim>\<open>src/src/main.rs\<close>: the kill switch and the rate limiter. The file system and
  the TOML reader are arguments, as in the theory Config.
\<close>

section \<open>Reloading\<close>

record HotConfig =
  kill_switch :: KillSwitchConfig
  rate_limiter :: RateLimiter

definition hot_new :: "KillSwitchConfig \<Rightarrow> RateLimiter \<Rightarrow> HotConfig" where
  "hot_new ks rl = \<lparr>kill_switch = ks, rate_limiter = rl\<rparr>"

definition reload_hot_config ::
  "(string \<Rightarrow> string + string) \<Rightarrow> (string \<Rightarrow> string + SentinelConfig) \<Rightarrow> string \<Rightarrow> anyhow + HotConfig"
  where
  "reload_hot_config read_to_string from_toml config_path =
     (case load_config_lenient read_to_string from_toml config_path of
        Inl e \<Rightarrow> Inl e
      | Inr config \<Rightarrow>
          (let rate_limiter = limiter_new (cfg_rate_limits config)
           in Inr (hot_new (cfg_kill_switch config) rate_limiter)))"

text \<open>The handler replaces the shared value, or keeps it when the reload failed.\<close>

definition on_sighup :: "anyhow + HotConfig \<Rightarrow> HotConfig \<Rightarrow> HotConfig" where
  "on_sighup reloaded hot = (case reloaded of Inr new_hot \<Rightarrow> new_hot | Inl _ \<Rightarrow> hot)"

section \<open>Properties\<close>

text \<open>
  C36: A reload is all or nothing: if the file cannot be read or parsed, or its backends are not
  well formed, the running kill switch and limiter, with every token spent so far, stay as they are;
  otherwise both come from the file, and every client starts with a full allowance for every tool.
\<close>

theorem hot_reload_atomic:
  "case load_config_lenient rd toml path of
     Inl e \<Rightarrow> on_sighup (reload_hot_config rd toml path) hot = hot
   | Inr config \<Rightarrow>
       (let new = on_sighup (reload_hot_config rd toml path) hot in
        backends_ok (cfg_backends config) \<and>
        kill_switch new = cfg_kill_switch config \<and>
        limiter_inv (rate_limiter new) \<and>
        (\<forall>client tool t. tokens (bucket_of (rate_limiter new) client tool t) =
           rpm_of (limiter_new (cfg_rate_limits config)) tool))"
proof (cases "load_config_lenient rd toml path")
  case (Inl e)
  then show ?thesis by (simp add: on_sighup_def reload_hot_config_def)
next
  case (Inr config)
  then have "backends_ok (cfg_backends config)"
    by (simp add: load_config_lenient_Inr validate_backends_def check_backends_Inr)
  moreover have "tokens (bucket_of (limiter_new rc) client tool t) = rpm_of (limiter_new rc) tool"
    for rc client tool t
    by (simp add: bucket_of_def bucket_new_def limiter_new_def)
  ultimately show ?thesis
    using Inr
    by (simp add: on_sighup_def reload_hot_config_def hot_new_def Let_def limiter_inv_new)
qed

end
