(* ===== verification/Circuit_Breaker.thy ===== *)
theory Circuit_Breaker
  imports Sentinel_Prelude
begin

text \<open>
  The per-backend circuit breaker of \<^verbatim>\<open>src/src/health/circuit_breaker.rs\<close>: its atomics as the
  fields of a record, its operations, an abstract three-state machine, and the refinement between
  the two. The dispatch loop is the only user of a breaker and runs one request at a time, so each
  operation is one step. \<open>now\<close> is the reading of the clock that the operation takes.
\<close>

section \<open>The breaker\<close>

datatype CircuitState = Closed | Open | HalfOpen

definition circuit_state_from :: "u8 \<Rightarrow> CircuitState" where
  "circuit_state_from val = (if val = 1 then Open else if val = 2 then HalfOpen else Closed)"

record CircuitBreaker =
  cb_state :: u8
  failure_count :: u32
  failure_threshold :: u32
  recovery_timeout :: nanos
  last_failure :: "nanos option"

definition breaker_new :: "u32 \<Rightarrow> nanos \<Rightarrow> CircuitBreaker" where
  "breaker_new threshold timeout =
     \<lparr>cb_state = 0, failure_count = 0, failure_threshold = threshold,
      recovery_timeout = timeout, last_failure = None\<rparr>"

definition state_of :: "CircuitBreaker \<Rightarrow> CircuitState" where
  "state_of cb = circuit_state_from (cb_state cb)"

definition allow_request :: "nanos \<Rightarrow> CircuitBreaker \<Rightarrow> bool \<times> CircuitBreaker" where
  "allow_request now cb =
     (case state_of cb of
        Closed \<Rightarrow> (True, cb)
      | Open \<Rightarrow>
          (case last_failure cb of
             Some t \<Rightarrow>
               if recovery_timeout cb \<le> elapsed now t then (True, cb\<lparr>cb_state := 2\<rparr>)
               else (False, cb)
           | None \<Rightarrow> (False, cb))
      | HalfOpen \<Rightarrow> (True, cb))"

definition record_success :: "CircuitBreaker \<Rightarrow> CircuitBreaker" where
  "record_success cb = cb\<lparr>failure_count := 0, cb_state := 0\<rparr>"

definition record_failure :: "nanos \<Rightarrow> CircuitBreaker \<Rightarrow> CircuitBreaker" where
  "record_failure now cb =
     (let count = failure_count cb + 1;
          cb = cb\<lparr>failure_count := count, last_failure := Some now\<rparr>
      in if failure_threshold cb \<le> count then cb\<lparr>cb_state := 1\<rparr> else cb)"

lemma circuit_state_from_simps [simp]:
  "circuit_state_from 0 = Closed" "circuit_state_from 1 = Open" "circuit_state_from 2 = HalfOpen"
  by (simp_all add: circuit_state_from_def)

section \<open>What the gateway relies on\<close>

text \<open>
  The contract of a breaker for its client: a refused request changes nothing, a success always
  unblocks, and a request that is let through never leaves the breaker blocking at that time.
\<close>

locale breaker_contract =
  fixes allow :: "nanos \<Rightarrow> 'b \<Rightarrow> bool \<times> 'b"
    and success :: "'b \<Rightarrow> 'b"
    and blocked :: "nanos \<Rightarrow> 'b \<Rightarrow> bool"
  assumes allow_iff: "fst (allow now b) \<longleftrightarrow> \<not> blocked now b"
    and refused_frame: "blocked now b \<Longrightarrow> snd (allow now b) = b"
    and allowed_open: "\<not> blocked now b \<Longrightarrow> \<not> blocked t (snd (allow now b))"
    and success_open: "\<not> blocked t (success b)"
begin

lemma allow_again: "fst (allow now b) \<Longrightarrow> fst (allow t (snd (allow now b)))"
  by (simp add: allow_iff allowed_open)

lemma allow_after_success: "fst (allow t (success b))"
  by (simp add: allow_iff success_open)

end

definition cb_blocked :: "nanos \<Rightarrow> CircuitBreaker \<Rightarrow> bool" where
  "cb_blocked now cb \<longleftrightarrow>
     state_of cb = Open \<and>
     (case last_failure cb of None \<Rightarrow> True | Some t \<Rightarrow> elapsed now t < recovery_timeout cb)"

interpretation cb: breaker_contract allow_request record_success cb_blocked
  by unfold_locales
    (auto simp: allow_request_def cb_blocked_def state_of_def record_success_def
      split: CircuitState.splits option.splits)

section \<open>The abstract breaker\<close>

text \<open>
  Counting consecutive failures below the threshold, open since the last failure, or probing.
\<close>

datatype spec_breaker = Counting nat | Opened nanos | Probing

datatype cb_event = Allow nanos | Success | Failure nanos

fun spec_step :: "nat \<Rightarrow> nanos \<Rightarrow> cb_event \<Rightarrow> spec_breaker \<Rightarrow> bool option \<times> spec_breaker" where
  "spec_step threshold timeout (Allow now) (Opened t) =
     (if timeout \<le> elapsed now t then (Some True, Probing) else (Some False, Opened t))"
| "spec_step threshold timeout (Allow now) s = (Some True, s)"
| "spec_step threshold timeout Success s = (None, Counting 0)"
| "spec_step threshold timeout (Failure now) (Counting n) =
     (None, if threshold \<le> Suc n then Opened now else Counting (Suc n))"
| "spec_step threshold timeout (Failure now) s = (None, Opened now)"

fun cb_step :: "cb_event \<Rightarrow> CircuitBreaker \<Rightarrow> bool option \<times> CircuitBreaker" where
  "cb_step (Allow now) cb = (case allow_request now cb of (r, cb') \<Rightarrow> (Some r, cb'))"
| "cb_step Success cb = (None, record_success cb)"
| "cb_step (Failure now) cb = (None, record_failure now cb)"

definition cb_abs :: "CircuitBreaker \<Rightarrow> spec_breaker" where
  "cb_abs cb =
     (case state_of cb of
        Closed \<Rightarrow> Counting (unat (failure_count cb))
      | Open \<Rightarrow> Opened (case last_failure cb of None \<Rightarrow> 0 | Some t \<Rightarrow> t)
      | HalfOpen \<Rightarrow> Probing)"

definition cb_inv :: "CircuitBreaker \<Rightarrow> bool" where
  "cb_inv cb \<longleftrightarrow>
     (state_of cb \<noteq> Closed \<longrightarrow>
        failure_threshold cb \<le> failure_count cb \<and> last_failure cb \<noteq> None)"

lemma cb_step_params [simp]:
  "failure_threshold (snd (cb_step e cb)) = failure_threshold cb"
  "recovery_timeout (snd (cb_step e cb)) = recovery_timeout cb"
  by (cases e; simp add: allow_request_def record_success_def record_failure_def Let_def
      split: CircuitState.splits option.splits)+

text \<open>The counter of a breaker cannot wrap before it has seen \<open>2 ^ 32 - 1\<close> failures.\<close>

fun failures :: "cb_event list \<Rightarrow> nat" where
  "failures [] = 0"
| "failures (Failure t # es) = Suc (failures es)"
| "failures (e # es) = failures es"

lemma unat_count_le:
  "unat (failure_count (snd (cb_step e cb))) \<le> unat (failure_count cb) + failures [e]"
  by (cases e) (auto simp: allow_request_def record_success_def record_failure_def Let_def
      unat_word_ariths split: CircuitState.splits option.splits)

lemma failure_simulation:
  assumes "cb_inv cb" and "Suc (unat (failure_count cb)) < 2 ^ 32"
  shows "cb_inv (record_failure now cb) \<and>
         spec_step (unat (failure_threshold cb)) (recovery_timeout cb) (Failure now) (cb_abs cb) =
           (None, cb_abs (record_failure now cb))"
proof -
  have c: "unat (failure_count cb + 1) = Suc (unat (failure_count cb))"
    using assms(2) by (simp add: unat_word_ariths)
  show ?thesis
  proof (cases "state_of cb = Closed")
    case True
    with c show ?thesis
      by (auto simp: cb_inv_def cb_abs_def record_failure_def Let_def state_of_def word_le_nat_alt)
  next
    case False
    with assms(1) c have "failure_threshold cb \<le> failure_count cb + 1"
      by (auto simp: cb_inv_def word_le_nat_alt)
    with False c show ?thesis
      by (cases "state_of cb")
        (auto simp: cb_inv_def cb_abs_def record_failure_def Let_def state_of_def)
  qed
qed

lemma allow_simulation:
  assumes "cb_inv cb"
  shows "cb_inv (snd (allow_request now cb)) \<and>
         spec_step n (recovery_timeout cb) (Allow now) (cb_abs cb) =
           (Some (fst (allow_request now cb)), cb_abs (snd (allow_request now cb)))"
  using assms
  by (cases "state_of cb")
    (auto simp: cb_inv_def cb_abs_def allow_request_def state_of_def split: option.splits)

lemma cb_simulation:
  assumes "cb_inv cb" and "unat (failure_count cb) + failures [e] < 2 ^ 32"
  shows "cb_inv (snd (cb_step e cb)) \<and>
         spec_step (unat (failure_threshold cb)) (recovery_timeout cb) e (cb_abs cb) =
           (fst (cb_step e cb), cb_abs (snd (cb_step e cb)))"
proof (cases e)
  case (Allow now)
  with allow_simulation [OF assms(1)] show ?thesis by (simp add: case_prod_unfold)
next
  case Success
  then show ?thesis
    by (simp add: cb_inv_def cb_abs_def record_success_def state_of_def)
next
  case (Failure now)
  with failure_simulation [OF assms(1)] assms(2) show ?thesis by simp
qed

lemma failures_Cons: "failures (e # es) = failures [e] + failures es"
  by (cases e) simp_all

lemma cb_run_simulation:
  assumes "cb_inv cb" and "unat (failure_count cb) + failures es < 2 ^ 32"
  shows "run_steps (spec_step (unat (failure_threshold cb)) (recovery_timeout cb)) es (cb_abs cb) =
         (fst (run_steps cb_step es cb), cb_abs (snd (run_steps cb_step es cb)))"
  using assms
proof (induction es arbitrary: cb)
  case Nil
  then show ?case by simp
next
  case (Cons e es)
  let ?cb = "snd (cb_step e cb)"
  from Cons.prems(2) have "unat (failure_count cb) + failures [e] < 2 ^ 32"
    by (simp add: failures_Cons [of e es])
  note sim = cb_simulation [OF Cons.prems(1) this]
  have "unat (failure_count ?cb) + failures es < 2 ^ 32"
    using Cons.prems(2) unat_count_le [of e cb] by (simp add: failures_Cons [of e es])
  from Cons.IH [OF conjunct1 [OF sim] this] sim show ?case
    by (simp add: run_steps_Cons del: run_steps.simps(2) cb_step.simps)
qed

lemma cb_inv_new [simp]: "cb_inv (breaker_new n t)"
  by (simp add: cb_inv_def breaker_new_def state_of_def)

section \<open>Properties\<close>

text \<open>
  C24: The circuit breaker implements the three-state specification: on any sequence of fewer than
  \<open>2 ^ 32\<close> failures, successes and admission checks, a new breaker gives exactly the answers of
  the abstract breaker that counts consecutive failures up to the threshold, opens at the time of
  the last failure, admits again once the recovery time has passed, and closes on success.
\<close>

theorem breaker_refines_spec:
  assumes "failures es < 2 ^ 32"
  shows "fst (run_steps cb_step es (breaker_new threshold timeout)) =
         fst (run_steps (spec_step (unat threshold) timeout) es (Counting 0))"
proof -
  let ?cb = "breaker_new threshold timeout"
  have "cb_abs ?cb = Counting 0" "unat (failure_count ?cb) + failures es < 2 ^ 32"
    using assms by (simp_all add: breaker_new_def cb_abs_def state_of_def)
  with cb_run_simulation [OF cb_inv_new, of threshold timeout es] show ?thesis
    by (simp add: breaker_new_def)
qed

theorem breaker_refines_spec_witness:
  "fst (run_steps cb_step [Failure 1, Failure 2, Allow 5, Allow 12, Success, Allow 13] (breaker_new 2 10)) =
   fst (run_steps (spec_step (unat (2 :: u32)) 10)
     [Failure 1, Failure 2, Allow 5, Allow 12, Success, Allow 13] (Counting 0))"
  by (rule breaker_refines_spec) simp

lemma consecutive_failures:
  "k + length ts < n \<Longrightarrow>
   snd (run_steps (spec_step n t) (map Failure ts) (Counting k)) = Counting (k + length ts)"
  by (induction ts arbitrary: k) (simp_all add: run_steps_Cons del: run_steps.simps(2))

lemma failures_map_Failure [simp]: "failures (map Failure ts) = length ts"
  by (induction ts) simp_all

text \<open>
  A closed breaker tolerates fewer consecutive failures than its threshold and opens exactly
  with the one that reaches it: from then on every request is refused until the recovery time has
  passed since that failure, and the first request after it is let through as a probe.
\<close>

theorem breaker_opens_at_threshold:
  assumes "Suc (length ts) = unat threshold"
  shows "state_of (snd (run_steps cb_step (map Failure ts) (breaker_new threshold timeout))) = Closed \<and>
         (let cb = snd (run_steps cb_step (map Failure (ts @ [t])) (breaker_new threshold timeout)) in
           state_of cb = Open \<and>
           (\<forall>now. fst (allow_request now cb) = (timeout \<le> elapsed now t)) \<and>
           (\<forall>now. timeout \<le> elapsed now t \<longrightarrow> state_of (snd (allow_request now cb)) = HalfOpen))"
proof -
  let ?cb0 = "breaker_new threshold timeout"
  let ?cb1 = "snd (run_steps cb_step (map Failure ts) ?cb0)"
  have n: "length ts < unat threshold" and lt: "unat threshold < 2 ^ 32"
    using assms unat_u32_less [of threshold] by simp_all
  have start: "cb_abs ?cb0 = Counting 0" "failure_threshold ?cb0 = threshold"
    "recovery_timeout ?cb0 = timeout" "failure_count ?cb0 = 0"
    by (simp_all add: breaker_new_def cb_abs_def state_of_def)
  have abs: "cb_abs (snd (run_steps cb_step es ?cb0)) =
      snd (run_steps (spec_step (unat threshold) timeout) es (Counting 0))"
    if "failures es < 2 ^ 32" for es
    using cb_run_simulation [OF cb_inv_new, of threshold timeout es] start that by simp
  have "cb_abs ?cb1 = Counting (length ts)"
    using abs [of "map Failure ts"] n lt consecutive_failures [of 0 ts "unat threshold" timeout] by simp
  then have c1: "state_of ?cb1 = Closed" and k: "unat (failure_count ?cb1) = length ts"
    by (auto simp: cb_abs_def split: CircuitState.splits)
  have p: "failure_threshold ?cb1 = threshold \<and> recovery_timeout ?cb1 = timeout"
    by (rule run_steps_inv) (simp_all add: start)
  have "unat (failure_count ?cb1 + 1) = unat threshold"
    using k assms lt by (simp add: unat_word_ariths)
  then have "threshold \<le> failure_count ?cb1 + 1" by (simp add: word_le_nat_alt)
  with p have "record_failure t ?cb1 =
      ?cb1\<lparr>failure_count := failure_count ?cb1 + 1, last_failure := Some t, cb_state := 1\<rparr>"
    by (simp add: record_failure_def Let_def)
  with c1 p show ?thesis
    by (auto simp: run_steps_append Let_def state_of_def allow_request_def)
qed

theorem breaker_opens_at_threshold_witness:
  "state_of (snd (run_steps cb_step (map Failure [3, 4]) (breaker_new 3 10))) = Closed \<and>
   (let cb = snd (run_steps cb_step (map Failure ([3, 4] @ [5])) (breaker_new 3 10)) in
     state_of cb = Open \<and>
     (\<forall>now. fst (allow_request now cb) = (10 \<le> elapsed now 5)) \<and>
     (\<forall>now. 10 \<le> elapsed now 5 \<longrightarrow> state_of (snd (allow_request now cb)) = HalfOpen))"
  by (rule breaker_opens_at_threshold) simp

end
