(* ===== verification/Catalog.thy ===== *)
theory Catalog
  imports Jsonrpc
begin

text \<open>
  The tool catalog of \<^verbatim>\<open>src/src/catalog/mod.rs\<close>: which backend owns which tool, and what happens
  when two backends offer the same name. A \<open>Tool\<close> is rmcp's description of a tool; the fields the
  gateway never touches are kept together in \<open>tool_rest\<close>.
\<close>

section \<open>The catalog\<close>

record Tool =
  tool_name :: string
  tool_description :: "string option"
  input_schema :: "(string \<times> json) list"
  tool_rest :: json

record ToolCatalog =
  cat_tools :: "(string, Tool \<times> string) hashmap"

definition catalog_new :: ToolCatalog where
  "catalog_new = \<lparr>cat_tools = []\<rparr>"

definition prefixed_name :: "string \<Rightarrow> string \<Rightarrow> string" where
  "prefixed_name backend_name name = backend_name @ ''__'' @ name"

definition register_tool :: "string \<Rightarrow> Tool \<Rightarrow> ToolCatalog \<Rightarrow> ToolCatalog" where
  "register_tool backend_name tool c =
     (let name = tool_name tool in
      if hm_contains (cat_tools c) name
      then (let prefixed = prefixed_name backend_name name;
                prefixed_tool = tool\<lparr>tool_name := prefixed\<rparr>
            in c\<lparr>cat_tools := hm_insert prefixed (prefixed_tool, backend_name) (cat_tools c)\<rparr>)
      else c\<lparr>cat_tools := hm_insert name (tool, backend_name) (cat_tools c)\<rparr>)"

definition register_backend :: "string \<Rightarrow> Tool list \<Rightarrow> ToolCatalog \<Rightarrow> ToolCatalog" where
  "register_backend backend_name ts c = fold (register_tool backend_name) ts c"

definition all_tools :: "ToolCatalog \<Rightarrow> Tool list" where
  "all_tools c = map fst (hm_values (cat_tools c))"

definition route :: "ToolCatalog \<Rightarrow> string \<Rightarrow> string option" where
  "route c name = map_option snd (hm_get (cat_tools c) name)"

definition tool_count :: "ToolCatalog \<Rightarrow> nat" where
  "tool_count c = hm_len (cat_tools c)"

definition make_tool :: "string \<Rightarrow> string \<Rightarrow> Tool" where
  "make_tool name description =
     \<lparr>tool_name = name, tool_description = Some description,
      input_schema = [(''properties'', JObject []), (''type'', JString ''object'')],
      tool_rest = JNull\<rparr>"

definition create_stub_catalog :: ToolCatalog where
  "create_stub_catalog =
     register_backend ''stub-sqlite''
       [make_tool ''read_query'' ''Execute a read-only SQL query'',
        make_tool ''write_query'' ''Execute a write SQL query'']
       (register_backend ''stub-n8n''
         [make_tool ''list_workflows'' ''List n8n workflows'',
          make_tool ''execute_workflow'' ''Execute an n8n workflow'']
         catalog_new)"

section \<open>The invariant\<close>

text \<open>Keys are unique and each entry is filed under its tool's name.\<close>

definition catalog_inv :: "ToolCatalog \<Rightarrow> bool" where
  "catalog_inv c \<longleftrightarrow>
     hm_wf (cat_tools c) \<and>
     (\<forall>n t b. hm_get (cat_tools c) n = Some (t, b) \<longrightarrow> tool_name t = n)"

lemma catalog_inv_new [simp]: "catalog_inv catalog_new"
  by (simp add: catalog_inv_def catalog_new_def hm_wf_def)

lemma catalog_inv_register_tool: "catalog_inv c \<Longrightarrow> catalog_inv (register_tool b t c)"
  by (auto simp: catalog_inv_def register_tool_def Let_def split: if_splits)

lemma catalog_inv_register_backend: "catalog_inv c \<Longrightarrow> catalog_inv (register_backend b ts c)"
  unfolding register_backend_def
  by (induction ts arbitrary: c) (simp_all add: catalog_inv_register_tool)

lemma catalog_inv_stub [simp]: "catalog_inv create_stub_catalog"
  by (simp add: create_stub_catalog_def catalog_inv_register_backend)

lemma cat_tools_stub:
  "cat_tools create_stub_catalog =
     [(''list_workflows'', make_tool ''list_workflows'' ''List n8n workflows'', ''stub-n8n''),
      (''execute_workflow'', make_tool ''execute_workflow'' ''Execute an n8n workflow'', ''stub-n8n''),
      (''read_query'', make_tool ''read_query'' ''Execute a read-only SQL query'', ''stub-sqlite''),
      (''write_query'', make_tool ''write_query'' ''Execute a write SQL query'', ''stub-sqlite'')]"
  by (simp add: create_stub_catalog_def register_backend_def register_tool_def catalog_new_def
      make_tool_def Let_def)

section \<open>The directory the gateway reads\<close>

text \<open>
  What the request handlers rely on: the tools that are listed are the tools that are routed, each
  under one name.
\<close>

locale tool_directory =
  fixes tools :: "'c \<Rightarrow> Tool list"
    and owner :: "'c \<Rightarrow> string \<Rightarrow> string option"
    and wf :: "'c \<Rightarrow> bool"
  assumes listed_iff_owned: "wf c \<Longrightarrow> n \<in> tool_name ` set (tools c) \<longleftrightarrow> owner c n \<noteq> None"
    and listed_once: "wf c \<Longrightarrow> distinct (map tool_name (tools c))"
begin

lemma listed_filter:
  "wf c \<Longrightarrow> tool_name ` set (filter (\<lambda>t. P (tool_name t)) (tools c)) = {n. owner c n \<noteq> None \<and> P n}"
proof -
  assume "wf c"
  then have "{n. owner c n \<noteq> None \<and> P n} = {n \<in> tool_name ` set (tools c). P n}"
    by (simp add: listed_iff_owned)
  then show ?thesis by auto
qed

lemma listed_filter_once:
  "wf c \<Longrightarrow> distinct (map tool_name (filter P (tools c)))"
  by (simp add: listed_once distinct_map_filter)

end

lemma all_tools_names: "catalog_inv c \<Longrightarrow> map tool_name (all_tools c) = map fst (cat_tools c)"
proof -
  assume inv: "catalog_inv c"
  have "tool_name (fst (snd p)) = fst p" if "p \<in> set (cat_tools c)" for p
    using inv that by (cases p) (auto simp: catalog_inv_def hm_wf_def)
  then show ?thesis by (simp add: all_tools_def)
qed

interpretation dir: tool_directory all_tools route catalog_inv
proof unfold_locales
  fix c n
  assume inv: "catalog_inv c"
  have "tool_name ` set (all_tools c) = set (map tool_name (all_tools c))" by simp
  also have "\<dots> = fst ` set (cat_tools c)" by (simp only: all_tools_names [OF inv] set_map)
  finally have names: "tool_name ` set (all_tools c) = fst ` set (cat_tools c)" .
  then show "n \<in> tool_name ` set (all_tools c) \<longleftrightarrow> route c n \<noteq> None"
    by (simp only: route_def option.map_disc_iff map_of_eq_None_iff not_not)
  show "distinct (map tool_name (all_tools c))"
    using inv by (simp only: all_tools_names [OF inv]) (simp add: catalog_inv_def hm_wf_def)
qed

section \<open>Registration\<close>

lemma route_register_tool:
  "route (register_tool b t c) n =
   (if n = (if route c (tool_name t) = None then tool_name t else prefixed_name b (tool_name t))
    then Some b else route c n)"
  by (auto simp: route_def register_tool_def Let_def)

lemma route_register_backend_source:
  "route (register_backend b ts c) n \<noteq> route c n \<Longrightarrow> route (register_backend b ts c) n = Some b"
  unfolding register_backend_def
proof (induction ts arbitrary: c)
  case Nil
  then show ?case by simp
next
  case (Cons t ts)
  let ?c = "register_tool b t c"
  have "route ?c n = route c n \<or> route ?c n = Some b" by (simp add: route_register_tool)
  with Cons.IH [of ?c] Cons.prems show ?case
    by (cases "route (fold (register_tool b) ts ?c) n = route ?c n") auto
qed

text \<open>
  The name under which a tool is filed. Registration loses nothing if the names a backend offers are
  distinct and no prefixed name that it may need is taken, by another tool of its own or in the catalog.
\<close>

definition filed_name :: "string \<Rightarrow> ToolCatalog \<Rightarrow> Tool \<Rightarrow> string" where
  "filed_name b c t = (if route c (tool_name t) = None then tool_name t else prefixed_name b (tool_name t))"

definition clash_free :: "string \<Rightarrow> Tool list \<Rightarrow> ToolCatalog \<Rightarrow> bool" where
  "clash_free b ts c \<longleftrightarrow>
     distinct (map tool_name ts) \<and>
     (\<forall>t \<in> set ts. route c (prefixed_name b (tool_name t)) = None \<and>
        (\<forall>u \<in> set ts. tool_name u \<noteq> prefixed_name b (tool_name t)))"

lemma prefixed_name_inject: "prefixed_name b m = prefixed_name b n \<longleftrightarrow> m = n"
  by (simp add: prefixed_name_def)

lemma register_tool_filed:
  "cat_tools (register_tool b t c) =
     hm_insert (filed_name b c t) (t\<lparr>tool_name := filed_name b c t\<rparr>, b) (cat_tools c)"
  by (simp add: register_tool_def filed_name_def route_def Let_def)

lemma clash_free_filed:
  assumes "clash_free b (t # ts) c"
  shows "route c (filed_name b c t) = None"
    and "u \<in> set ts \<Longrightarrow> filed_name b (register_tool b t c) u = filed_name b c u"
    and "u \<in> set ts \<Longrightarrow> filed_name b c u \<noteq> filed_name b c t"
    and "clash_free b ts (register_tool b t c)"
proof -
  have "tool_name t \<notin> set (map tool_name ts)" using assms by (simp add: clash_free_def)
  then have names: "tool_name u \<noteq> tool_name t" if "u \<in> set ts" for u
    using that by (metis image_eqI list.set_map)
  have other: "tool_name u \<noteq> tool_name t" "tool_name u \<noteq> prefixed_name b (tool_name t)"
    "tool_name t \<noteq> prefixed_name b (tool_name u)" "prefixed_name b (tool_name u) \<noteq> prefixed_name b (tool_name t)"
    if "u \<in> set ts" for u
    using assms that names [OF that] by (simp_all add: clash_free_def prefixed_name_inject)
  then have free: "tool_name u \<noteq> filed_name b c t" "prefixed_name b (tool_name u) \<noteq> filed_name b c t"
    if "u \<in> set ts" for u
    using that by (auto simp: filed_name_def) metis
  have routes: "route (register_tool b t c) n = (if n = filed_name b c t then Some b else route c n)" for n
    by (simp add: route_def register_tool_filed)
  show "route c (filed_name b c t) = None" using assms by (simp add: filed_name_def clash_free_def)
  show "filed_name b (register_tool b t c) u = filed_name b c u" if "u \<in> set ts"
    using free [OF that] by (simp add: filed_name_def [of b _ u] routes)
  show "filed_name b c u \<noteq> filed_name b c t" if "u \<in> set ts"
    using free [OF that] by (simp add: filed_name_def [of b c u])
  show "clash_free b ts (register_tool b t c)"
    using assms free by (simp add: clash_free_def routes)
qed

lemma register_backend_filed:
  assumes "catalog_inv c" and "clash_free b ts c"
  shows "tool_count (register_backend b ts c) = tool_count c + length ts \<and>
     (\<forall>t \<in> set ts. hm_get (cat_tools (register_backend b ts c)) (filed_name b c t) =
        Some (t\<lparr>tool_name := filed_name b c t\<rparr>, b)) \<and>
     (\<forall>n. n \<notin> filed_name b c ` set ts \<longrightarrow>
        hm_get (cat_tools (register_backend b ts c)) n = hm_get (cat_tools c) n)"
  using assms unfolding register_backend_def
proof (induction ts arbitrary: c)
  case (Cons t ts)
  let ?c = "register_tool b t c"
  let ?d = "fold (register_tool b) ts ?c"
  note free = clash_free_filed [OF Cons.prems(2)]
  have names: "filed_name b ?c ` set ts = filed_name b c ` set ts" using free(2) by simp
  have "tool_count ?c = Suc (tool_count c)"
    using Cons.prems(1) free(1) by (simp add: tool_count_def register_tool_filed catalog_inv_def hm.len_insert route_def)
  moreover have "hm_get (cat_tools ?c) (filed_name b c t) = Some (t\<lparr>tool_name := filed_name b c t\<rparr>, b)"
    by (simp add: register_tool_filed)
  moreover have "filed_name b c t \<notin> filed_name b c ` set ts" using free(3) by (metis imageE)
  moreover note Cons.IH [OF catalog_inv_register_tool [OF Cons.prems(1)] free(4), unfolded names]
  ultimately show ?case
    using free(2) by (auto simp: register_tool_filed)
qed simp

lemma tool_count_register_tool_fresh:
  "catalog_inv c \<Longrightarrow> route c (tool_name t) = None \<Longrightarrow> tool_count (register_tool b t c) = Suc (tool_count c)"
  by (simp add: tool_count_def register_tool_def Let_def route_def catalog_inv_def hm.len_insert)

lemma still_free:
  assumes "list_all (\<lambda>t. route c (tool_name t) = None) (t # ts)" and "distinct (map tool_name (t # ts))"
  shows "list_all (\<lambda>u. route (register_tool b t c) (tool_name u) = None) ts"
proof -
  have "tool_name u \<noteq> tool_name t" if "u \<in> set ts" for u
    using assms(2) that by (auto simp: image_iff)
  with assms(1) show ?thesis by (simp add: list_all_iff route_register_tool)
qed

lemma register_free_frame:
  assumes "n \<notin> tool_name ` set ts" and "distinct (map tool_name ts)"
    and "list_all (\<lambda>t. route c (tool_name t) = None) ts"
  shows "hm_get (cat_tools (fold (register_tool b) ts c)) n = hm_get (cat_tools c) n"
  using assms
proof (induction ts arbitrary: c)
  case (Cons t ts)
  from still_free [OF Cons.prems(3,2)] Cons.prems
  have "hm_get (cat_tools (fold (register_tool b) ts (register_tool b t c))) n =
      hm_get (cat_tools (register_tool b t c)) n"
    by (intro Cons.IH) simp_all
  moreover have "hm_get (cat_tools (register_tool b t c)) n = hm_get (cat_tools c) n"
    using Cons.prems by (simp add: register_tool_def route_def Let_def)
  ultimately show ?case by simp
qed simp

lemma register_backend_fresh:
  assumes "catalog_inv c" and "distinct (map tool_name ts)"
    and "list_all (\<lambda>t. route c (tool_name t) = None) ts"
  shows "tool_count (register_backend b ts c) = tool_count c + length ts \<and>
         (\<forall>t \<in> set ts. hm_get (cat_tools (register_backend b ts c)) (tool_name t) = Some (t, b))"
  using assms unfolding register_backend_def
proof (induction ts arbitrary: c)
  case Nil
  then show ?case by simp
next
  case (Cons t ts)
  let ?c = "register_tool b t c"
  from Cons.prems have inv: "catalog_inv ?c" and n: "route c (tool_name t) = None"
    by (simp_all add: catalog_inv_register_tool)
  have free: "list_all (\<lambda>u. route ?c (tool_name u) = None) ts"
    by (rule still_free [OF Cons.prems(3,2)])
  have "hm_get (cat_tools ?c) (tool_name t) = Some (t, b)"
    using n by (simp add: register_tool_def route_def Let_def)
  then have "hm_get (cat_tools (fold (register_tool b) ts ?c)) (tool_name t) = Some (t, b)"
    using register_free_frame [OF _ _ free, of "tool_name t" b] Cons.prems by simp
  with Cons.IH [OF inv _ free] Cons.prems tool_count_register_tool_fresh [OF Cons.prems(1) n, of b]
  show ?case by simp
qed

section \<open>Properties\<close>

text \<open>
  C38: Registering a backend files each of its tools, unchanged but for the name, and routes it to the
  backend: under its own name if that is free, and under \<open>backend__name\<close> otherwise. The catalog grows by
  exactly the number of tools, every entry it had stays as it was, and it stays well formed. This
  holds for a backend whose tool names are distinct when no prefixed name it may need is taken; a prefixed name
  that is taken is overwritten, as \<open>prefixed_collision_drops_tool\<close> shows.
\<close>

theorem register_backend_routes:
  assumes "catalog_inv c" and "distinct (map tool_name ts)"
    and "\<forall>t \<in> set ts. route c (prefixed_name b (tool_name t)) = None"
    and "\<forall>t \<in> set ts. \<forall>u \<in> set ts. tool_name u \<noteq> prefixed_name b (tool_name t)"
  shows "let d = register_backend b ts c in
     catalog_inv d \<and> tool_count d = tool_count c + length ts \<and>
     (\<forall>t \<in> set ts.
        if route c (tool_name t) = None then hm_get (cat_tools d) (tool_name t) = Some (t, b)
        else hm_get (cat_tools d) (prefixed_name b (tool_name t)) =
          Some (t\<lparr>tool_name := prefixed_name b (tool_name t)\<rparr>, b)) \<and>
     (\<forall>n. route c n \<noteq> None \<longrightarrow> hm_get (cat_tools d) n = hm_get (cat_tools c) n)"
proof -
  have cf: "clash_free b ts c" using assms(2-4) by (simp add: clash_free_def)
  note filed = register_backend_filed [OF assms(1) cf]
  have "route c (filed_name b c t) = None" if "t \<in> set ts" for t
    using assms(3) that by (simp add: filed_name_def)
  then have "n \<notin> filed_name b c ` set ts" if "route c n \<noteq> None" for n
    using that by auto
  moreover have "t\<lparr>tool_name := tool_name t\<rparr> = t" for t :: Tool by simp
  ultimately show ?thesis
    using filed assms(1) by (fastforce simp: Let_def catalog_inv_register_backend filed_name_def)
qed

theorem register_backend_routes_witness:
  "let d = register_backend ''b'' [make_tool ''read_query'' ''x'', make_tool ''new'' ''y''] create_stub_catalog in
   tool_count d = 6 \<and> hm_get (cat_tools d) ''new'' = Some (make_tool ''new'' ''y'', ''b'') \<and>
   hm_get (cat_tools d) ''b__read_query'' = Some ((make_tool ''read_query'' ''x'')\<lparr>tool_name := ''b__read_query''\<rparr>, ''b'') \<and>
   hm_get (cat_tools d) ''read_query'' = hm_get (cat_tools create_stub_catalog) ''read_query''"
proof -
  let ?ts = "[make_tool ''read_query'' ''x'', make_tool ''new'' ''y'']"
  have n: "tool_name (make_tool a d) = a" for a d by (simp add: make_tool_def)
  have stub: "route create_stub_catalog ''b__read_query'' = None" "route create_stub_catalog ''b__new'' = None"
    "route create_stub_catalog ''read_query'' \<noteq> None" "route create_stub_catalog ''new'' = None"
    "tool_count create_stub_catalog = 4"
    by (simp_all add: route_def cat_tools_stub tool_count_def)
  show ?thesis
    using register_backend_routes [OF catalog_inv_stub, of ?ts "''b''"] stub
    by (simp add: Let_def n prefixed_name_def)
qed

text \<open>
  A backend whose tool names are distinct and not yet taken is registered in full: each tool is
  stored unchanged under its own name, and the catalog grows by exactly their number.
\<close>

theorem register_backend_complete:
  assumes "catalog_inv c" and "distinct (map tool_name ts)"
    and "list_all (\<lambda>t. route c (tool_name t) = None) ts"
  shows "tool_count (register_backend b ts c) = tool_count c + length ts \<and>
         (\<forall>t \<in> set ts. hm_get (cat_tools (register_backend b ts c)) (tool_name t) = Some (t, b))"
  using assms by (rule register_backend_fresh)

theorem register_backend_complete_witness:
  "let ts = [make_tool ''p'' ''x'', make_tool ''q'' ''y''];
       d = register_backend ''b'' ts catalog_new
   in tool_count d = 2 \<and>
      hm_get (cat_tools d) ''p'' = Some (make_tool ''p'' ''x'', ''b'') \<and>
      hm_get (cat_tools d) ''q'' = Some (make_tool ''q'' ''y'', ''b'')"
proof -
  let ?ts = "[make_tool ''p'' ''x'', make_tool ''q'' ''y'']"
  have n: "tool_name (make_tool a d) = a" for a d by (simp add: make_tool_def)
  have "tool_count catalog_new = 0" by (simp add: tool_count_def catalog_new_def)
  then show ?thesis
    using register_backend_complete [OF catalog_inv_new, of ?ts "''b''"]
    by (simp add: n Let_def route_def catalog_new_def)
qed

text \<open>
  The prefix is not checked for a collision of its own: a backend \<open>b\<close> that offers \<open>b__x\<close> and
  then \<open>x\<close>, where \<open>x\<close> is taken, has its first tool silently replaced by the second; the catalog
  then holds one tool of the two.
\<close>

theorem prefixed_collision_drops_tool:
  "let c = register_backend ''a'' [make_tool ''x'' ''first''] catalog_new;
       d = register_backend ''b'' [make_tool ''b__x'' ''second'', make_tool ''x'' ''third''] c
   in tool_count c = 1 \<and> tool_count d = 2 \<and>
      map (\<lambda>t. (tool_name t, tool_description t)) (all_tools d) =
        [(''x'', Some ''first''), (''b__x'', Some ''third'')]"
  by (simp add: Let_def register_backend_def register_tool_def catalog_new_def make_tool_def
      tool_count_def all_tools_def prefixed_name_def)

end
