(* ===== verification/Validation.thy ===== *)
theory Validation
  imports Catalog
begin

text \<open>
  The JSON-schema cache of \<^verbatim>\<open>src/src/validation/mod.rs\<close>. Compiling a schema and listing the errors
  of an instance are jsonschema's: \<open>compile\<close> and \<open>iter_errors\<close> are arguments, over an unknown type
  of compiled validators; an error comes with its display text and its instance path.
\<close>

section \<open>The cache\<close>

record 'v SchemaCache =
  validators :: "(string, 'v) hashmap"

definition cache_tool :: "(json \<Rightarrow> string + 'v) \<Rightarrow> Tool \<Rightarrow> (string, 'v) hashmap \<Rightarrow> (string, 'v) hashmap"
  where
  "cache_tool compile tool m =
     (case compile (JObject (input_schema tool)) of
        Inr validator \<Rightarrow> hm_insert (tool_name tool) validator m
      | Inl _ \<Rightarrow> m)"

definition from_catalog :: "(json \<Rightarrow> string + 'v) \<Rightarrow> ToolCatalog \<Rightarrow> 'v SchemaCache" where
  "from_catalog compile c = \<lparr>validators = fold (cache_tool compile) (all_tools c) []\<rparr>"

definition schema_validate ::
  "('v \<Rightarrow> json \<Rightarrow> (string \<times> string) list) \<Rightarrow> 'v SchemaCache \<Rightarrow> string \<Rightarrow> json \<Rightarrow> string list + unit"
  where
  "schema_validate iter_errors cache name arguments =
     (case hm_get (validators cache) name of
        None \<Rightarrow> Inr ()
      | Some v \<Rightarrow>
          (let errors = map (\<lambda>(e, path). e @ '' at '' @ path) (iter_errors v arguments) in
           if errors = [] then Inr () else Inl errors))"

section \<open>What the cache holds\<close>

lemma cache_tools_frame:
  "n \<notin> tool_name ` set ts \<Longrightarrow> hm_get (fold (cache_tool compile) ts m) n = hm_get m n"
  by (induction ts arbitrary: m) (auto simp: cache_tool_def split: sum.splits)

lemma cache_tools_get:
  assumes "distinct (map tool_name ts)" and "t \<in> set ts" and "hm_get m (tool_name t) = None"
  shows "hm_get (fold (cache_tool compile) ts m) (tool_name t) =
         (case compile (JObject (input_schema t)) of Inl _ \<Rightarrow> None | Inr v \<Rightarrow> Some v)"
  using assms
proof (induction ts arbitrary: m)
  case Nil
  then show ?case by simp
next
  case (Cons u us)
  show ?case
  proof (cases "t = u")
    case True
    with Cons.prems have "hm_get (fold (cache_tool compile) (u # us) m) (tool_name t) =
        hm_get (cache_tool compile t m) (tool_name t)"
      by (simp add: cache_tools_frame)
    also have "\<dots> = (case compile (JObject (input_schema t)) of Inl _ \<Rightarrow> None | Inr v \<Rightarrow> Some v)"
      using Cons.prems(3) by (simp add: cache_tool_def split: sum.splits)
    finally show ?thesis .
  next
    case False
    with Cons.prems(2) have "tool_name t \<in> tool_name ` set us" by simp
    with Cons.prems(1) have "tool_name t \<noteq> tool_name u" by auto
    with Cons.prems False have "hm_get (cache_tool compile u m) (tool_name t) = None"
      by (auto simp: cache_tool_def split: sum.splits)
    with Cons False show ?thesis by simp
  qed
qed

text \<open>A sample schema library, for the witnesses: null is not an object, all else is fine.\<close>

definition demo_compile :: "json \<Rightarrow> string + json" where
  "demo_compile schema = Inr schema"

definition demo_errors :: "json \<Rightarrow> json \<Rightarrow> (string \<times> string) list" where
  "demo_errors schema args =
     (if args = JNull then [(''null is not of type object'', '''')] else [])"

section \<open>Properties\<close>

text \<open>
  C37: The schema cache rejects exactly what it should: for a tool of a well-formed catalog, arguments
  are refused if and only if the tool's input schema compiles and its validator reports an error for
  them, and the refusal carries one message per reported error; a tool that is not in the catalog
  refuses nothing.
\<close>

theorem schema_validate_catalog:
  assumes "catalog_inv c"
  shows "(\<forall>t \<in> set (all_tools c). \<forall>args.
            schema_validate iter_errors (from_catalog compile c) (tool_name t) args =
            (case compile (JObject (input_schema t)) of
               Inl _ \<Rightarrow> Inr ()
             | Inr v \<Rightarrow>
                 if iter_errors v args = [] then Inr ()
                 else Inl (map (\<lambda>(e, path). e @ '' at '' @ path) (iter_errors v args)))) \<and>
         (\<forall>n args. route c n = None \<longrightarrow>
            schema_validate iter_errors (from_catalog compile c) n args = Inr ())"
proof (intro conjI ballI allI impI)
  fix t args
  assume t: "t \<in> set (all_tools c)"
  from cache_tools_get [OF dir.listed_once [OF assms] t, of "[]" compile]
  show "schema_validate iter_errors (from_catalog compile c) (tool_name t) args =
      (case compile (JObject (input_schema t)) of
         Inl _ \<Rightarrow> Inr ()
       | Inr v \<Rightarrow>
           if iter_errors v args = [] then Inr ()
           else Inl (map (\<lambda>(e, path). e @ '' at '' @ path) (iter_errors v args)))"
    by (simp add: schema_validate_def from_catalog_def split: sum.splits)
next
  fix n args
  assume "route c n = None"
  then have "n \<notin> tool_name ` set (all_tools c)"
    using dir.listed_iff_owned [OF assms] by blast
  then show "schema_validate iter_errors (from_catalog compile c) n args = Inr ()"
    by (simp add: schema_validate_def from_catalog_def cache_tools_frame)
qed

theorem schema_validate_catalog_witness:
  "schema_validate demo_errors (from_catalog demo_compile create_stub_catalog) ''read_query'' JNull =
     Inl [''null is not of type object at ''] \<and>
   schema_validate demo_errors (from_catalog demo_compile create_stub_catalog) ''read_query'' (JObject []) =
     Inr () \<and>
   schema_validate demo_errors (from_catalog demo_compile create_stub_catalog) ''drop_table'' JNull = Inr ()"
proof -
  let ?t = "make_tool ''read_query'' ''Execute a read-only SQL query''"
  have t: "?t \<in> set (all_tools create_stub_catalog)" "tool_name ?t = ''read_query''"
    and n: "route create_stub_catalog ''drop_table'' = None"
    by (simp_all add: all_tools_def route_def cat_tools_stub make_tool_def)
  note valid = schema_validate_catalog [OF catalog_inv_stub, of demo_errors demo_compile]
  show ?thesis
    using bspec [OF conjunct1 [OF valid] t(1)] conjunct2 [OF valid] n t(2)
    by (simp add: demo_compile_def demo_errors_def)
qed

end
