(* ===== verification/Metrics.thy ===== *)
theory Metrics
  imports Rust_Str
begin

text \<open>
  The Prometheus metrics of \<^verbatim>\<open>src/src/metrics/mod.rs\<close>. The counters, histograms and gauges live in
  the prometheus crate; the model records the calls made on them, in order, as \<open>metric_op\<close>s, and
  \<open>metric_families\<close> is what \<^verbatim>\<open>Metrics::new\<close> registers. A call of \<^verbatim>\<open>with_label_values\<close> with the
  wrong number of labels panics, so \<open>labelled\<close> is the safety condition of an operation.
\<close>

section \<open>Families and operations\<close>

datatype metric_kind = CounterVec | HistogramVec | GaugeVec

record metric_family =
  mf_kind :: metric_kind
  mf_name :: string
  mf_help :: string
  mf_labels :: "string list"

definition metric_families :: "metric_family list" where
  "metric_families =
     [\<lparr>mf_kind = CounterVec, mf_name = ''sentinel_requests_total'',
       mf_help = ''Total MCP requests'', mf_labels = [''tool'', ''status'']\<rparr>,
      \<lparr>mf_kind = HistogramVec, mf_name = ''sentinel_request_duration_seconds'',
       mf_help = ''Request latency in seconds'', mf_labels = [''tool'']\<rparr>,
      \<lparr>mf_kind = CounterVec, mf_name = ''sentinel_errors_total'',
       mf_help = ''Total errors by type'', mf_labels = [''tool'', ''error_type'']\<rparr>,
      \<lparr>mf_kind = GaugeVec, mf_name = ''sentinel_backend_healthy'',
       mf_help = ''Backend health status'', mf_labels = [''backend'']\<rparr>,
      \<lparr>mf_kind = CounterVec, mf_name = ''sentinel_rate_limit_hits_total'',
       mf_help = ''Total rate limit hits'', mf_labels = [''tool'']\<rparr>]"

datatype metric_op =
    Inc string "string list"
  | Observe string "string list" nanos
  | GaugeSet string "string list" bool

text \<open>Durations are observed in nanoseconds; a gauge is set to 1.0 (\<open>True\<close>) or 0.0 (\<open>False\<close>).\<close>

definition record_request :: "string \<Rightarrow> string \<Rightarrow> nanos \<Rightarrow> metric_op list" where
  "record_request tool status duration =
     [Inc ''sentinel_requests_total'' [tool, status],
      Observe ''sentinel_request_duration_seconds'' [tool] duration] @
     (if status \<noteq> ''success'' then [Inc ''sentinel_errors_total'' [tool, status]] else [])"

definition record_rate_limit_hit :: "string \<Rightarrow> metric_op list" where
  "record_rate_limit_hit tool = [Inc ''sentinel_rate_limit_hits_total'' [tool]]"

definition set_backend_health :: "string \<Rightarrow> bool \<Rightarrow> metric_op list" where
  "set_backend_health backend healthy = [GaugeSet ''sentinel_backend_healthy'' [backend] healthy]"

text \<open>\<open>encode\<close> is the registry and text encoder of the crate, which may fail.\<close>

definition gather_text :: "(metric_op list \<Rightarrow> string option) \<Rightarrow> metric_op list \<Rightarrow> string" where
  "gather_text encode ops = (case encode ops of None \<Rightarrow> '''' | Some t \<Rightarrow> t)"

section \<open>Readings\<close>

fun labelled :: "metric_op \<Rightarrow> bool" where
  "labelled (Inc n ls) = (\<exists>f \<in> set metric_families. mf_name f = n \<and> mf_kind f = CounterVec \<and>
     length ls = length (mf_labels f))"
| "labelled (Observe n ls d) = (\<exists>f \<in> set metric_families. mf_name f = n \<and> mf_kind f = HistogramVec \<and>
     length ls = length (mf_labels f))"
| "labelled (GaugeSet n ls v) = (\<exists>f \<in> set metric_families. mf_name f = n \<and> mf_kind f = GaugeVec \<and>
     length ls = length (mf_labels f))"

definition counter_value :: "string \<Rightarrow> string list \<Rightarrow> metric_op list \<Rightarrow> nat" where
  "counter_value n ls ops = count_list ops (Inc n ls)"

fun gauge_value :: "string \<Rightarrow> string list \<Rightarrow> metric_op list \<Rightarrow> bool option" where
  "gauge_value n ls [] = None"
| "gauge_value n ls (op # ops) =
     (case gauge_value n ls ops of
        Some v \<Rightarrow> Some v
      | None \<Rightarrow> (if \<exists>v. op = GaugeSet n ls v then (case op of GaugeSet _ _ v \<Rightarrow> Some v | _ \<Rightarrow> None) else None))"

lemma record_labelled:
  "list_all labelled (record_request tool status d)"
  "list_all labelled (record_rate_limit_hit tool)"
  "list_all labelled (set_backend_health b h)"
  by (simp_all add: record_request_def record_rate_limit_hit_def set_backend_health_def
      metric_families_def)

lemma counter_value_append [simp]:
  "counter_value n ls (xs @ ys) = counter_value n ls xs + counter_value n ls ys"
  by (simp add: counter_value_def)

lemma counter_value_record:
  "counter_value ''sentinel_requests_total'' [t, s] (record_request tool status d) =
     (if tool = t \<and> status = s then 1 else 0)"
  "counter_value ''sentinel_errors_total'' [t, s] (record_request tool status d) =
     (if tool = t \<and> status = s \<and> s \<noteq> ''success'' then 1 else 0)"
  by (auto simp: counter_value_def record_request_def)

section \<open>Properties\<close>

text \<open>
  The metrics never disagree and never panic: over any sequence of recorded requests, each call
  on a metric has the labels its family was registered with, the request counter of a tool and
  status counts those requests, and the error counter equals it for every status but success.
\<close>

theorem metrics_agree:
  "let ops = concat (map (\<lambda>(t, s, d). record_request t s d) rs) in
   list_all labelled ops \<and>
   counter_value ''sentinel_requests_total'' [tool, status] ops =
     length (filter (\<lambda>(t, s, d). t = tool \<and> s = status) rs) \<and>
   counter_value ''sentinel_errors_total'' [tool, status] ops =
     (if status = ''success'' then 0
      else counter_value ''sentinel_requests_total'' [tool, status] ops)"
  unfolding Let_def
proof (induction rs)
  case Nil
  then show ?case by (simp add: counter_value_def)
next
  case (Cons r rs)
  obtain t s d where "r = (t, s, d)" by (cases r) auto
  with Cons show ?case
    using record_labelled(1) [of t s d] by (auto simp: counter_value_record)
qed

end
