(* ===== verification/Audit_Log.thy ===== *)
theory Audit_Log
  imports Jsonrpc
begin

text \<open>
  The audit trail of \<^verbatim>\<open>src/src/audit/\<close>: the entry, the row it is written to, and the writer task
  that drains the channel. The database is a parameter: \<open>execute\<close> takes a row and the database and
  answers with the new database or an error, which the writer only logs.
\<close>

section \<open>Entries and rows\<close>

record AuditEntry =
  ae_request_id :: string
  ae_timestamp :: nat
  ae_client_subject :: string
  ae_client_role :: string
  ae_tool_name :: string
  ae_backend_name :: string
  ae_request_args :: "json option"
  ae_response_status :: string
  ae_error_message :: "string option"
  ae_latency_ms :: i64

datatype sql_value =
    SqlUuid string
  | SqlTimestamp nat
  | SqlText string
  | SqlJson "json option"
  | SqlOptText "string option"
  | SqlBigint i64

definition audit_columns :: "string list" where
  "audit_columns = [''request_id'', ''timestamp'', ''client_subject'', ''client_role'', ''tool_name'',
     ''backend_name'', ''request_args'', ''response_status'', ''error_message'', ''latency_ms'']"

definition bind_entry :: "AuditEntry \<Rightarrow> sql_value list" where
  "bind_entry e =
     [SqlUuid (ae_request_id e), SqlTimestamp (ae_timestamp e), SqlText (ae_client_subject e),
      SqlText (ae_client_role e), SqlText (ae_tool_name e), SqlText (ae_backend_name e),
      SqlJson (ae_request_args e), SqlText (ae_response_status e), SqlOptText (ae_error_message e),
      SqlBigint (ae_latency_ms e)]"

definition insert_audit_entry ::
  "((string \<times> sql_value) list \<Rightarrow> 'db \<Rightarrow> string + 'db) \<Rightarrow> AuditEntry \<Rightarrow> 'db \<Rightarrow> string + 'db" where
  "insert_audit_entry execute e db = execute (zip audit_columns (bind_entry e)) db"

section \<open>The writer\<close>

text \<open>
  \<open>received\<close> are the entries \<^verbatim>\<open>recv\<close> returns until the channel is closed and empty, \<open>drained\<close> those
  that \<^verbatim>\<open>try_recv\<close> still finds.
\<close>

definition write_entry ::
  "((string \<times> sql_value) list \<Rightarrow> 'db \<Rightarrow> string + 'db) \<Rightarrow> AuditEntry \<Rightarrow> 'db \<Rightarrow> 'db" where
  "write_entry execute e db =
     (case insert_audit_entry execute e db of Inl _ \<Rightarrow> db | Inr db' \<Rightarrow> db')"

definition audit_writer ::
  "((string \<times> sql_value) list \<Rightarrow> 'db \<Rightarrow> string + 'db) \<Rightarrow> AuditEntry list \<Rightarrow> AuditEntry list \<Rightarrow>
   'db \<Rightarrow> 'db" where
  "audit_writer execute received drained db =
     fold (write_entry execute) drained (fold (write_entry execute) received db)"

text \<open>A database that appends each row and fails for some rows.\<close>

definition log_db :: "((string \<times> sql_value) list \<Rightarrow> bool) \<Rightarrow> (string \<times> sql_value) list \<Rightarrow>
    (string \<times> sql_value) list list \<Rightarrow> string + (string \<times> sql_value) list list" where
  "log_db fails row db = (if fails row then Inl ''insert failed'' else Inr (db @ [row]))"

lemma bind_entry_inject: "bind_entry e = bind_entry e' \<longleftrightarrow> e = (e' :: AuditEntry)"
  by (cases e; cases e') (auto simp: bind_entry_def)

lemma length_audit_columns: "length audit_columns = length (bind_entry e)"
  by (simp add: audit_columns_def bind_entry_def)

lemma fold_write_log_db:
  "fold (write_entry (log_db fails)) es db =
   db @ filter (\<lambda>row. \<not> fails row) (map (\<lambda>e. zip audit_columns (bind_entry e)) es)"
  by (induction es arbitrary: db) (simp_all add: write_entry_def insert_audit_entry_def log_db_def)

section \<open>Properties\<close>

text \<open>
  The audit writer loses nothing of its own accord: on a database that appends rows, it writes one
  row per entry it received or drained, in that order, except for the rows whose insert fails, which
  do not stop it; and distinct entries give distinct rows.
\<close>

theorem audit_writer_complete:
  "audit_writer (log_db fails) received drained db =
     db @ filter (\<lambda>row. \<not> fails row)
       (map (\<lambda>e. zip audit_columns (bind_entry e)) (received @ drained)) \<and>
   inj (\<lambda>e :: AuditEntry. zip audit_columns (bind_entry e))"
proof
  show "audit_writer (log_db fails) received drained db =
     db @ filter (\<lambda>row. \<not> fails row)
       (map (\<lambda>e. zip audit_columns (bind_entry e)) (received @ drained))"
    by (simp add: audit_writer_def fold_write_log_db)
  show "inj (\<lambda>e :: AuditEntry. zip audit_columns (bind_entry e))"
  proof (rule injI)
    fix e e' :: AuditEntry
    assume "zip audit_columns (bind_entry e) = zip audit_columns (bind_entry e')"
    then have "map snd (zip audit_columns (bind_entry e)) = map snd (zip audit_columns (bind_entry e'))"
      by simp
    then show "e = e'" by (simp add: length_audit_columns bind_entry_inject)
  qed
qed

end
