(* ===== verification/Backend_Http.thy ===== *)
theory Backend_Http
  imports Config Catalog
begin

text \<open>
  The HTTP side of \<^verbatim>\<open>src/src/backend/\<close>: the error type (\<^verbatim>\<open>error.rs\<close>), the retry loop (\<^verbatim>\<open>retry.rs\<close>),
  the event-stream parser (\<^verbatim>\<open>sse.rs\<close>), the HTTP backend and its tool discovery (\<^verbatim>\<open>http.rs\<close>).

  The HTTP client is reqwest's. A \<open>network\<close> is what the outside world answers to the request of
  each attempt: a reqwest error, or a reply with its status, content type, text and chunks. The
  random number generator is the argument \<open>random_range\<close>, indexed by the attempt, and
  \<open>random_range_ok\<close> is its documented range.
\<close>

section \<open>Errors\<close>

record reqwest_error =
  is_timeout :: bool
  is_connect :: bool
  rq_text :: string

datatype BackendError =
    Request reqwest_error
  | HttpStatus u16 string
  | Stream reqwest_error
  | NoDataInSse
  | InvalidResponse string
  | ProcessExited string
  | StdinClosed

definition is_retryable :: "BackendError \<Rightarrow> bool" where
  "is_retryable err =
     (case err of
        Request e \<Rightarrow> is_timeout e \<or> is_connect e
      | HttpStatus code _ \<Rightarrow> 500 \<le> code
      | Stream _ \<Rightarrow> True
      | NoDataInSse \<Rightarrow> False
      | InvalidResponse _ \<Rightarrow> False
      | ProcessExited _ \<Rightarrow> False
      | StdinClosed \<Rightarrow> False)"

definition backend_error_display :: "BackendError \<Rightarrow> string" where
  "backend_error_display err =
     (case err of
        Request e \<Rightarrow> ''request error: '' @ rq_text e
      | HttpStatus code body \<Rightarrow> ''HTTP '' @ show_nat (unat code) @ '': '' @ body
      | Stream e \<Rightarrow> ''stream error: '' @ rq_text e
      | NoDataInSse \<Rightarrow> ''no data line found in SSE response''
      | InvalidResponse m \<Rightarrow> ''invalid response: '' @ m
      | ProcessExited m \<Rightarrow> ''child process exited: '' @ m
      | StdinClosed \<Rightarrow> ''stdin channel to child process is closed'')"

definition error_source :: "BackendError \<Rightarrow> reqwest_error option" where
  "error_source err =
     (case err of Request e \<Rightarrow> Some e | Stream e \<Rightarrow> Some e | _ \<Rightarrow> None)"

section \<open>Retry with backoff\<close>

text \<open>
  \<^verbatim>\<open>1u64 << attempt\<close> in a build without overflow checks uses the low six bits of the amount, and
  \<^verbatim>\<open>base_ms + jitter_ms\<close> wraps.
\<close>

definition base_ms :: "u32 \<Rightarrow> u64" where
  "base_ms attempt = saturating_mul_u64 100 (push_bit (unat attempt mod 64) 1)"

definition retry_delay_ms :: "(u32 \<Rightarrow> u64 \<Rightarrow> u64) \<Rightarrow> u32 \<Rightarrow> u64" where
  "retry_delay_ms random_range attempt =
     (let base = base_ms attempt;
          jitter = (if 1 < base then random_range attempt (base div 2) else 0)
      in base + jitter)"

text \<open>\<open>operation\<close> is indexed by the attempt; the delays slept are returned with the result.\<close>

function retry_from ::
  "(u32 \<Rightarrow> u64 \<Rightarrow> u64) \<Rightarrow> u32 \<Rightarrow> (u32 \<Rightarrow> BackendError + 'a) \<Rightarrow> u32 \<Rightarrow> (BackendError + 'a) \<times> u64 list"
  where
  "retry_from random_range max_retries operation attempt =
     (case operation attempt of
        Inr v \<Rightarrow> (Inr v, [])
      | Inl e \<Rightarrow>
          if \<not> is_retryable e \<or> max_retries \<le> attempt then (Inl e, [])
          else
            (case retry_from random_range max_retries operation (attempt + 1) of
               (r, ds) \<Rightarrow> (r, retry_delay_ms random_range attempt # ds)))"
  by pat_completeness auto
termination
  by (relation "measure (\<lambda>(_, m, _, a). unat m - unat a)")
    (auto simp: not_le unat_Suc_less word_less_nat_alt)

declare retry_from.simps [simp del]

definition retry_with_backoff ::
  "(u32 \<Rightarrow> u64 \<Rightarrow> u64) \<Rightarrow> u32 \<Rightarrow> (u32 \<Rightarrow> BackendError + 'a) \<Rightarrow> (BackendError + 'a) \<times> u64 list" where
  "retry_with_backoff random_range max_retries operation =
     retry_from random_range max_retries operation 0"

definition random_range_ok :: "(u32 \<Rightarrow> u64 \<Rightarrow> u64) \<Rightarrow> bool" where
  "random_range_ok random_range \<longleftrightarrow> (\<forall>a n. 0 < n \<longrightarrow> random_range a n < n)"

section \<open>Event streams\<close>

fun first_data :: "string list \<Rightarrow> string option" where
  "first_data [] = None"
| "first_data (line # ls) =
     (case strip_prefix ''data:'' line of
        None \<Rightarrow> first_data ls
      | Some rest \<Rightarrow> if trim rest \<noteq> [] then Some (trim rest) else first_data ls)"

definition parse_sse_data :: "string \<Rightarrow> string option" where
  "parse_sse_data raw = first_data (lines raw)"

section \<open>The HTTP backend\<close>

record HttpBackend =
  hb_url :: string
  hb_timeout :: nanos
  hb_max_retries :: u32
  hb_auth_secret :: "string option"

record http_request =
  hr_url :: string
  hr_headers :: "(string \<times> string) list"
  hr_timeout :: nanos
  hr_body :: string

record http_reply =
  reply_status :: u16
  reply_content_type :: "string option"
  reply_text :: "reqwest_error + string"
  reply_chunks :: "(reqwest_error + string) list"

type_synonym network = "u32 \<Rightarrow> http_request \<Rightarrow> reqwest_error + http_reply"

definition http_backend_new :: "BackendConfig \<Rightarrow> string option \<Rightarrow> HttpBackend" where
  "http_backend_new config auth_secret =
     (let base = trim_end_matches (CHR ''/'')
            (case bc_url config of None \<Rightarrow> ''http://localhost:3000'' | Some u \<Rightarrow> u);
          url = (if ends_with base ''/mcp'' then base else base @ ''/mcp'')
      in \<lparr>hb_url = url, hb_timeout = sec (unat (timeout_secs config)),
          hb_max_retries = retries config, hb_auth_secret = auth_secret\<rparr>)"

definition build_request :: "HttpBackend \<Rightarrow> string \<Rightarrow> http_request" where
  "build_request h body =
     \<lparr>hr_url = hb_url h,
      hr_headers =
        [(''Content-Type'', ''application/json''),
         (''Accept'', ''application/json, text/event-stream'')] @
        (case hb_auth_secret h of None \<Rightarrow> [] | Some secret \<Rightarrow> [(''X-Sentinel-Auth'', secret)]),
      hr_timeout = hb_timeout h, hr_body = body\<rparr>"

fun read_chunks :: "(reqwest_error + string) list \<Rightarrow> string \<Rightarrow> BackendError + string" where
  "read_chunks [] buf = Inr buf"
| "read_chunks (Inl e # cs) buf = Inl (Stream e)"
| "read_chunks (Inr chunk # cs) buf = read_chunks cs (buf @ chunk)"

definition read_sse_response :: "(reqwest_error + string) list \<Rightarrow> BackendError + string" where
  "read_sse_response chunks =
     (case read_chunks chunks [] of
        Inl e \<Rightarrow> Inl e
      | Inr buf \<Rightarrow>
          (case parse_sse_data (from_utf8_lossy buf) of None \<Rightarrow> Inl NoDataInSse | Some d \<Rightarrow> Inr d))"

definition is_success :: "u16 \<Rightarrow> bool" where
  "is_success status \<longleftrightarrow> 200 \<le> status \<and> status < 300"

definition read_reply :: "http_reply \<Rightarrow> BackendError + string" where
  "read_reply response =
     (if \<not> is_success (reply_status response)
      then Inl (HttpStatus (reply_status response)
             (case reply_text response of Inl _ \<Rightarrow> '''' | Inr body \<Rightarrow> body))
      else
        (let content_type = (case reply_content_type response of None \<Rightarrow> '''' | Some t \<Rightarrow> t) in
         if contains content_type ''text/event-stream''
         then read_sse_response (reply_chunks response)
         else (case reply_text response of Inl e \<Rightarrow> Inl (Stream e) | Inr body \<Rightarrow> Inr body)))"

definition http_attempt :: "network \<Rightarrow> HttpBackend \<Rightarrow> string \<Rightarrow> u32 \<Rightarrow> BackendError + string" where
  "http_attempt net h body attempt =
     (case net attempt (build_request h body) of
        Inl e \<Rightarrow> Inl (Request e)
      | Inr response \<Rightarrow> read_reply response)"

definition http_send ::
  "(u32 \<Rightarrow> u64 \<Rightarrow> u64) \<Rightarrow> network \<Rightarrow> HttpBackend \<Rightarrow> string \<Rightarrow> (BackendError + string) \<times> u64 list" where
  "http_send random_range net h body =
     retry_with_backoff random_range (hb_max_retries h) (http_attempt net h body)"

section \<open>Tool discovery\<close>

definition init_req :: json where
  "init_req = JObject
     [(''id'', JNumber (PosInt 1)),
      (''jsonrpc'', JString ''2.0''),
      (''method'', JString ''initialize''),
      (''params'', JObject
         [(''capabilities'', JObject []),
          (''clientInfo'', JObject
             [(''name'', JString ''sentinel-gateway''), (''version'', JString ''0.1.0'')]),
          (''protocolVersion'', JString ''2025-03-26'')])]"

definition initialized_notif :: json where
  "initialized_notif = JObject
     [(''jsonrpc'', JString ''2.0''), (''method'', JString ''notifications/initialized'')]"

definition list_req :: json where
  "list_req = JObject
     [(''id'', JNumber (PosInt 2)), (''jsonrpc'', JString ''2.0''), (''method'', JString ''tools/list'')]"

text \<open>The tools in a \<^verbatim>\<open>tools/list\<close> response; \<open>read_tools\<close> is serde's typed reader.\<close>

definition parse_tools ::
  "serde \<Rightarrow> (json \<Rightarrow> string + Tool list) \<Rightarrow> string \<Rightarrow> string \<Rightarrow> anyhow + Tool list" where
  "parse_tools sd read_tools no_tools list_response =
     (case from_str_value sd list_response of
        Inl e \<Rightarrow> Inl (Foreign e)
      | Inr parsed \<Rightarrow>
          (case Option.bind (get ''result'' parsed) (get ''tools'') of
             None \<Rightarrow> Inl (Bail no_tools)
           | Some tools_value \<Rightarrow>
               (case read_tools tools_value of Inl e \<Rightarrow> Inl (Foreign e) | Inr ts \<Rightarrow> Inr ts)))"

text \<open>
  \<open>send k\<close> is the \<open>k\<close>-th call of the backend's \<^verbatim>\<open>send\<close>; the result of the second, the
  notification, is only logged.
\<close>

definition discover_tools ::
  "serde \<Rightarrow> (json \<Rightarrow> string + Tool list) \<Rightarrow> (nat \<Rightarrow> string \<Rightarrow> BackendError + string) \<Rightarrow>
   anyhow + Tool list" where
  "discover_tools sd read_tools send =
     (case send 0 (to_string_value sd init_req) of
        Inl e \<Rightarrow> Inl (Foreign (backend_error_display e))
      | Inr _ \<Rightarrow>
          (let _ = send 1 (to_string_value sd initialized_notif) in
           (case send 2 (to_string_value sd list_req) of
              Inl e \<Rightarrow> Inl (Foreign (backend_error_display e))
            | Inr list_response \<Rightarrow>
                parse_tools sd read_tools ''No tools in tools/list response'' list_response)))"

section \<open>The retry loop\<close>

definition final_result :: "BackendError + 'a \<Rightarrow> bool" where
  "final_result r = (case r of Inl e \<Rightarrow> \<not> is_retryable e | Inr _ \<Rightarrow> True)"

lemma word_between_Suc:
  assumes "(a :: 'a::len word) < m" and "a \<le> j" and "j \<noteq> a"
  shows "a + 1 \<le> j"
  using assms by (metis inc_le order_le_less)

lemma retry_from_stop:
  "final_result (operation a) \<or> m \<le> a \<Longrightarrow> retry_from rr m operation a = (operation a, [])"
  by (subst retry_from.simps) (auto simp: final_result_def split: sum.splits)

lemma retry_from_again:
  "\<not> final_result (operation a) \<Longrightarrow> a < m \<Longrightarrow>
   retry_from rr m operation a =
     (fst (retry_from rr m operation (a + 1)),
      retry_delay_ms rr a # snd (retry_from rr m operation (a + 1)))"
  by (subst retry_from.simps) (auto simp: final_result_def split: sum.splits prod.splits)

lemma retry_from_spec:
  assumes "a \<le> m"
  shows "\<exists>k. a \<le> k \<and> k \<le> m \<and> (k = m \<or> final_result (operation k)) \<and>
     (\<forall>j. a \<le> j \<longrightarrow> j < k \<longrightarrow> \<not> final_result (operation j)) \<and>
     retry_from rr m operation a =
       (operation k, map (\<lambda>i. retry_delay_ms rr (of_nat i)) [unat a..<unat k])"
  using assms
proof (induction "unat m - unat a" arbitrary: a)
  case 0
  then have "a = m" by (simp add: word_le_nat_alt word_unat_eq_iff)
  then show ?case by (intro exI [of _ a]) (auto simp: retry_from_stop)
next
  case (Suc n)
  then have am: "a < m" by (simp add: word_less_nat_alt)
  show ?case
  proof (cases "final_result (operation a)")
    case True
    with Suc.prems show ?thesis by (intro exI [of _ a]) (auto simp: retry_from_stop)
  next
    case False
    have next_nat: "unat (a + 1) = Suc (unat a)" using am by (rule unat_Suc_less)
    have "n = unat m - unat (a + 1)" "a + 1 \<le> m"
      using Suc.hyps(2) am by (simp_all add: next_nat inc_le)
    from Suc.hyps(1) [OF this] obtain k where k: "a + 1 \<le> k" "k \<le> m"
      "k = m \<or> final_result (operation k)"
      "\<forall>j. a + 1 \<le> j \<longrightarrow> j < k \<longrightarrow> \<not> final_result (operation j)"
      "retry_from rr m operation (a + 1) =
        (operation k, map (\<lambda>i. retry_delay_ms rr (of_nat i)) [Suc (unat a)..<unat k])"
      using next_nat by auto
    have ak: "unat a < unat k" using k(1) next_nat by (simp add: word_le_nat_alt)
    have "\<not> final_result (operation j)" if "a \<le> j" "j < k" for j
      using that False k(4) word_between_Suc [OF am that(1)] by blast
    moreover have "[unat a..<unat k] = unat a # [Suc (unat a)..<unat k]"
      using ak by (rule upt_conv_Cons)
    ultimately show ?thesis
      using k ak False am by (intro exI [of _ k]) (auto simp: retry_from_again word_le_nat_alt)
  qed
qed

lemma unat_base_ms:
  assumes "unat a \<le> 56"
  shows "unat (base_ms a) = 100 * 2 ^ unat a"
proof -
  have "(2 :: nat) ^ unat a \<le> 2 ^ 56" using assms by (intro power_increasing) auto
  moreover from this have "unat (push_bit (unat a) (1 :: u64)) = 2 ^ unat a"
    using assms by (simp only: unsigned_push_bit_eq) (simp add: push_bit_nat_def take_bit_nat_eq_self)
  ultimately show ?thesis
    using assms by (simp add: base_ms_def unat_saturating_mul_u64)
qed

lemma retry_delay_bounds:
  assumes "random_range_ok rr" and "unat a \<le> 56"
  shows "100 * 2 ^ unat a \<le> unat (retry_delay_ms rr a) \<and>
         unat (retry_delay_ms rr a) < 150 * 2 ^ unat a"
proof -
  let ?b = "base_ms a"
  note b = unat_base_ms [OF assms(2)]
  have le: "(2 :: nat) ^ unat a \<le> 2 ^ 56" using assms(2) by (intro power_increasing) auto
  have "(0 :: nat) < 2 ^ unat a" by simp
  then have "1 < 100 * (2 :: nat) ^ unat a" by linarith
  then have big: "1 < ?b" using b by (simp only: word_less_nat_alt unsigned_1)
  have half: "unat (?b div 2) = 50 * 2 ^ unat a" using b by (simp add: unat_div)
  then have "0 < ?b div 2" by (simp add: word_less_nat_alt)
  with assms(1) have "rr a (?b div 2) < ?b div 2" by (simp add: random_range_ok_def)
  then have j: "unat (rr a (?b div 2)) < 50 * 2 ^ unat a" using half by (simp add: word_less_nat_alt)
  have "unat (?b + rr a (?b div 2)) = unat ?b + unat (rr a (?b div 2))"
    using b j le by (subst unat_add_lem [THEN iffD1]) auto
  with b j big show ?thesis by (simp add: retry_delay_ms_def Let_def)
qed

section \<open>Event streams and addresses\<close>

lemma read_chunks_concat: "read_chunks (map Inr cs) buf = Inr (buf @ concat cs)"
  by (induction cs arbitrary: buf) simp_all

lemma first_data_skip:
  "list_all (\<lambda>l. \<not> prefix ''data:'' l) ls \<Longrightarrow> first_data (ls @ ls') = first_data ls'"
  by (induction ls) (auto simp: strip_prefix_def)

lemma trim_space: "trim (CHR '' '' # s) = trim s"
proof -
  have "ws_head (CHR '' '' # s) = Some s" by (simp add: ws_head_def ws_chars_def)
  then have "trim_start (CHR '' '' # s) = trim_start s" by (subst trim_start.simps) simp
  then show ?thesis by (simp only: trim_def)
qed

section \<open>Properties\<close>

text \<open>
  C27: The retry loop always returns. It makes at most \<open>max_retries + 1\<close> attempts, in order; its
  result is that of the last attempt made; every earlier attempt failed with a retryable error; the
  last one succeeded, failed for good, or used up the retries; and it slept once between any two
  attempts.
\<close>

theorem retry_with_backoff_correct:
  "\<exists>k \<le> max_retries.
     (k = max_retries \<or> final_result (operation k)) \<and>
     (\<forall>j < k. \<not> final_result (operation j)) \<and>
     retry_with_backoff rr max_retries operation =
       (operation k, map (\<lambda>i. retry_delay_ms rr (of_nat i)) [0..<unat k])"
  using retry_from_spec [of 0 max_retries operation rr]
  by (auto simp: retry_with_backoff_def)

theorem retry_with_backoff_correct_witness:
  "let operation = (\<lambda>k. if k < 2 then Inl (HttpStatus 503 '''') else Inr ''ok'');
       r = retry_with_backoff (\<lambda>a n. 0) 3 operation
   in fst r = Inr ''ok'' \<and> length (snd r) = 2"
proof -
  let ?op = "\<lambda>k :: u32. if k < 2 then Inl (HttpStatus 503 '''') else Inr ''ok''"
  have fin: "final_result (?op k) \<longleftrightarrow> \<not> k < 2" for k
    by (simp add: final_result_def is_retryable_def)
  from retry_with_backoff_correct [of 3 ?op "\<lambda>a n. 0"] obtain k
    where k: "k = 3 \<or> \<not> k < 2" "\<forall>j < k. j < 2"
      "retry_with_backoff (\<lambda>a n. 0) 3 ?op =
        (?op k, map (\<lambda>i. retry_delay_ms (\<lambda>a n. 0) (of_nat i)) [0..<unat k])"
    unfolding fin by blast
  from k(2) have "\<not> 2 < k" by blast
  with k(1) have "k = 2" by auto
  with k(3) show ?thesis by simp
qed

text \<open>
  Backoff is exponential with bounded jitter: the delay after attempt \<open>a\<close> is at least
  \<open>100 * 2 ^ a\<close> and less than \<open>150 * 2 ^ a\<close> milliseconds, for every attempt up to the 56th, where
  the 64-bit arithmetic stays exact.
\<close>

theorem retry_backoff_exponential:
  assumes "random_range_ok rr" and "unat a \<le> 56"
  shows "100 * 2 ^ unat a \<le> unat (retry_delay_ms rr a) \<and>
         unat (retry_delay_ms rr a) < 150 * 2 ^ unat a"
  using assms by (rule retry_delay_bounds)

theorem retry_backoff_exponential_witness:
  "100 * 2 ^ unat (3 :: u32) \<le> unat (retry_delay_ms (\<lambda>a n. n - 1) 3) \<and>
   unat (retry_delay_ms (\<lambda>a n. n - 1) 3) < 150 * 2 ^ unat (3 :: u32)"
proof (rule retry_backoff_exponential)
  show "random_range_ok (\<lambda>a n. n - 1)"
    by (simp add: random_range_ok_def word_less_nat_alt unat_pred)
qed simp

text \<open>
  C28: An event-stream reply is decoded whatever its chunking: if the chunks of a successful reply
  with an event-stream content type concatenate to some lines that carry no data, then a data line
  with the payload, then anything, the attempt returns the payload. The payload is any non-empty,
  trimmed text without a line break.
\<close>

theorem sse_reply_decoded:
  assumes reply: "net attempt (build_request h body) = Inr r" "is_success (reply_status r)"
    and ctype: "reply_content_type r = Some t" "contains t ''text/event-stream''"
    and chunks: "reply_chunks r = map Inr cs"
      "concat cs = concat (map (\<lambda>l. l @ [NL]) ls) @ ''data: '' @ payload @ NL # rest"
    and utf8: "valid_utf8 (concat cs)"
    and preamble: "list_all (\<lambda>l. NL \<notin> set l \<and> \<not> prefix ''data:'' (strip_line_end (l @ [NL]))) ls"
    and payload: "NL \<notin> set payload" "payload \<noteq> []" "trim payload = payload" "last payload \<noteq> CR"
  shows "http_attempt net h body attempt = Inr payload"
proof -
  have lines: "lines (concat cs) =
      map (\<lambda>l. strip_line_end (l @ [NL])) ls @ (''data: '' @ payload) # lines rest"
    using preamble payload unfolding chunks(2)
    by (induction ls)
      (simp_all add: lines_def split_inclusive_nl_line [where l = "''data: '' @ payload", simplified]
        split_inclusive_nl_line strip_line_end_def)
  have "first_data (map (\<lambda>l. strip_line_end (l @ [NL])) ls @ ls') = first_data ls'" for ls'
    using preamble by (intro first_data_skip) (auto simp: list_all_iff)
  then have "parse_sse_data (concat cs) = Some payload"
    using payload by (simp add: parse_sse_data_def lines strip_prefix_def trim_space)
  then show ?thesis
    using reply ctype chunks(1) utf8
    by (simp add: http_attempt_def read_reply_def read_sse_response_def read_chunks_concat
        from_utf8_lossy_valid)
qed

definition demo_reply :: http_reply where
  "demo_reply = \<lparr>reply_status = 200, reply_content_type = Some ''text/event-stream'',
     reply_text = Inr '''', reply_chunks = [Inr (''event: m'' @ [NL] @ ''da''), Inr (''ta: {}'' @ [NL, NL])]\<rparr>"

definition demo_http :: HttpBackend where
  "demo_http = \<lparr>hb_url = ''http://b/mcp'', hb_timeout = sec 5, hb_max_retries = 3, hb_auth_secret = None\<rparr>"

theorem sse_reply_decoded_witness:
  "http_attempt (\<lambda>a r. Inr demo_reply) demo_http ''x'' 0 = Inr ''{}''"
proof (rule sse_reply_decoded [where r = demo_reply and ls = "[''event: m'']" and rest = "[NL]" and
      t = "''text/event-stream''" and cs = "[''event: m'' @ [NL] @ ''da'', ''ta: {}'' @ [NL, NL]]"])
  show "trim ''{}'' = ''{}''"
    by (rule trim_id) (simp_all add: ws_head_def ws_last_def ws_chars_def suffix_def)
  show "valid_utf8 (concat [''event: m'' @ [NL] @ ''da'', ''ta: {}'' @ [NL, NL]])"
    by (rule valid_utf8_ascii) simp
qed (simp_all add: demo_reply_def is_success_def contains_def strip_line_end_def)

text \<open>
  The backend address ends with \<^verbatim>\<open>/mcp\<close> and normalising it again changes nothing; every request
  goes to that address with the body given and carries the shared secret exactly when one is
  configured.
\<close>

theorem http_backend_address:
  "let h = http_backend_new cfg secret;
       r = build_request h body
   in ends_with (hb_url h) ''/mcp'' \<and>
      hb_url (http_backend_new (cfg\<lparr>bc_url := Some (hb_url h)\<rparr>) secret) = hb_url h \<and>
      hr_url r = hb_url h \<and> hr_body r = body \<and>
      hm_get (hr_headers r) ''X-Sentinel-Auth'' = secret"
proof -
  let ?h = "http_backend_new cfg secret"
  have e: "ends_with (hb_url ?h) ''/mcp''"
    by (auto simp: http_backend_new_def Let_def ends_with_def suffix_def)
  then obtain p where "hb_url ?h = p @ ''/mcp''" by (auto simp: ends_with_def suffix_def)
  then have "trim_end_matches (CHR ''/'') (hb_url ?h) = hb_url ?h"
    by (intro trim_end_matches_id) simp
  with e have "hb_url (http_backend_new (cfg\<lparr>bc_url := Some (hb_url ?h)\<rparr>) secret) = hb_url ?h"
    by (simp add: http_backend_new_def [of "cfg\<lparr>bc_url := Some (hb_url ?h)\<rparr>"] Let_def)
  moreover have "hb_auth_secret ?h = secret" by (simp add: http_backend_new_def Let_def)
  ultimately show ?thesis
    using e by (simp add: Let_def build_request_def split: option.splits)
qed

end
