(* ===== verification/Transport.thy ===== *)
theory Transport
  imports Rust_Str
begin

text \<open>
  The newline-delimited transport of \<^verbatim>\<open>src/src/transport/stdio.rs\<close>: the task that turns the bytes of
  stdin into messages and the task that writes messages to stdout, and the framing contract they
  share with the pipes to child processes.

  \<open>accepts n\<close> says whether the channel takes the \<open>n\<close>-th message; \<open>io n\<close> is \<open>None\<close> when writing and
  flushing the \<open>n\<close>-th message succeed, and \<open>Some k\<close> when they fail, or the task is dropped, after \<open>k\<close>
  bytes.
\<close>

section \<open>Reader and writer\<close>

datatype read_result = ReadOk string | ReadError string

text \<open>\<^verbatim>\<open>read_line\<close> on a byte stream: a line that is not UTF-8 is an error.\<close>

definition read_lines :: "string \<Rightarrow> read_result list" where
  "read_lines bytes =
     map (\<lambda>l. if valid_utf8 l then ReadOk l else ReadError ''stream did not contain valid UTF-8'')
       (split_inclusive_nl bytes)"

fun stdio_reader :: "(nat \<Rightarrow> bool) \<Rightarrow> nat \<Rightarrow> read_result list \<Rightarrow> string list" where
  "stdio_reader accepts n [] = []"
| "stdio_reader accepts n (ReadError e # rs) = []"
| "stdio_reader accepts n (ReadOk line # rs) =
     (if line = [] then []
      else
        (let trimmed = trim_end line in
         if trimmed = [] then stdio_reader accepts n rs
         else if \<not> accepts n then []
         else trimmed # stdio_reader accepts (Suc n) rs))"

fun stdio_writer :: "(nat \<Rightarrow> nat option) \<Rightarrow> nat \<Rightarrow> string list \<Rightarrow> string" where
  "stdio_writer io n [] = []"
| "stdio_writer io n (msg # ms) =
     (case io n of
        Some k \<Rightarrow> take k (msg @ [NL])
      | None \<Rightarrow> (msg @ [NL]) @ stdio_writer io (Suc n) ms)"

section \<open>Framing\<close>

text \<open>A message fit for the wire: one line of UTF-8 text, not blank, with no space at its end.\<close>

definition wire_message :: "string \<Rightarrow> bool" where
  "wire_message m \<longleftrightarrow> NL \<notin> set m \<and> m \<noteq> [] \<and> trim_end m = m \<and> valid_utf8 (m @ [NL])"

lemma trim_end_line: "trim_end m = m \<Longrightarrow> trim_end (m @ [NL]) = m"
proof -
  assume m: "trim_end m = m"
  have "ws_last (m @ [NL]) = Some m"
    by (simp add: ws_last_def ws_chars_def suffix_def)
  then show ?thesis using m by (subst trim_end.simps) simp
qed

locale framing =
  fixes frame :: "string \<Rightarrow> string"
  assumes frame_line: "NL \<notin> set m \<Longrightarrow> frame m = m @ [NL]"
begin

lemma frames_split:
  assumes "list_all wire_message ms"
  shows "split_inclusive_nl (concat (map frame ms)) = map (\<lambda>m. m @ [NL]) ms"
proof -
  have "map frame ms = map (\<lambda>m. m @ [NL]) ms"
    using assms by (auto simp: list_all_iff wire_message_def frame_line)
  moreover have "list_all (\<lambda>m. NL \<notin> set m) ms"
    using assms by (simp add: list_all_iff wire_message_def)
  ultimately show ?thesis by (simp only: split_inclusive_nl_frames)
qed

lemma frames_read:
  assumes "list_all wire_message ms"
  shows "read_lines (concat (map frame ms)) = map (\<lambda>m. ReadOk (m @ [NL])) ms"
  using assms by (simp add: read_lines_def frames_split list_all_iff wire_message_def)

lemma frames_received:
  assumes "list_all wire_message ms"
  shows "stdio_reader (\<lambda>_. True) n (read_lines (concat (map frame ms))) = ms"
  unfolding frames_read [OF assms] using assms
  by (induction ms arbitrary: n) (simp_all add: wire_message_def trim_end_line Let_def)

end

interpretation wire: framing "\<lambda>m. m @ [NL]"
  by unfold_locales simp

lemma stdio_writer_ok: "stdio_writer (\<lambda>_. None) n ms = concat (map (\<lambda>m. m @ [NL]) ms)"
  by (induction ms arbitrary: n) simp_all

section \<open>What a failing pipe does\<close>

lemma stdio_writer_prefix:
  "\<exists>rest. concat (map (\<lambda>m. m @ [NL]) ms) = stdio_writer io n ms @ rest"
proof (induction ms arbitrary: n)
  case Nil
  then show ?case by simp
next
  case (Cons m ms)
  show ?case
  proof (cases "io n")
    case None
    from Cons [of "Suc n"] None show ?thesis by auto
  next
    case (Some k)
    have "m @ [NL] = take k (m @ [NL]) @ drop k (m @ [NL])" by (simp only: append_take_drop_id)
    with Some show ?thesis
      by (intro exI [of _ "drop k (m @ [NL]) @ concat (map (\<lambda>m. m @ [NL]) ms)"])
        (simp only: list.map concat.simps stdio_writer.simps option.case append_assoc [symmetric])
  qed
qed

lemma stdio_reader_sound:
  "m \<in> set (stdio_reader accepts n rs) \<Longrightarrow>
   m \<noteq> [] \<and> trim_end m = m \<and> (\<exists>line. ReadOk line \<in> set rs \<and> m = trim_end line)"
  by (induction accepts n rs rule: stdio_reader.induct)
    (auto simp: Let_def split: if_splits)

lemma stdio_reader_accepts:
  assumes "\<forall>i. n \<le> i \<and> i < n + k \<longrightarrow> accepts i" and "\<not> accepts (n + k)"
  shows "stdio_reader accepts n rs = take k (stdio_reader (\<lambda>_. True) n rs)"
  using assms
proof (induction rs arbitrary: n k)
  case Nil
  then show ?case by simp
next
  case (Cons r rs)
  show ?case
  proof (cases r)
    case (ReadError e)
    then show ?thesis by simp
  next
    case (ReadOk line)
    have same: "stdio_reader accepts n rs = take k (stdio_reader (\<lambda>_. True) n rs)"
      using Cons by blast
    show ?thesis
    proof (cases k)
      case 0
      with Cons.prems same ReadOk show ?thesis by (simp add: Let_def)
    next
      case (Suc k')
      have "accepts n" using Cons.prems(1) Suc by simp
      moreover have "stdio_reader accepts (Suc n) rs = take k' (stdio_reader (\<lambda>_. True) (Suc n) rs)"
        using Cons.prems Suc by (intro Cons.IH) auto
      ultimately show ?thesis using same ReadOk Suc by (simp add: Let_def)
    qed
  qed
qed

section \<open>Properties\<close>

text \<open>
  The transport is a faithful channel. What the writer sends over a pipe that does not fail is
  what a reader on the other end receives, message for message; and when the receiving channel
  closes after \<open>k\<close> messages, exactly the first \<open>k\<close> of them were delivered.
\<close>

theorem transport_roundtrip:
  assumes "list_all wire_message ms"
    and "\<forall>i < k. accepts i" and "\<not> accepts k"
  shows "stdio_reader (\<lambda>_. True) 0 (read_lines (stdio_writer (\<lambda>_. None) 0 ms)) = ms \<and>
         stdio_reader accepts 0 (read_lines (stdio_writer (\<lambda>_. None) 0 ms)) = take k ms"
  using assms wire.frames_received [OF assms(1), of 0] stdio_reader_accepts [of 0 k accepts]
  by (simp add: stdio_writer_ok)

theorem transport_roundtrip_witness:
  "stdio_reader (\<lambda>_. True) 0 (read_lines (stdio_writer (\<lambda>_. None) 0 [''ab'', ''c''])) = [''ab'', ''c''] \<and>
   stdio_reader (\<lambda>i. i < 1) 0 (read_lines (stdio_writer (\<lambda>_. None) 0 [''ab'', ''c''])) =
     take 1 [''ab'', ''c'']"
proof (rule transport_roundtrip)
  have "trim_end ''ab'' = ''ab''" "trim_end ''c'' = ''c''"
    by (rule trim_end_id; simp add: ws_last_def ws_chars_def suffix_def)+
  then show "list_all wire_message [''ab'', ''c'']"
    by (simp add: wire_message_def valid_utf8_ascii)
qed simp_all

end
