(* ===== verification/Backend_Stdio.thy ===== *)
theory Backend_Stdio
  imports Backend_Http Transport
begin

text \<open>
  Backends that are child processes, \<^verbatim>\<open>src/src/backend/stdio.rs\<close>: the environment and the spawning of
  the child, the calls that wait for a response, and the tasks that write to the child and read
  from it. The supervisor of the same file is in the theory Supervisor.

  A call registers its id in the map of pending calls, hands its body to the writer task and waits.
  Meanwhile the reader task matches each line of the child with a pending id. \<open>stdio_step\<close> is the
  step relation of these tasks, one rule per atomic action; \<open>stdio_send\<close> is one call seen from its
  caller, given how its wait ends.
\<close>

section \<open>Spawning a child\<close>

definition allowed_env :: "string list" where
  "allowed_env = [''PATH'', ''HOME'', ''USER'', ''LANG'', ''NODE_PATH'', ''NVM_DIR'', ''NVM_BIN'',
     ''TMPDIR'', ''TERM'']"

definition child_env :: "environment \<Rightarrow> BackendConfig \<Rightarrow> (string, string) hashmap" where
  "child_env env config =
     fold (\<lambda>(k, v). hm_insert k v) (bc_env config)
       (fold (\<lambda>key m. case env key of None \<Rightarrow> m | Some val \<Rightarrow> hm_insert key val m) allowed_env [])"

record child_spec =
  cs_command :: string
  cs_args :: "string list"
  cs_env :: "(string, string) hashmap"

record child =
  child_id :: "u32 option"
  child_stdin :: bool
  child_stdout :: bool

record StdioBackend =
  sb_name :: string
  sb_pending :: "(u64, nat) hashmap"
  sb_pid :: u32
  sb_timeout :: nanos

text \<open>\<open>os_spawn\<close> is the operating system; a child runs in its own process group.\<close>

definition spawn ::
  "(child_spec \<Rightarrow> string + child) \<Rightarrow> environment \<Rightarrow> BackendConfig \<Rightarrow> BackendError + StdioBackend" where
  "spawn os_spawn env config =
     (case bc_command config of
        None \<Rightarrow> Inl (InvalidResponse (''stdio backend requires '' @ [CHR 0x27] @ ''command'' @
                  [CHR 0x27] @ '' field''))
      | Some command \<Rightarrow>
          (case os_spawn \<lparr>cs_command = command, cs_args = bc_args config,
                  cs_env = child_env env config\<rparr> of
             Inl e \<Rightarrow> Inl (ProcessExited (''failed to spawn '' @ [CHR 0x27] @ command @ [CHR 0x27] @
                       '': '' @ e))
           | Inr c \<Rightarrow>
               if \<not> child_stdin c then Inl StdinClosed
               else if \<not> child_stdout c then Inl (ProcessExited ''failed to capture stdout'')
               else Inr \<lparr>sb_name = bc_name config, sb_pending = [],
                         sb_pid = (case child_id c of None \<Rightarrow> 0 | Some p \<Rightarrow> p),
                         sb_timeout = sec (unat (timeout_secs config))\<rparr>))"

section \<open>The pieces of a call\<close>

definition request_id :: "serde \<Rightarrow> string \<Rightarrow> BackendError + u64" where
  "request_id sd body =
     (case from_str_value sd body of
        Inl e \<Rightarrow> Inl (InvalidResponse (''invalid JSON: '' @ e))
      | Inr parsed \<Rightarrow>
          (case Option.bind (get ''id'' parsed) as_u64 of
             None \<Rightarrow> Inl (InvalidResponse (''missing or non-numeric '' @ [CHR 0x27] @ ''id'' @
                       [CHR 0x27] @ '' field''))
           | Some i \<Rightarrow> Inr i))"

text \<open>
  How the wait of a call ends: its body was not taken by the writer's channel, its response came,
  its sender was dropped, or its time was up. \<open>finish_call\<close> is the result and the clean-up.
\<close>

datatype call_end = ChannelClosed | Response string | SenderDropped | TimedOut

fun finish_call :: "call_end \<Rightarrow> u64 \<Rightarrow> (u64, nat) hashmap \<Rightarrow> (BackendError + string) \<times> (u64, nat) hashmap"
  where
  "finish_call ChannelClosed i m = (Inl StdinClosed, hm_remove i m)"
| "finish_call (Response r) i m = (Inr r, m)"
| "finish_call SenderDropped i m = (Inl (ProcessExited ''response channel dropped''), m)"
| "finish_call TimedOut i m = (Inl (InvalidResponse ''request timed out''), hm_remove i m)"

fun_cases finish_call_InrE: "finish_call e i m = (Inr r, m')"

definition drain_pending :: "(u64, nat) hashmap \<Rightarrow> (u64, nat) hashmap" where
  "drain_pending m = []"

text \<open>The line of the child that the reader passes on: its id and its trimmed text.\<close>

definition reader_line :: "serde \<Rightarrow> string \<Rightarrow> (u64 \<times> string) option" where
  "reader_line sd line =
     (let trimmed = trim line in
      if trimmed = [] then None
      else
        (case from_str_value sd trimmed of
           Inl _ \<Rightarrow> None
         | Inr parsed \<Rightarrow>
             (case Option.bind (get ''id'' parsed) as_u64 of
                None \<Rightarrow> None
              | Some i \<Rightarrow> Some (i, trimmed))))"

definition stdin_line :: "string \<Rightarrow> string" where
  "stdin_line msg = (if ends_with msg [NL] then msg else msg @ [NL])"

text \<open>The bytes the child reads; \<open>io\<close> is as in the theory Transport.\<close>

fun stdin_writer :: "(nat \<Rightarrow> nat option) \<Rightarrow> nat \<Rightarrow> string list \<Rightarrow> string" where
  "stdin_writer io n [] = []"
| "stdin_writer io n (msg # ms) =
     (case io n of
        Some k \<Rightarrow> take k (stdin_line msg)
      | None \<Rightarrow> stdin_line msg @ stdin_writer io (Suc n) ms)"

section \<open>One call, as its caller sees it\<close>

text \<open>
  What the other tasks have done to the pending map by the time the wait ends: a response was
  taken out by the reader, and a dropped sender was drained with all others.
\<close>

fun others_did :: "call_end \<Rightarrow> u64 \<Rightarrow> (u64, nat) hashmap \<Rightarrow> (u64, nat) hashmap" where
  "others_did (Response r) i m = hm_remove i m"
| "others_did SenderDropped i m = drain_pending m"
| "others_did e i m = m"

definition stdio_send ::
  "serde \<Rightarrow> call_end \<Rightarrow> StdioBackend \<Rightarrow> string \<Rightarrow> (BackendError + string) \<times> StdioBackend" where
  "stdio_send sd ending b body =
     (case request_id sd body of
        Inl e \<Rightarrow> (Inl e, b)
      | Inr i \<Rightarrow>
          (case finish_call ending i (others_did ending i (hm_insert i 0 (sb_pending b))) of
             (r, m) \<Rightarrow> (r, b\<lparr>sb_pending := m\<rparr>)))"

section \<open>Tool discovery\<close>

text \<open>
  \<open>ends k\<close> is how the wait of the \<open>k\<close>-th call ends; \<open>notify\<close> says whether the channel took the
  notification. The backend comes back with its pending map.
\<close>

definition discover_stdio_tools ::
  "serde \<Rightarrow> (json \<Rightarrow> string + Tool list) \<Rightarrow> (nat \<Rightarrow> call_end) \<Rightarrow> (string \<Rightarrow> bool) \<Rightarrow> StdioBackend \<Rightarrow>
   (anyhow + Tool list) \<times> StdioBackend" where
  "discover_stdio_tools sd read_tools ends notify backend =
     (case stdio_send sd (ends 0) backend (to_string_value sd init_req) of
        (Inl e, backend) \<Rightarrow> (Inl (Bail (''MCP initialize failed: '' @ backend_error_display e)), backend)
      | (Inr _, backend) \<Rightarrow>
          if \<not> notify (to_string_value sd initialized_notif)
          then (Inl (Bail ''failed to send notifications/initialized: stdin closed''), backend)
          else
            (case stdio_send sd (ends 1) backend (to_string_value sd list_req) of
               (Inl e, backend) \<Rightarrow>
                 (Inl (Bail (''MCP tools/list failed: '' @ backend_error_display e)), backend)
             | (Inr list_response, backend) \<Rightarrow>
                 (parse_tools sd read_tools ''no tools in tools/list response'' list_response, backend)))"

section \<open>The tasks together\<close>

datatype call_status = Registered | Waiting | Done "BackendError + string"

record call =
  call_id :: u64
  call_body :: string
  call_status :: call_status

text \<open>
  \<open>calls\<close> are the calls made so far, by number; \<open>slots\<close> the responses sent to a call's oneshot
  channel; \<open>heard\<close> the lines the reader has read; \<open>queue\<close> the messages in the channel to the writer task,
  at most \<open>STDIN_CAPACITY\<close>; \<open>taking\<close> holds until the writer task ends and its receiver is dropped,
  \<open>reading\<close> until the reader ends. A send to the channel waits while it is full, without a time-out.
\<close>

definition STDIN_CAPACITY :: nat where "STDIN_CAPACITY = 64"

record stdio_state =
  pending :: "(u64, nat) hashmap"
  calls :: "(nat, call) hashmap"
  slots :: "(nat, string) hashmap"
  heard :: "string list"
  queue :: "string list"
  taking :: bool
  reading :: bool

definition set_status :: "nat \<Rightarrow> call_status \<Rightarrow> stdio_state \<Rightarrow> stdio_state" where
  "set_status w st s =
     (case hm_get (calls s) w of
        None \<Rightarrow> s
      | Some c \<Rightarrow> s\<lparr>calls := hm_insert w (c\<lparr>call_status := st\<rparr>) (calls s)\<rparr>)"

definition end_call :: "nat \<Rightarrow> call_end \<Rightarrow> stdio_state \<Rightarrow> stdio_state" where
  "end_call w ending s =
     (case hm_get (calls s) w of
        None \<Rightarrow> s
      | Some c \<Rightarrow>
          (case finish_call ending (call_id c) (pending s) of
             (r, m) \<Rightarrow> (set_status w (Done r) s)\<lparr>pending := m\<rparr>))"

definition deliver :: "serde \<Rightarrow> string \<Rightarrow> stdio_state \<Rightarrow> stdio_state" where
  "deliver sd line s =
     (case reader_line sd line of
        None \<Rightarrow> s\<lparr>heard := line # heard s\<rparr>
      | Some (i, answer) \<Rightarrow>
          (case hm_get (pending s) i of
             None \<Rightarrow> s\<lparr>heard := line # heard s\<rparr>
           | Some w \<Rightarrow>
               s\<lparr>heard := line # heard s, pending := hm_remove i (pending s),
                 slots := hm_insert w answer (slots s)\<rparr>))"

definition status_of :: "nat \<Rightarrow> stdio_state \<Rightarrow> call_status option" where
  "status_of w s = map_option call_status (hm_get (calls s) w)"

datatype stdio_event =
    Begin nat string
  | Enqueue nat
  | WriteStdin
  | WriterEnd
  | ReadLine string
  | ReadEnd
  | EndCall nat call_end

inductive stdio_step :: "serde \<Rightarrow> stdio_state \<Rightarrow> stdio_event \<Rightarrow> stdio_state \<Rightarrow> bool" for sd where
  register: "hm_get (calls s) w = None \<Longrightarrow> request_id sd body = Inr i \<Longrightarrow>
     stdio_step sd s (Begin w body)
       (s\<lparr>pending := hm_insert i w (pending s),
          calls := hm_insert w \<lparr>call_id = i, call_body = body, call_status = Registered\<rparr> (calls s)\<rparr>)"
| reject: "hm_get (calls s) w = None \<Longrightarrow> request_id sd body = Inl e \<Longrightarrow>
     stdio_step sd s (Begin w body)
       (s\<lparr>calls := hm_insert w \<lparr>call_id = 0, call_body = body, call_status = Done (Inl e)\<rparr> (calls s)\<rparr>)"
| enqueue: "hm_get (calls s) w = Some c \<Longrightarrow> call_status c = Registered \<Longrightarrow> taking s \<Longrightarrow>
     length (queue s) < STDIN_CAPACITY \<Longrightarrow>
     stdio_step sd s (Enqueue w) ((set_status w Waiting s)\<lparr>queue := queue s @ [call_body c]\<rparr>)"
| write_stdin: "taking s \<Longrightarrow> queue s = m # ms \<Longrightarrow> stdio_step sd s WriteStdin (s\<lparr>queue := ms\<rparr>)"
| writer_end: "taking s \<Longrightarrow> stdio_step sd s WriterEnd (s\<lparr>taking := False, queue := []\<rparr>)"
| closed: "status_of w s = Some Registered \<Longrightarrow> \<not> taking s \<Longrightarrow>
     stdio_step sd s (EndCall w ChannelClosed) (end_call w ChannelClosed s)"
| read_line: "reading s \<Longrightarrow> stdio_step sd s (ReadLine line) (deliver sd line s)"
| read_end: "reading s \<Longrightarrow>
     stdio_step sd s ReadEnd (s\<lparr>reading := False, pending := drain_pending (pending s)\<rparr>)"
| response: "status_of w s = Some Waiting \<Longrightarrow> hm_get (slots s) w = Some r \<Longrightarrow>
     stdio_step sd s (EndCall w (Response r)) (end_call w (Response r) s)"
| dropped: "status_of w s = Some Waiting \<Longrightarrow> hm_get (slots s) w = None \<Longrightarrow>
     w \<notin> set (hm_values (pending s)) \<Longrightarrow>
     stdio_step sd s (EndCall w SenderDropped) (end_call w SenderDropped s)"
| timed_out: "status_of w s = Some Waiting \<Longrightarrow>
     stdio_step sd s (EndCall w TimedOut) (end_call w TimedOut s)"

inductive_cases stdio_beginE: "stdio_step sd s (Begin w body) t"
inductive_cases stdio_endE: "stdio_step sd s (EndCall w ending) t"

definition stdio_init :: "stdio_state \<Rightarrow> bool" where
  "stdio_init s \<longleftrightarrow>
     s = \<lparr>pending = [], calls = [], slots = [], heard = [], queue = [], taking = True, reading = True\<rparr>"

section \<open>The invariant\<close>

text \<open>
  A pending sender belongs to a call with that id that is not finished and has no response; a
  response came from a line with the call's id; a successful call got the response in its slot.
\<close>

definition call_ok :: "serde \<Rightarrow> stdio_state \<Rightarrow> nat \<Rightarrow> call \<Rightarrow> bool" where
  "call_ok sd s w c \<longleftrightarrow>
     (request_id sd (call_body c) = Inr (call_id c) \<or> (\<exists>e. call_status c = Done (Inl e))) \<and>
     (\<forall>r. call_status c = Done (Inr r) \<longrightarrow> hm_get (slots s) w = Some r)"

definition pending_ok :: "stdio_state \<Rightarrow> bool" where
  "pending_ok s \<longleftrightarrow>
     (\<forall>i w. hm_get (pending s) i = Some w \<longrightarrow>
        (\<exists>c. hm_get (calls s) w = Some c \<and> call_id c = i \<and> call_status c \<in> {Registered, Waiting}) \<and>
        hm_get (slots s) w = None)"

definition slots_ok :: "serde \<Rightarrow> stdio_state \<Rightarrow> bool" where
  "slots_ok sd s \<longleftrightarrow>
     (\<forall>w r. hm_get (slots s) w = Some r \<longrightarrow>
        (\<exists>c line. hm_get (calls s) w = Some c \<and> line \<in> set (heard s) \<and>
           reader_line sd line = Some (call_id c, r)))"

definition stdio_inv :: "serde \<Rightarrow> stdio_state \<Rightarrow> bool" where
  "stdio_inv sd s \<longleftrightarrow>
     hm_wf (pending s) \<and> pending_ok s \<and> slots_ok sd s \<and>
     (\<forall>w c. hm_get (calls s) w = Some c \<longrightarrow> call_ok sd s w c)"

lemmas stdio_inv_defs = stdio_inv_def pending_ok_def slots_ok_def call_ok_def

lemma end_call_simps [simp]:
  "slots (end_call w e s) = slots s" "heard (end_call w e s) = heard s"
  "reading (end_call w e s) = reading s" "taking (end_call w e s) = taking s" "queue (end_call w e s) = queue s"
  by (simp_all add: end_call_def set_status_def split: option.splits prod.splits)

lemma end_call_calls:
  "hm_get (calls s) w = Some c \<Longrightarrow>
   calls (end_call w e s) =
     hm_insert w (c\<lparr>call_status := Done (fst (finish_call e (call_id c) (pending s)))\<rparr>) (calls s)"
  by (simp add: end_call_def set_status_def split: prod.splits)

lemma end_call_pending:
  "hm_get (calls s) w = Some c \<Longrightarrow>
   pending (end_call w e s) = snd (finish_call e (call_id c) (pending s))"
  by (simp add: end_call_def set_status_def split: prod.splits)

lemma finish_call_pending:
  "hm_wf m \<Longrightarrow> hm_wf (snd (finish_call e i m))"
  "hm_get (snd (finish_call e i m)) j = Some w \<Longrightarrow> hm_get m j = Some w"
  by (cases e; simp split: if_splits)+

lemma finish_call_Inr: "fst (finish_call e i m) = Inr r \<longleftrightarrow> e = Response r"
  by (cases e) auto

lemma pending_call:
  assumes "stdio_inv sd s" and "hm_get (pending s) i = Some w"
  shows "\<exists>c. hm_get (calls s) w = Some c \<and> call_id c = i \<and> call_status c \<in> {Registered, Waiting}"
    and "hm_get (slots s) w = None"
  using assms unfolding stdio_inv_def pending_ok_def by blast+

lemma call_okD: "stdio_inv sd s \<Longrightarrow> hm_get (calls s) w = Some c \<Longrightarrow> call_ok sd s w c"
  by (simp add: stdio_inv_def)

lemma slot_call:
  assumes "stdio_inv sd s" and "hm_get (slots s) w = Some r"
  shows "\<exists>c line. hm_get (calls s) w = Some c \<and> line \<in> set (heard s) \<and>
    reader_line sd line = Some (call_id c, r)"
  using assms unfolding stdio_inv_def slots_ok_def by blast

text \<open>
  Ending a call keeps the invariant when its pending entry is gone afterwards and a response it
  returns is the one in its slot.
\<close>

lemma stdio_inv_end_call:
  assumes inv: "stdio_inv sd s" and c: "hm_get (calls s) w = Some c"
    and st: "call_status c \<in> {Registered, Waiting}"
    and gone: "\<forall>i. hm_get (snd (finish_call e (call_id c) (pending s))) i \<noteq> Some w"
    and slot: "\<forall>r. e = Response r \<longrightarrow> hm_get (slots s) w = Some r"
  shows "stdio_inv sd (end_call w e s)"
proof -
  let ?t = "end_call w e s"
  have wf: "hm_wf (pending ?t)"
    using inv by (simp add: stdio_inv_def end_call_pending [OF c] finish_call_pending)
  have "pending_ok ?t"
    unfolding pending_ok_def
  proof (intro allI impI)
    fix i v
    assume p: "hm_get (pending ?t) i = Some v"
    then have "hm_get (pending s) i = Some v"
      by (auto simp: end_call_pending [OF c] intro: finish_call_pending(2))
    moreover have "v \<noteq> w" using p gone by (auto simp: end_call_pending [OF c])
    ultimately show "(\<exists>c. hm_get (calls ?t) v = Some c \<and> call_id c = i \<and>
        call_status c \<in> {Registered, Waiting}) \<and> hm_get (slots ?t) v = None"
      using inv by (simp add: stdio_inv_def pending_ok_def end_call_calls [OF c])
  qed
  moreover have "slots_ok sd ?t"
    using slot_call [OF inv] c by (fastforce simp: slots_ok_def end_call_calls [OF c])
  moreover have "call_ok sd ?t v d" if "hm_get (calls ?t) v = Some d" for v d
  proof (cases "v = w")
    case True
    with that have "d = c\<lparr>call_status := Done (fst (finish_call e (call_id c) (pending s)))\<rparr>"
      by (simp add: end_call_calls [OF c])
    with True slot st call_okD [OF inv c] show ?thesis by (auto simp: call_ok_def finish_call_Inr)
  next
    case False
    with that call_okD [OF inv, of v d] show ?thesis by (simp add: end_call_calls [OF c] call_ok_def)
  qed
  ultimately show ?thesis using wf by (simp add: stdio_inv_def)
qed

lemma removed_gone:
  assumes "stdio_inv sd s" and "hm_get (calls s) w = Some c"
  shows "hm_get (hm_remove (call_id c) (pending s)) i \<noteq> Some w"
  using assms by (auto simp: stdio_inv_def pending_ok_def split: if_splits) force

lemma slot_gone:
  assumes "stdio_inv sd s" and "hm_get (slots s) w = Some r"
  shows "hm_get (pending s) i \<noteq> Some w"
  using assms by (auto simp: stdio_inv_def pending_ok_def)

lemma stdio_inv_deliver:
  assumes inv: "stdio_inv sd s"
  shows "stdio_inv sd (deliver sd line s)"
proof (cases "\<exists>i answer w. reader_line sd line = Some (i, answer) \<and> hm_get (pending s) i = Some w")
  case False
  then have "deliver sd line s = s\<lparr>heard := line # heard s\<rparr>"
    by (auto simp: deliver_def split: option.splits)
  with inv show ?thesis by (simp add: stdio_inv_defs) blast
next
  case True
  then obtain i answer w where r: "reader_line sd line = Some (i, answer)"
    and p: "hm_get (pending s) i = Some w" by blast
  with inv obtain c where c: "hm_get (calls s) w = Some c" "call_id c = i"
    "call_status c \<in> {Registered, Waiting}" by (auto simp: stdio_inv_def pending_ok_def)
  let ?t = "deliver sd line s"
  have t: "?t = s\<lparr>heard := line # heard s, pending := hm_remove i (pending s),
      slots := hm_insert w answer (slots s)\<rparr>"
    using r p by (simp add: deliver_def)
  have "pending_ok ?t"
    unfolding pending_ok_def
  proof (intro allI impI)
    fix j v
    assume "hm_get (pending ?t) j = Some v"
    then have j: "hm_get (pending s) j = Some v" "j \<noteq> i" by (auto simp: t split: if_splits)
    with removed_gone [OF inv c(1), of j] c(2) have "v \<noteq> w" by auto
    then show "(\<exists>c. hm_get (calls ?t) v = Some c \<and> call_id c = j \<and>
        call_status c \<in> {Registered, Waiting}) \<and> hm_get (slots ?t) v = None"
      using pending_call [OF inv j(1)] by (simp add: t)
  qed
  moreover have "slots_ok sd ?t"
    using slot_call [OF inv] r c by (fastforce simp: slots_ok_def t split: if_splits)
  moreover have "call_ok sd ?t v d" if "hm_get (calls ?t) v = Some d" for v d
  proof (cases "v = w")
    case True
    with that c have "d = c" by (simp add: t)
    with True c call_okD [OF inv c(1)] show ?thesis by (auto simp: call_ok_def)
  next
    case False
    with that call_okD [OF inv, of v d] show ?thesis by (simp add: t call_ok_def)
  qed
  ultimately show ?thesis using inv by (simp add: stdio_inv_def t)
qed

lemma status_of_Some: "status_of w s = Some st \<longleftrightarrow> (\<exists>c. hm_get (calls s) w = Some c \<and> call_status c = st)"
  by (auto simp: status_of_def)

lemma fresh_call:
  assumes "stdio_inv sd s" and "hm_get (calls s) w = None"
  shows "hm_get (slots s) w = None" and "hm_get (pending s) j \<noteq> Some w"
  using slot_call [OF assms(1), of w] pending_call(1) [OF assms(1), of j w] assms(2)
  by (cases "hm_get (slots s) w"; auto)+

lemma stdio_inv_enqueue:
  assumes inv: "stdio_inv sd s" and c: "hm_get (calls s) w = Some c" "call_status c = Registered"
  shows "stdio_inv sd ((set_status w Waiting s)\<lparr>queue := q\<rparr>)"
proof -
  have "call_id c = i" if "hm_get (pending s) i = Some w" for i
    using pending_call(1) [OF inv that] c by auto
  moreover have "\<exists>line. line \<in> set (heard s) \<and> reader_line sd line = Some (call_id c, r)"
    if "hm_get (slots s) w = Some r" for r
    using slot_call [OF inv that] c by auto
  moreover have "request_id sd (call_body c) = Inr (call_id c)"
    using call_okD [OF inv, of w c] c by (simp add: call_ok_def)
  ultimately show ?thesis
    using inv c unfolding stdio_inv_defs by (simp add: set_status_def split: if_splits)
qed

lemma stdio_inv_step:
  assumes inv: "stdio_inv sd s" and "stdio_step sd s e t"
  shows "stdio_inv sd t"
  using assms(2)
proof cases
  case (register w body i)
  then show ?thesis
    using inv fresh_call [OF inv, of w] unfolding stdio_inv_defs by (simp split: if_splits)
next
  case (reject w body e)
  then show ?thesis
    using inv fresh_call [OF inv, of w] unfolding stdio_inv_defs by (simp split: if_splits)
next
  case (enqueue w c)
  with inv show ?thesis by (simp add: stdio_inv_enqueue)
next
  case (write_stdin m ms)
  with inv show ?thesis by (simp add: stdio_inv_defs)
next
  case writer_end
  with inv show ?thesis by (simp add: stdio_inv_defs)
next
  case (closed w)
  then show ?thesis
    using inv by (auto simp: status_of_Some intro!: stdio_inv_end_call dest: removed_gone)
next
  case (read_line line)
  with inv show ?thesis by (simp add: stdio_inv_deliver)
next
  case read_end
  with inv show ?thesis by (auto simp: stdio_inv_defs drain_pending_def)
next
  case (response w r)
  then show ?thesis
    using inv by (auto simp: status_of_Some intro!: stdio_inv_end_call dest: slot_gone)
next
  case (dropped w)
  then have "hm_get (pending s) i \<noteq> Some w" for i
    by (metis map_of_SomeD snd_conv in_set_conv_nth image_eqI set_map)
  with dropped show ?thesis
    using inv by (auto simp: status_of_Some intro!: stdio_inv_end_call)
next
  case (timed_out w)
  then show ?thesis
    using inv by (auto simp: status_of_Some intro!: stdio_inv_end_call dest: removed_gone)
qed

interpretation stdio: invariant_system stdio_init "stdio_step sd" "stdio_inv sd"
proof unfold_locales
  show "stdio_init s \<Longrightarrow> stdio_inv sd s" for s
    by (simp add: stdio_init_def stdio_inv_defs)
  show "stdio_inv sd s \<Longrightarrow> stdio_step sd s e t \<Longrightarrow> stdio_inv sd t" for s e t
    by (rule stdio_inv_step)
qed

section \<open>Finished calls\<close>

lemma stdio_done_stable:
  assumes "stdio_step sd s e t" and "hm_get (calls s) w = Some c" and "call_status c = Done r"
  shows "hm_get (calls t) w = Some c"
  using assms
proof cases
  case (read_line line)
  then show ?thesis using assms(2) by (auto simp: deliver_def split: option.splits)
qed (auto simp: end_call_def set_status_def status_of_def split: option.splits prod.splits)

lemma stdio_done_not_pending:
  assumes "stdio_inv sd s" and "hm_get (calls s) w = Some c" and "call_status c = Done r"
  shows "w \<notin> set (hm_values (pending s))"
proof
  assume "w \<in> set (hm_values (pending s))"
  with assms(1) obtain i where "hm_get (pending s) i = Some w"
    unfolding stdio_inv_def using hm_value_iff by metis
  with pending_call(1) [OF assms(1) this] assms(2,3) show False by auto
qed

text \<open>The steps of a call itself, and how many it still has before it.\<close>

fun own_step :: "nat \<Rightarrow> stdio_event \<Rightarrow> bool" where
  "own_step w (Enqueue v) \<longleftrightarrow> v = w"
| "own_step w (EndCall v ending) \<longleftrightarrow> v = w"
| "own_step w _ \<longleftrightarrow> False"

fun steps_left :: "call_status \<Rightarrow> nat" where
  "steps_left Registered = 2"
| "steps_left Waiting = 1"
| "steps_left (Done r) = 0"

lemma deliver_calls [simp]: "calls (deliver sd line s) = calls s"
  by (simp add: deliver_def split: option.splits)

lemma set_status_get:
  "hm_get (calls (set_status v st s)) w =
     (if v = w then map_option (\<lambda>c. c\<lparr>call_status := st\<rparr>) (hm_get (calls s) w) else hm_get (calls s) w)"
  by (simp add: set_status_def split: option.splits)

lemma end_call_get:
  "v \<noteq> w \<Longrightarrow> hm_get (calls (end_call v e s)) w = hm_get (calls s) w"
  "hm_get (calls s) w = Some c \<Longrightarrow>
   \<exists>r. hm_get (calls (end_call w e s)) w = Some (c\<lparr>call_status := Done r\<rparr>)"
  by (auto simp: end_call_def set_status_get split: option.splits prod.splits)

lemma step_effect:
  assumes "stdio_step sd s e t" and c: "hm_get (calls s) w = Some c"
  shows "\<exists>c'. hm_get (calls t) w = Some c' \<and>
     (if own_step w e then steps_left (call_status c') < steps_left (call_status c) else c' = c)"
  using assms(1)
proof cases
  case (enqueue v d)
  with c show ?thesis by (auto simp: set_status_get)
next
  case (closed v)
  with c end_call_get(1) [of v w] end_call_get(2) [OF c] show ?thesis by (cases "v = w") (force simp: status_of_Some)+
next
  case (response v r)
  with c end_call_get(1) [of v w] end_call_get(2) [OF c] show ?thesis by (cases "v = w") (force simp: status_of_Some)+
next
  case (dropped v)
  with c end_call_get(1) [of v w] end_call_get(2) [OF c] show ?thesis by (cases "v = w") (force simp: status_of_Some)+
next
  case (timed_out v)
  with c end_call_get(1) [of v w] end_call_get(2) [OF c] show ?thesis by (cases "v = w") (force simp: status_of_Some)+
qed (use c in auto)

lemma own_step_enabled:
  assumes c: "hm_get (calls s) w = Some c"
  shows "(\<exists>e t. own_step w e \<and> stdio_step sd s e t) \<longleftrightarrow>
     steps_left (call_status c) \<noteq> 0 \<and>
     \<not> (call_status c = Registered \<and> taking s \<and> \<not> length (queue s) < STDIN_CAPACITY)"
    (is "?L \<longleftrightarrow> ?R")
proof
  assume ?L
  then obtain e t where own: "own_step w e" and step: "stdio_step sd s e t" by blast
  from step own c show ?R by cases (auto simp: status_of_Some)
next
  assume R: ?R
  show ?L
  proof (cases "call_status c")
    case Registered
    then have st: "status_of w s = Some Registered" using c by (simp add: status_of_def)
    show ?thesis
    proof (cases "taking s")
      case True
      with R Registered stdio_step.enqueue [OF c Registered] show ?thesis
        by (intro exI [of _ "Enqueue w"]) auto
    next
      case False
      from stdio_step.closed [OF st False] show ?thesis
        by (intro exI [of _ "EndCall w ChannelClosed"]) auto
    qed
  next
    case Waiting
    then have "status_of w s = Some Waiting" using c by (simp add: status_of_def)
    from stdio_step.timed_out [OF this] show ?thesis
      by (intro exI [of _ "EndCall w TimedOut"]) auto
  next
    case (Done r)
    with R show ?thesis by simp
  qed
qed

section \<open>The child's environment\<close>

lemma fold_env_get:
  "distinct (map fst es) \<Longrightarrow>
   hm_get (fold (\<lambda>(k, v). hm_insert k v) es m) k =
     (case hm_get es k of None \<Rightarrow> hm_get m k | Some v \<Rightarrow> Some v)"
proof (induction es arbitrary: m)
  case Nil
  then show ?case by simp
next
  case (Cons e es)
  obtain k' v' where e: "e = (k', v')" by (cases e)
  with Cons.prems have "hm_get es k' = None" by (simp add: map_of_eq_None_iff)
  with Cons e show ?case by (auto split: option.splits)
qed

lemma fold_allowed_get:
  "hm_get (fold (\<lambda>key m. case env key of None \<Rightarrow> m | Some val \<Rightarrow> hm_insert key val m) ks m) k =
     (if k \<in> set ks \<and> env k \<noteq> None then env k else hm_get m k)"
  by (induction ks arbitrary: m) (auto split: option.splits)

section \<open>One call as a run of the tasks\<close>

inductive stdio_run :: "serde \<Rightarrow> stdio_state \<Rightarrow> stdio_event list \<Rightarrow> stdio_state \<Rightarrow> bool" for sd where
  run_nil: "stdio_run sd s [] s"
| run_cons: "stdio_step sd s e t \<Longrightarrow> stdio_run sd t es u \<Longrightarrow> stdio_run sd s (e # es) u"

text \<open>The schedule of a call that ends in a given way; \<open>line\<close> is the child's answer.\<close>

fun call_schedule :: "nat \<Rightarrow> string \<Rightarrow> string \<Rightarrow> call_end \<Rightarrow> stdio_event list" where
  "call_schedule w body line ChannelClosed = [Begin w body, WriterEnd, EndCall w ChannelClosed]"
| "call_schedule w body line (Response r) =
     [Begin w body, Enqueue w, ReadLine line, EndCall w (Response r)]"
| "call_schedule w body line SenderDropped = [Begin w body, Enqueue w, ReadEnd, EndCall w SenderDropped]"
| "call_schedule w body line TimedOut = [Begin w body, Enqueue w, EndCall w TimedOut]"

definition idle :: "serde \<Rightarrow> stdio_state \<Rightarrow> nat \<Rightarrow> bool" where
  "idle sd s w \<longleftrightarrow> stdio_inv sd s \<and> hm_get (calls s) w = None \<and> reading s \<and> taking s"

definition room :: "stdio_state \<Rightarrow> bool" where
  "room s \<longleftrightarrow> length (queue s) < STDIN_CAPACITY"

lemma idle_slot: "idle sd s w \<Longrightarrow> hm_get (slots s) w = None"
  by (cases "hm_get (slots s) w") (auto simp: idle_def dest: slot_call)

definition registered :: "nat \<Rightarrow> u64 \<Rightarrow> string \<Rightarrow> stdio_state \<Rightarrow> stdio_state" where
  "registered w i body s =
     s\<lparr>pending := hm_insert i w (pending s),
       calls := hm_insert w \<lparr>call_id = i, call_body = body, call_status = Registered\<rparr> (calls s)\<rparr>"

definition enqueued :: "nat \<Rightarrow> u64 \<Rightarrow> string \<Rightarrow> stdio_state \<Rightarrow> stdio_state" where
  "enqueued w i body s = (set_status w Waiting (registered w i body s))\<lparr>queue := queue s @ [body]\<rparr>"

lemma registered_step:
  "idle sd s w \<Longrightarrow> request_id sd body = Inr i \<Longrightarrow>
   stdio_step sd s (Begin w body) (registered w i body s)"
  unfolding registered_def by (rule stdio_step.register) (simp_all add: idle_def)

lemma enqueued_step:
  "taking s \<Longrightarrow> room s \<Longrightarrow> stdio_step sd (registered w i body s) (Enqueue w) (enqueued w i body s)"
  using stdio_step.enqueue [of "registered w i body s" w
      "\<lparr>call_id = i, call_body = body, call_status = Registered\<rparr>" sd]
  by (simp add: registered_def enqueued_def room_def)

lemma enqueued_simps [simp]:
  "hm_get (calls (enqueued w i body s)) w = Some \<lparr>call_id = i, call_body = body, call_status = Waiting\<rparr>"
  "pending (enqueued w i body s) = hm_insert i w (pending s)"
  "slots (enqueued w i body s) = slots s" "reading (enqueued w i body s) = reading s"
  "taking (enqueued w i body s) = taking s" "queue (enqueued w i body s) = queue s @ [body]"
  by (simp_all add: enqueued_def registered_def set_status_def)

lemma run_call:
  assumes "idle sd s w" and "request_id sd body = Inr i" and "room s"
    and "stdio_run sd (enqueued w i body s) es t"
  shows "stdio_run sd s (Begin w body # Enqueue w # es) t"
  using assms registered_step enqueued_step unfolding idle_def by (blast intro: run_cons)

lemma run_one: "stdio_step sd s e t \<Longrightarrow> stdio_run sd s [e] t"
  by (blast intro: run_cons run_nil)

lemma end_call_result:
  "hm_get (calls s) w = Some c \<Longrightarrow>
   status_of w (end_call w e s) = Some (Done (fst (finish_call e (call_id c) (pending s))))"
  by (simp add: status_of_def end_call_calls)

lemma run_answered:
  assumes "idle sd s w" and "request_id sd body = Inr i" and "room s" and "reader_line sd line = Some (i, r)"
  shows "\<exists>t. stdio_run sd s (call_schedule w body line (Response r)) t \<and>
     status_of w t = Some (Done (Inr r)) \<and> pending t = hm_remove i (hm_insert i w (pending s))"
proof -
  let ?s = "deliver sd line (enqueued w i body s)"
  have d: "?s = (enqueued w i body s)\<lparr>heard := line # heard (enqueued w i body s),
      pending := hm_remove i (hm_insert i w (pending s)), slots := hm_insert w r (slots s)\<rparr>"
    using assms(4) by (simp add: deliver_def)
  then have "stdio_step sd ?s (EndCall w (Response r)) (end_call w (Response r) ?s)"
    by (intro stdio_step.response) (simp_all add: status_of_def)
  moreover have "stdio_step sd (enqueued w i body s) (ReadLine line) ?s"
    by (rule stdio_step.read_line) (use assms(1) in \<open>simp add: idle_def\<close>)
  ultimately have "stdio_run sd (enqueued w i body s) [ReadLine line, EndCall w (Response r)]
      (end_call w (Response r) ?s)"
    by (blast intro: run_cons run_one)
  from run_call [OF assms(1-3) this] d show ?thesis
    by (intro exI [of _ "end_call w (Response r) ?s"]) (simp add: end_call_result end_call_pending)
qed

lemma run_dropped:
  assumes "idle sd s w" and "request_id sd body = Inr i" and "room s"
  shows "\<exists>t. stdio_run sd s (call_schedule w body line SenderDropped) t \<and>
     status_of w t = Some (Done (Inl (ProcessExited ''response channel dropped''))) \<and> pending t = []"
proof -
  let ?s = "(enqueued w i body s)\<lparr>reading := False, pending := drain_pending (hm_insert i w (pending s))\<rparr>"
  have "stdio_step sd ?s (EndCall w SenderDropped) (end_call w SenderDropped ?s)"
    using idle_slot [OF assms(1)]
    by (intro stdio_step.dropped) (simp_all add: status_of_def drain_pending_def)
  moreover have "stdio_step sd (enqueued w i body s) ReadEnd ?s"
    using stdio_step.read_end [of "enqueued w i body s" sd] assms(1) by (simp add: idle_def)
  ultimately have "stdio_run sd (enqueued w i body s) [ReadEnd, EndCall w SenderDropped]
      (end_call w SenderDropped ?s)"
    by (blast intro: run_cons run_one)
  from run_call [OF assms(1-3) this] show ?thesis
    by (intro exI [of _ "end_call w SenderDropped ?s"])
      (simp add: end_call_result end_call_pending drain_pending_def)
qed

lemma call_schedule_runs:
  assumes "idle sd s w" and "request_id sd body = Inr i" and "room s"
    and "\<forall>r. ending = Response r \<longrightarrow> reader_line sd line = Some (i, r)"
  shows "\<exists>t. stdio_run sd s (call_schedule w body line ending) t \<and>
     status_of w t = Some (Done (fst (finish_call ending i (pending s)))) \<and>
     pending t = snd (finish_call ending i (others_did ending i (hm_insert i w (pending s))))"
proof (cases ending)
  case ChannelClosed
  let ?s = "registered w i body s"
  let ?t = "?s\<lparr>taking := False, queue := []\<rparr>"
  have c: "hm_get (calls ?t) w = Some \<lparr>call_id = i, call_body = body, call_status = Registered\<rparr>"
    by (simp add: registered_def)
  then have "stdio_step sd ?t (EndCall w ChannelClosed) (end_call w ChannelClosed ?t)"
    by (intro stdio_step.closed) (simp_all add: status_of_def)
  moreover have "stdio_step sd ?s WriterEnd ?t"
    using assms(1) by (intro stdio_step.writer_end) (simp add: idle_def registered_def)
  ultimately have "stdio_run sd s (call_schedule w body line ending) (end_call w ChannelClosed ?t)"
    using registered_step [OF assms(1,2)] ChannelClosed by (auto intro: run_cons run_one)
  with ChannelClosed c show ?thesis
    by (intro exI [of _ "end_call w ChannelClosed ?t"])
      (simp add: end_call_result end_call_pending registered_def)
next
  case (Response r)
  with run_answered [OF assms(1-3)] assms(4) show ?thesis by simp
next
  case SenderDropped
  with run_dropped [OF assms(1-3)] show ?thesis by (simp add: drain_pending_def)
next
  case TimedOut
  let ?s = "enqueued w i body s"
  have "stdio_step sd ?s (EndCall w TimedOut) (end_call w TimedOut ?s)"
    by (rule stdio_step.timed_out) (simp add: status_of_def)
  from run_call [OF assms(1-3) run_one [OF this]] TimedOut show ?thesis
    by (intro exI [of _ "end_call w TimedOut ?s"]) (simp add: end_call_result end_call_pending)
qed

text \<open>A full channel has room again once the writer has taken messages.\<close>

lemma idle_makes_room:
  "idle sd s w \<Longrightarrow>
   \<exists>es t. stdio_run sd s es t \<and> set es \<subseteq> {WriteStdin} \<and> idle sd t w \<and> room t \<and> pending t = pending s"
proof (induction "queue s" arbitrary: s)
  case Nil
  from Nil.hyps [symmetric] have "room s" by (simp add: room_def STDIN_CAPACITY_def)
  with Nil.prems show ?case by (intro exI [of _ "[]"] exI [of _ s]) (simp add: run_nil)
next
  case (Cons m ms)
  let ?t = "s\<lparr>queue := ms\<rparr>"
  have "stdio_step sd s WriteStdin ?t"
    using Cons.prems Cons.hyps(2) [symmetric] by (intro stdio_step.write_stdin) (simp_all add: idle_def)
  moreover have "idle sd ?t w" using Cons.prems by (simp add: idle_def stdio_inv_defs)
  then obtain es t where "stdio_run sd ?t es t" "set es \<subseteq> {WriteStdin}" "idle sd t w" "room t"
    "pending t = pending s"
    using Cons.hyps(1) [of ?t] by auto
  ultimately show ?case by (intro exI [of _ "WriteStdin # es"] exI [of _ t]) (auto intro: run_cons)
qed

lemma stdio_send_pending:
  "sb_pending (snd (stdio_send sd ending b body)) =
     (case request_id sd body of
        Inl _ \<Rightarrow> sb_pending b
      | Inr i \<Rightarrow> if ending = SenderDropped then [] else hm_remove i (sb_pending b))"
  by (cases ending)
    (auto simp: stdio_send_def drain_pending_def delete_update_same split: sum.splits)

text \<open>A handshake leaves no call behind.\<close>

lemma stdio_send_idle: "sb_pending b = [] \<Longrightarrow> sb_pending (snd (stdio_send sd ending b body)) = []"
  by (simp add: stdio_send_pending split: sum.splits)

lemma discover_stdio_tools_idle:
  assumes "sb_pending b = []"
  shows "sb_pending (snd (discover_stdio_tools sd rt ends notify b)) = []"
  using stdio_send_idle [OF assms, of sd "ends 0" "to_string_value sd init_req"]
    stdio_send_idle [of "snd (stdio_send sd (ends 0) b (to_string_value sd init_req))" sd "ends 1"
      "to_string_value sd list_req"]
  by (auto simp: discover_stdio_tools_def split: prod.splits sum.splits)

lemma stdio_run_reach: "stdio_run sd s es t \<Longrightarrow> reach stdio_init (stdio_step sd) s \<Longrightarrow>
    reach stdio_init (stdio_step sd) t"
  by (induction rule: stdio_run.induct) (auto intro: reach_step)

section \<open>The pipe to the child\<close>

interpretation child_pipe: framing stdin_line
proof unfold_locales
  fix m :: string
  assume m: "NL \<notin> set m"
  then have "\<not> ends_with m [NL]" by (auto simp: ends_with_def suffix_def)
  then show "stdin_line m = m @ [NL]" by (simp add: stdin_line_def)
qed

lemma stdin_writer_ok: "stdin_writer (\<lambda>_. None) n ms = concat (map stdin_line ms)"
  by (induction ms arbitrary: n) simp_all

text \<open>A sample JSON reader, and the idle state, for the witnesses.\<close>

definition demo_serde :: serde where
  "demo_serde =
     \<lparr>from_str_request = (\<lambda>s. Inl ''unsupported''), from_str_response = (\<lambda>s. Inl ''unsupported''),
      from_str_value = (\<lambda>s. if s = ''q'' \<or> s = ''a'' then Inr (JObject [(''id'', JNumber (PosInt 7))])
        else Inl ''expected value''),
      to_string_value = (\<lambda>v. ''q''), to_string_response = (\<lambda>r. '''')\<rparr>"

definition demo_idle :: stdio_state where
  "demo_idle = \<lparr>pending = [], calls = [], slots = [], heard = [], queue = [], taking = True, reading = True\<rparr>"

lemma demo_idle: "stdio_init demo_idle" "idle demo_serde demo_idle w"
  by (simp_all add: demo_idle_def stdio_init_def idle_def stdio_inv_defs)

lemma demo_room: "room demo_idle"
  by (simp add: room_def demo_idle_def STDIN_CAPACITY_def)

lemma demo_reach: "reach stdio_init (stdio_step demo_serde) demo_idle"
  using demo_idle(1) by (rule reach_init)

lemma demo_request: "request_id demo_serde ''q'' = Inr 7"
  by (simp add: request_id_def demo_serde_def)

lemma demo_line: "reader_line demo_serde ''a'' = Some (7, ''a'')"
proof -
  have "trim ''a'' = ''a''"
    by (rule trim_id) (simp_all add: ws_head_def ws_last_def ws_chars_def suffix_def)
  then show ?thesis by (simp add: reader_line_def demo_serde_def)
qed

text \<open>Calls to a child that reads nothing, one after the other, each until its time-out.\<close>

lemma timed_out_calls:
  "n \<le> STDIN_CAPACITY \<Longrightarrow>
   \<exists>s. reach stdio_init (stdio_step demo_serde) s \<and> length (queue s) = n \<and>
     (\<forall>w \<ge> n. idle demo_serde s w) \<and>
     (\<forall>w < n. status_of w s = Some (Done (Inl (InvalidResponse ''request timed out''))))"
proof (induction n)
  case 0
  have "length (queue demo_idle) = 0" by (simp add: demo_idle_def)
  then show ?case using demo_reach demo_idle(2) by auto
next
  case (Suc n)
  then obtain s where s: "reach stdio_init (stdio_step demo_serde) s" "length (queue s) = n"
    "\<forall>w \<ge> n. idle demo_serde s w"
    "\<forall>w < n. status_of w s = Some (Done (Inl (InvalidResponse ''request timed out'')))" by auto
  let ?e = "enqueued n 7 ''q'' s"
  let ?t = "end_call n TimedOut ?e"
  have room: "room s" using Suc.prems s(2) by (simp add: room_def)
  have "stdio_step demo_serde ?e (EndCall n TimedOut) ?t"
    by (rule stdio_step.timed_out) (simp add: status_of_def)
  then have "stdio_run demo_serde s [Begin n ''q'', Enqueue n, EndCall n TimedOut] ?t"
    using run_call [OF _ demo_request room run_one] s(3) by blast
  then have reach: "reach stdio_init (stdio_step demo_serde) ?t" using s(1) by (rule stdio_run_reach)
  have other: "hm_get (calls ?t) w = hm_get (calls s) w" if "w \<noteq> n" for w
    using that end_call_get(1) [of n w] by (simp add: enqueued_def registered_def set_status_get)
  have self: "status_of n ?t = Some (Done (Inl (InvalidResponse ''request timed out'')))"
    by (simp add: end_call_result [OF enqueued_simps(1)])
  have "length (queue ?t) = Suc n" using s(2) by simp
  moreover have "idle demo_serde ?t w" if "w \<ge> Suc n" for w
    using s(3) that other [of w] stdio.reach_inv [OF reach] by (auto simp: idle_def)
  moreover have "status_of w ?t = Some (Done (Inl (InvalidResponse ''request timed out'')))" if "w < Suc n" for w
    using that s(4) self other [of w] by (cases "w = n") (auto simp: status_of_def)
  ultimately show ?case using reach by blast
qed

section \<open>Properties\<close>

text \<open>
  C19: Responses never go to the wrong call. In every state the tasks can reach, under any
  interleaving of calls, child output and process exit, a call that returned a response returned a
  line that the child wrote and that carries the id of that call's own request.
\<close>

theorem stdio_response_matches:
  assumes "reach stdio_init (stdio_step sd) s"
    and "hm_get (calls s) w = Some c" and "call_status c = Done (Inr r)"
  shows "request_id sd (call_body c) = Inr (call_id c) \<and>
         (\<exists>line \<in> set (heard s). reader_line sd line = Some (call_id c, r))"
proof -
  have inv: "stdio_inv sd s" using assms(1) by (rule stdio.reach_inv)
  have ok: "call_ok sd s w c" using inv assms(2) by (rule call_okD)
  then have "hm_get (slots s) w = Some r" using assms(3) by (simp add: call_ok_def)
  from slot_call [OF inv this] ok assms(2,3) show ?thesis by (auto simp: call_ok_def)
qed

theorem stdio_response_matches_witness:
  "\<exists>(s :: stdio_state) c. hm_get (calls s) 0 = Some c \<and> call_status c = Done (Inr ''a'') \<and>
     request_id demo_serde (call_body c) = Inr (call_id c) \<and>
     (\<exists>line \<in> set (heard s). reader_line demo_serde line = Some (call_id c, ''a''))"
proof -
  obtain t where run: "stdio_run demo_serde demo_idle (call_schedule 0 ''q'' ''a'' (Response ''a'')) t"
    and st: "status_of 0 t = Some (Done (Inr ''a''))"
    using call_schedule_runs [OF demo_idle(2) demo_request demo_room, of "Response ''a''" "''a''" 0] demo_line
    by auto
  have t: "reach stdio_init (stdio_step demo_serde) t"
    using run demo_reach by (rule stdio_run_reach)
  obtain c where c: "hm_get (calls t) 0 = Some c" "call_status c = Done (Inr ''a'')"
    using st by (auto simp: status_of_Some)
  from c stdio_response_matches [OF t c] show ?thesis by (intro exI [of _ t] exI [of _ c] conjI) simp_all
qed

text \<open>
  C20: Calls settle unless the channel to the child is full. A call takes at most two steps of its own,
  into the channel and to its end, and no step of another task, such as a line, the exit of the child
  or another call, changes it or is needed for its time-out. A step of its own is possible at
  every moment of an unfinished call with one exception: a call that is not yet in the channel
  waits, without a time-out, while the writer task is alive and the channel holds 64 messages. A finished
  call has no pending entry.
\<close>

theorem stdio_calls_settle:
  assumes "reach stdio_init (stdio_step sd) s" and "hm_get (calls s) w = Some c"
  shows "(\<forall>e t. stdio_step sd s e t \<longrightarrow>
            (\<exists>c'. hm_get (calls t) w = Some c' \<and>
               (if own_step w e then steps_left (call_status c') < steps_left (call_status c) else c' = c))) \<and>
         steps_left (call_status c) \<le> 2 \<and>
         ((\<exists>e t. own_step w e \<and> stdio_step sd s e t) \<longleftrightarrow> steps_left (call_status c) \<noteq> 0 \<and>
            \<not> (call_status c = Registered \<and> taking s \<and> 64 \<le> length (queue s))) \<and>
         (steps_left (call_status c) = 0 \<longrightarrow> w \<notin> set (hm_values (pending s)))"
proof (intro conjI)
  show "\<forall>e t. stdio_step sd s e t \<longrightarrow>
      (\<exists>c'. hm_get (calls t) w = Some c' \<and>
         (if own_step w e then steps_left (call_status c') < steps_left (call_status c) else c' = c))"
    using step_effect [OF _ assms(2)] by blast
  show "steps_left (call_status c) \<le> 2" by (cases "call_status c") simp_all
  show "(\<exists>e t. own_step w e \<and> stdio_step sd s e t) \<longleftrightarrow> steps_left (call_status c) \<noteq> 0 \<and>
      \<not> (call_status c = Registered \<and> taking s \<and> 64 \<le> length (queue s))"
    using own_step_enabled [OF assms(2), of sd] by (simp add: STDIN_CAPACITY_def not_less)
  show "steps_left (call_status c) = 0 \<longrightarrow> w \<notin> set (hm_values (pending s))"
    using stdio_done_not_pending [OF stdio.reach_inv [OF assms(1)] assms(2)]
    by (cases "call_status c") simp_all
qed

theorem stdio_calls_settle_witness:
  "let s = enqueued 0 7 ''q'' demo_idle in
   (\<exists>e t. own_step 0 e \<and> stdio_step demo_serde s e t) \<and>
   (\<forall>e t. stdio_step demo_serde s e t \<longrightarrow> own_step 0 e \<longrightarrow>
      (\<exists>r. status_of 0 t = Some (Done r)))"
proof -
  let ?s = "enqueued 0 7 ''q'' demo_idle"
  have "stdio_run demo_serde demo_idle (Begin 0 ''q'' # Enqueue 0 # []) ?s"
    by (rule run_call [OF demo_idle(2) demo_request demo_room run_nil])
  then have "reach stdio_init (stdio_step demo_serde) ?s"
    using demo_reach by (rule stdio_run_reach)
  note settle = stdio_calls_settle [OF this enqueued_simps(1), simplified]
  have "\<exists>r. status_of 0 t = Some (Done r)" if step: "stdio_step demo_serde ?s e t" and own: "own_step 0 e" for e t
  proof -
    obtain c' where "hm_get (calls t) 0 = Some c'" "steps_left (call_status c') < 1"
      using settle step own by fastforce
    then show ?thesis by (cases "call_status c'") (simp_all add: status_of_def)
  qed
  with settle show ?thesis by (simp add: Let_def)
qed

text \<open>
  The exception is real: a child that reads nothing, while each call to it times out, leaves 64
  messages in the channel, and the next call can make no step at all.
\<close>

theorem full_channel_blocks:
  "\<exists>s. reach stdio_init (stdio_step demo_serde) s \<and>
     (\<forall>w < 64. status_of w s = Some (Done (Inl (InvalidResponse ''request timed out'')))) \<and>
     status_of 64 s = Some Registered \<and> (\<forall>e t. stdio_step demo_serde s e t \<longrightarrow> \<not> own_step 64 e)"
proof -
  obtain s where s: "reach stdio_init (stdio_step demo_serde) s" "idle demo_serde s 64"
    "length (queue s) = 64" "\<forall>w < 64. status_of w s = Some (Done (Inl (InvalidResponse ''request timed out'')))"
    using timed_out_calls [of 64] by (auto simp: STDIN_CAPACITY_def)
  let ?t = "registered 64 7 ''q'' s"
  have "reach stdio_init (stdio_step demo_serde) ?t"
    using s(1) registered_step [OF s(2) demo_request] by (rule reach_step)
  moreover have c: "hm_get (calls ?t) 64 = Some \<lparr>call_id = 7, call_body = ''q'', call_status = Registered\<rparr>"
    by (simp add: registered_def)
  moreover have "\<not> (\<exists>e t. own_step 64 e \<and> stdio_step demo_serde ?t e t)"
    using own_step_enabled [OF c, of demo_serde] s(2,3)
    by (simp add: idle_def registered_def STDIN_CAPACITY_def)
  ultimately show ?thesis
    using s(4) by (intro exI [of _ ?t]) (auto simp: status_of_def registered_def)
qed

text \<open>
  The call function of the gateway agrees with the concurrent tasks: for every way a call can
  end there is a schedule of the tasks in which the call returns what \<open>stdio_send\<close> returns and the
  pending map is left as \<open>stdio_send\<close> leaves it, without the call's id.
\<close>

theorem stdio_send_realised:
  assumes "idle sd s w" and "request_id sd body = Inr i" and "room s"
    and "sb_pending b = pending s"
    and "\<forall>r. ending = Response r \<longrightarrow> reader_line sd line = Some (i, r)"
  shows "\<exists>t. stdio_run sd s (call_schedule w body line ending) t \<and>
     status_of w t = Some (Done (fst (stdio_send sd ending b body))) \<and>
     pending t = sb_pending (snd (stdio_send sd ending b body)) \<and>
     hm_get (pending t) i = None"
proof -
  obtain t where t: "stdio_run sd s (call_schedule w body line ending) t"
    "status_of w t = Some (Done (fst (finish_call ending i (pending s))))"
    "pending t = snd (finish_call ending i (others_did ending i (hm_insert i w (pending s))))"
    using call_schedule_runs [OF assms(1,2,3,5)] by blast
  have r: "fst (stdio_send sd ending b body) = fst (finish_call ending i (pending s))"
    using assms(2) by (cases ending) (simp_all add: stdio_send_def)
  have "pending t = sb_pending (snd (stdio_send sd ending b body))"
    using t(3) assms(2,4)
    by (cases ending) (simp_all add: stdio_send_pending drain_pending_def delete_update_same)
  with t(1,2) r assms(2) show ?thesis by (auto simp: stdio_send_pending)
qed

theorem stdio_send_realised_witness:
  "\<exists>t. stdio_run demo_serde demo_idle (call_schedule 0 ''q'' ''a'' (Response ''a'')) t \<and>
     status_of 0 t = Some (Done (Inr ''a'')) \<and> hm_get (pending t) 7 = None"
proof -
  let ?b = "\<lparr>sb_name = ''b'', sb_pending = [], sb_pid = 1, sb_timeout = sec 1\<rparr>"
  have "fst (stdio_send demo_serde (Response ''a'') ?b ''q'') = Inr ''a''"
    by (simp add: stdio_send_def demo_request)
  then show ?thesis
    using stdio_send_realised [OF demo_idle(2) demo_request demo_room, of ?b "Response ''a''" "''a''" 0]
      demo_line by (auto simp: demo_idle_def)
qed

text \<open>
  C32: A child process sees exactly the allowed variables of the gateway's environment and the
  variables configured for it, the configured value taking precedence: no other variable of the
  gateway, such as a secret, reaches it.
\<close>

theorem child_env_exact:
  assumes "hm_wf (bc_env config)"
  shows "hm_get (child_env env config) k =
     (case hm_get (bc_env config) k of
        Some v \<Rightarrow> Some v
      | None \<Rightarrow> if k \<in> set allowed_env then env k else None)"
  using assms
  by (auto simp: child_env_def fold_env_get fold_allowed_get hm_wf_def split: option.splits)

definition demo_child :: BackendConfig where
  "demo_child =
     \<lparr>bc_name = ''c'', backend_type = Stdio, bc_url = None, bc_command = Some ''node'', bc_args = [],
      bc_env = [(''API_KEY'', ''k'')], timeout_secs = 60, retries = 3, restart_on_exit = True,
      max_restarts = 5, health_interval_secs = 300, circuit_breaker_threshold = 5,
      circuit_breaker_recovery_secs = 30\<rparr>"

theorem child_env_exact_witness:
  "hm_get (child_env (\<lambda>k. Some ''v'') demo_child) ''API_KEY'' = Some ''k'' \<and>
   hm_get (child_env (\<lambda>k. Some ''v'') demo_child) ''PATH'' = Some ''v'' \<and>
   hm_get (child_env (\<lambda>k. Some ''v'') demo_child) ''JWT_SECRET_KEY'' = None"
proof -
  have "hm_wf (bc_env demo_child)" by (simp add: demo_child_def hm_wf_def)
  note child_env_exact [OF this, of "\<lambda>k. Some ''v''"]
  then show ?thesis by (simp add: demo_child_def allowed_env_def)
qed

text \<open>
  What the gateway writes to a child is what the child reads: each message arrives as one line,
  in order, and nothing else does.
\<close>

theorem stdin_writer_roundtrip:
  assumes "list_all wire_message ms"
  shows "stdio_reader (\<lambda>_. True) 0 (read_lines (stdin_writer (\<lambda>_. None) 0 ms)) = ms"
  using child_pipe.frames_received [OF assms] by (simp add: stdin_writer_ok)

theorem stdin_writer_roundtrip_witness:
  "stdio_reader (\<lambda>_. True) 0 (read_lines (stdin_writer (\<lambda>_. None) 0 [''{}'', ''[]''])) = [''{}'', ''[]'']"
proof (rule stdin_writer_roundtrip)
  have "trim_end ''{}'' = ''{}''" "trim_end ''[]'' = ''[]''"
    by (rule trim_end_id; simp add: ws_last_def ws_chars_def suffix_def)+
  then show "list_all wire_message [''{}'', ''[]'']"
    by (simp add: wire_message_def valid_utf8_ascii)
qed

end
