(* ===== verification/Gateway.thy ===== *)
theory Gateway
  imports Mcp Id_Remapper Auth Hot_Config Circuit_Breaker Validation Metrics Audit_Log Backend_Stdio
begin

text \<open>
  The dispatch loop of \<^verbatim>\<open>src/src/gateway.rs\<close>. A message is handled by \<open>dispatch_line\<close>, which composes
  the handlers of the methods; \<^verbatim>\<open>tools/call\<close> goes through the guards in the order of the source and
  then to \<open>handle_tools_call\<close>. A handler returns its effects in order and the new state.

  \<^item> \<open>gw_ctx\<close> is what does not change while the loop runs: the catalog, the caller, the RBAC rules,
    the schema cache, whether audit and metrics are on, and the parameters for third-party code.
  \<^item> \<open>gw_state\<close> is what does: the MCP state, the id table, the hot configuration, the breakers and
    the backends (whose stdio variant has a map of pending calls).
  \<^item> \<open>msg_env\<close> is what the outside world contributes to one message: the request id, the readings
    of the clocks, the network's answers, and how a stdio call ends.

  The effect \<open>BackendCall\<close> is one call of \<^verbatim>\<open>Backend::send\<close>: the attempts of the retry loop inside it are in
  the theory Backend_Http, and whether the body reached a child is in Backend_Stdio. The model of a
  message covers sends that return; on a stdio backend whose child reads nothing one may wait
  for ever (\<open>full_channel_blocks\<close>).

  Sending on a channel whose receiver is gone, or auditing into a full channel, is only logged by
  the source, so the effects list what is sent. The loop holds the read lock of the hot
  configuration from the kill switch to the rate limit, so a reload happens between messages or
  after those guards, where nothing reads it again before the next message.
\<close>

section \<open>State\<close>

datatype Backend = HttpB HttpBackend | StdioB StdioBackend

definition NOT_INITIALIZED_CODE :: i32 where "NOT_INITIALIZED_CODE = -32002"
definition AUTHZ_ERROR :: i32 where "AUTHZ_ERROR = -32003"

record 'v gw_ctx =
  g_catalog :: ToolCatalog
  g_caller :: CallerIdentity
  g_rbac :: RbacConfig
  g_audit :: bool
  g_metrics :: bool
  g_schema :: "'v SchemaCache"
  g_iter_errors :: "'v \<Rightarrow> json \<Rightarrow> (string \<times> string) list"
  g_serde :: serde
  g_read_params :: "json \<Rightarrow> string + unit"
  g_print_result :: "InitializeResult \<Rightarrow> string + json"
  g_print_tools :: "Tool list \<Rightarrow> json"

record gw_state =
  mcp :: McpState
  remapper :: IdRemapper
  hot :: HotConfig
  breakers :: "(string, CircuitBreaker) hashmap"
  backends :: "(string, Backend) hashmap"

record msg_env =
  me_uuid :: string
  me_utc :: nat
  me_start :: nanos
  me_latency_ms :: nanos
  me_latency_secs :: nanos
  me_rl_new :: nanos
  me_rl_elapsed :: nanos
  me_rl_refill :: nanos
  me_cb_allow :: nanos
  me_cb_failure :: nanos
  me_random :: "u32 \<Rightarrow> u64 \<Rightarrow> u64"
  me_net :: network
  me_stdio :: call_end

datatype effect =
    Send JsonRpcResponse
  | Audit AuditEntry
  | Metric metric_op
  | BackendCall string string

section \<open>Shared pieces of the handlers\<close>

definition backend_label :: "ToolCatalog \<Rightarrow> string \<Rightarrow> string" where
  "backend_label c name = (case route c name of None \<Rightarrow> ''unknown'' | Some b \<Rightarrow> b)"

definition record_metrics :: "'v gw_ctx \<Rightarrow> metric_op list \<Rightarrow> effect list" where
  "record_metrics ctx ops = (if g_metrics ctx then map Metric ops else [])"

definition audit ::
  "'v gw_ctx \<Rightarrow> msg_env \<Rightarrow> string \<Rightarrow> string \<Rightarrow> json option \<Rightarrow> string \<Rightarrow> string option \<Rightarrow> i64 \<Rightarrow> effect list" where
  "audit ctx env tool backend args status err latency =
     (if g_audit ctx
      then [Audit \<lparr>ae_request_id = me_uuid env, ae_timestamp = me_utc env,
              ae_client_subject = ci_subject (g_caller ctx), ae_client_role = ci_role (g_caller ctx),
              ae_tool_name = tool, ae_backend_name = backend, ae_request_args = args,
              ae_response_status = status, ae_error_message = err, ae_latency_ms = latency\<rparr>]
      else [])"

text \<open>A request's id, or null where the source falls back to it.\<close>

definition id_or_null :: "JsonRpcRequest \<Rightarrow> JsonRpcId" where
  "id_or_null r = (case req_id r of None \<Rightarrow> Null | Some i \<Rightarrow> i)"

definition called_tool :: "json option \<Rightarrow> string option" where
  "called_tool params = Option.bind params (\<lambda>p. Option.bind (get ''name'' p) as_str)"

section \<open>The guards of tools/call\<close>

text \<open>A guard that refuses returns the effects of the refusal.\<close>

definition kill_tool_guard ::
  "'v gw_ctx \<Rightarrow> msg_env \<Rightarrow> gw_state \<Rightarrow> JsonRpcRequest \<Rightarrow> string \<Rightarrow> effect list option" where
  "kill_tool_guard ctx env st r name =
     (if name \<in> set (disabled_tools (kill_switch (hot st)))
      then Some
        (record_metrics ctx (record_request name ''killed'' 0) @
         [Send (mk_error (id_or_null r) KILL_SWITCH_ERROR (''Tool is disabled: '' @ name))] @
         audit ctx env name (backend_label (g_catalog ctx) name) (req_params r) ''killed''
           (Some (''Tool is disabled: '' @ name)) 0)
      else None)"

definition kill_backend_guard ::
  "'v gw_ctx \<Rightarrow> msg_env \<Rightarrow> gw_state \<Rightarrow> JsonRpcRequest \<Rightarrow> string \<Rightarrow> effect list option" where
  "kill_backend_guard ctx env st r name =
     (case route (g_catalog ctx) name of
        None \<Rightarrow> None
      | Some backend_name \<Rightarrow>
          if backend_name \<in> set (disabled_backends (kill_switch (hot st)))
          then Some
            (record_metrics ctx (record_request name ''killed'' 0) @
             [Send (mk_error (id_or_null r) KILL_SWITCH_ERROR (''Backend is disabled: '' @ backend_name))] @
             audit ctx env name backend_name (req_params r) ''killed''
               (Some (''Backend is disabled: '' @ backend_name)) 0)
          else None)"

text \<open>\<^verbatim>\<open>retry_after.ceil() as u64\<close>, from nanoseconds.\<close>

definition ceil_secs :: "nanos \<Rightarrow> u64" where
  "ceil_secs ns = of_nat ((ns + 999999999) div 1000000000)"

definition rate_limit_guard ::
  "'v gw_ctx \<Rightarrow> msg_env \<Rightarrow> gw_state \<Rightarrow> JsonRpcRequest \<Rightarrow> string \<Rightarrow> effect list option \<times> gw_state" where
  "rate_limit_guard ctx env st r name =
     (case check (rate_limiter (hot st)) (ci_subject (g_caller ctx)) name
             (me_rl_new env) (me_rl_elapsed env) (me_rl_refill env) of
        (res, rl) \<Rightarrow>
          (case res of
             Inr _ \<Rightarrow> None
           | Inl retry_after \<Rightarrow> Some
               (record_metrics ctx (record_request name ''rate_limited'' 0 @ record_rate_limit_hit name) @
                [Send (error_with_data (id_or_null r) RATE_LIMIT_ERROR
                   (''Rate limit exceeded for tool: '' @ name)
                   (JObject [(''retryAfter'', JNumber (PosInt (ceil_secs retry_after)))]))] @
                audit ctx env name (backend_label (g_catalog ctx) name) (req_params r) ''rate_limited''
                  (Some (''Rate limit exceeded for tool: '' @ name)) 0),
           st\<lparr>hot := (hot st)\<lparr>rate_limiter := rl\<rparr>\<rparr>))"

definition rbac_guard ::
  "'v gw_ctx \<Rightarrow> msg_env \<Rightarrow> JsonRpcRequest \<Rightarrow> string \<Rightarrow> effect list option" where
  "rbac_guard ctx env r name =
     (if \<not> is_tool_allowed (ci_role (g_caller ctx)) name Execute (g_rbac ctx)
      then Some
        (record_metrics ctx (record_request name ''denied'' 0) @
         [Send (mk_error (id_or_null r) AUTHZ_ERROR (''Permission denied for tool: '' @ name))] @
         audit ctx env name (backend_label (g_catalog ctx) name) (req_params r) ''denied''
           (Some (''Permission denied for tool: '' @ name)) 0)
      else None)"

definition schema_guard ::
  "'v gw_ctx \<Rightarrow> msg_env \<Rightarrow> JsonRpcRequest \<Rightarrow> string \<Rightarrow> effect list option" where
  "schema_guard ctx env r name =
     (case Option.bind (req_params r) (get ''arguments'') of
        None \<Rightarrow> None
      | Some arguments \<Rightarrow>
          (case schema_validate (g_iter_errors ctx) (g_schema ctx) name arguments of
             Inr _ \<Rightarrow> None
           | Inl errors \<Rightarrow>
               (let error_msg = ''Invalid arguments for tool '' @ name @ '': '' @ join ''; '' errors in
                Some
                  (record_metrics ctx (record_request name ''invalid_args'' 0) @
                   [Send (mk_error (id_or_null r) INVALID_PARAMS error_msg)] @
                   audit ctx env name (backend_label (g_catalog ctx) name) (req_params r)
                     ''invalid_args'' (Some error_msg) 0))))"

definition circuit_guard ::
  "'v gw_ctx \<Rightarrow> msg_env \<Rightarrow> gw_state \<Rightarrow> JsonRpcRequest \<Rightarrow> string \<Rightarrow> effect list option \<times> gw_state" where
  "circuit_guard ctx env st r name =
     (case route (g_catalog ctx) name of
        None \<Rightarrow> (None, st)
      | Some backend_name \<Rightarrow>
          (case hm_get (breakers st) backend_name of
             None \<Rightarrow> (None, st)
           | Some cb \<Rightarrow>
               (case allow_request (me_cb_allow env) cb of
                  (allowed, cb') \<Rightarrow>
                    (if \<not> allowed
                     then Some
                       (record_metrics ctx (record_request name ''circuit_open'' 0) @
                        [Send (mk_error (id_or_null r) CIRCUIT_OPEN_ERROR
                           (''Backend circuit open: '' @ backend_name))] @
                        audit ctx env name backend_name (req_params r) ''circuit_open''
                          (Some (''Backend circuit open: '' @ backend_name)) 0)
                     else None,
                     st\<lparr>breakers := hm_insert backend_name cb' (breakers st)\<rparr>))))"

text \<open>The guards in the order of the source; the first refusal ends the handling.\<close>

definition tools_call_guards ::
  "'v gw_ctx \<Rightarrow> msg_env \<Rightarrow> gw_state \<Rightarrow> JsonRpcRequest \<Rightarrow> string \<Rightarrow> effect list option \<times> gw_state" where
  "tools_call_guards ctx env st r name =
     (case kill_tool_guard ctx env st r name of
        Some effs \<Rightarrow> (Some effs, st)
      | None \<Rightarrow>
     (case kill_backend_guard ctx env st r name of
        Some effs \<Rightarrow> (Some effs, st)
      | None \<Rightarrow>
     (case rate_limit_guard ctx env st r name of
        (Some effs, st) \<Rightarrow> (Some effs, st)
      | (None, st) \<Rightarrow>
     (case rbac_guard ctx env r name of
        Some effs \<Rightarrow> (Some effs, st)
      | None \<Rightarrow>
     (case schema_guard ctx env r name of
        Some effs \<Rightarrow> (Some effs, st)
      | None \<Rightarrow> circuit_guard ctx env st r name)))))"

section \<open>Calling a backend\<close>

definition backend_send ::
  "serde \<Rightarrow> msg_env \<Rightarrow> Backend \<Rightarrow> string \<Rightarrow> (BackendError + string) \<times> Backend" where
  "backend_send sd env backend body =
     (case backend of
        HttpB h \<Rightarrow> (fst (http_send (me_random env) (me_net env) h body), HttpB h)
      | StdioB s \<Rightarrow> (case stdio_send sd (me_stdio env) s body of (r, s') \<Rightarrow> (r, StdioB s')))"

definition outbound :: "u64 \<Rightarrow> json option \<Rightarrow> json" where
  "outbound gateway_id params =
     JObject
       [(''id'', JNumber (PosInt gateway_id)),
        (''jsonrpc'', JString ''2.0''),
        (''method'', JString ''tools/call''),
        (''params'', case params of None \<Rightarrow> JNull | Some p \<Rightarrow> p)]"

definition update_breaker ::
  "string \<Rightarrow> (CircuitBreaker \<Rightarrow> CircuitBreaker) \<Rightarrow> gw_state \<Rightarrow> gw_state" where
  "update_breaker b f st =
     (case hm_get (breakers st) b of
        None \<Rightarrow> st
      | Some cb \<Rightarrow> st\<lparr>breakers := hm_insert b (f cb) (breakers st)\<rparr>)"

text \<open>Taking the original id back out of the table.\<close>

definition restore_id :: "u64 \<Rightarrow> gw_state \<Rightarrow> JsonRpcId option \<times> gw_state" where
  "restore_id gateway_id st =
     (case restore gateway_id (remapper st) of
        (r, tbl) \<Rightarrow> (map_option fst r, st\<lparr>remapper := tbl\<rparr>))"

definition unwrap_id :: "JsonRpcId option \<Rightarrow> JsonRpcId" where
  "unwrap_id i = (case i of None \<Rightarrow> Null | Some x \<Rightarrow> x)"

definition backend_answer ::
  "serde \<Rightarrow> msg_env \<Rightarrow> string \<Rightarrow> u64 \<Rightarrow> BackendError + string \<Rightarrow> gw_state \<Rightarrow> JsonRpcResponse \<times> gw_state" where
  "backend_answer sd env backend_name gateway_id res st =
     (case res of
        Inr response_str \<Rightarrow>
          (let st = update_breaker backend_name record_success st in
           (case restore_id gateway_id st of
              (original, st) \<Rightarrow>
                (case from_str_response sd response_str of
                   Inr backend_resp \<Rightarrow>
                     (case original of
                        None \<Rightarrow> backend_resp
                      | Some original_id \<Rightarrow> backend_resp\<lparr>resp_id := original_id\<rparr>, st)
                 | Inl e \<Rightarrow>
                     (mk_error (unwrap_id original) INTERNAL_ERROR (''Invalid backend response: '' @ e), st))))
      | Inl e \<Rightarrow>
          (let st = update_breaker backend_name (record_failure (me_cb_failure env)) st in
           (case restore_id gateway_id st of
              (original, st) \<Rightarrow>
                (mk_error (unwrap_id original) INTERNAL_ERROR
                   (''Backend error: '' @ backend_error_display e), st))))"

definition handle_tools_call ::
  "serde \<Rightarrow> msg_env \<Rightarrow> ToolCatalog \<Rightarrow> JsonRpcId \<Rightarrow> json option \<Rightarrow> gw_state \<Rightarrow>
   effect list \<times> JsonRpcResponse \<times> gw_state" where
  "handle_tools_call sd env catalog client_id params st =
     (case called_tool params of
        None \<Rightarrow> ([], mk_error client_id INVALID_PARAMS ''Missing tool name in params'', st)
      | Some name \<Rightarrow>
     (case route catalog name of
        None \<Rightarrow> ([], mk_error client_id INVALID_PARAMS (''Unknown tool: '' @ name), st)
      | Some backend_name \<Rightarrow>
     (case hm_get (backends st) backend_name of
        None \<Rightarrow> ([], mk_error client_id INTERNAL_ERROR (''Backend unavailable: '' @ backend_name), st)
      | Some backend \<Rightarrow>
          (case remap client_id backend_name (remapper st) of
             (gateway_id, tbl) \<Rightarrow>
               (let body = to_string_value sd (outbound gateway_id params) in
                (case backend_send sd env backend body of
                   (res, backend') \<Rightarrow>
                     (case backend_answer sd env backend_name gateway_id res
                             (st\<lparr>remapper := tbl,
                                 backends := hm_insert backend_name backend' (backends st)\<rparr>) of
                        (resp, st) \<Rightarrow> ([BackendCall backend_name body], resp, st))))))))"

section \<open>The handlers\<close>

definition handle_initialize_method ::
  "'v gw_ctx \<Rightarrow> JsonRpcRequest \<Rightarrow> gw_state \<Rightarrow> effect list \<times> gw_state" where
  "handle_initialize_method ctx r st =
     (let id = id_or_null r;
          params = (case req_params r of None \<Rightarrow> JObject [] | Some p \<Rightarrow> p)
      in ([Send (case handle_initialize (g_read_params ctx) (g_print_result ctx) params of
                   Inr result \<Rightarrow> resp_success id result
                 | Inl (code, message) \<Rightarrow> mk_error id code message)],
          st\<lparr>mcp := Initializing\<rparr>))"

definition visible_tools :: "'v gw_ctx \<Rightarrow> gw_state \<Rightarrow> Tool list" where
  "visible_tools ctx st =
     filter
       (\<lambda>tool.
          if tool_name tool \<in> set (disabled_tools (kill_switch (hot st))) then False
          else if (case route (g_catalog ctx) (tool_name tool) of
                     None \<Rightarrow> False
                   | Some backend \<Rightarrow> backend \<in> set (disabled_backends (kill_switch (hot st)))) then False
          else is_tool_allowed (ci_role (g_caller ctx)) (tool_name tool) Read (g_rbac ctx))
       (all_tools (g_catalog ctx))"

definition handle_tools_list ::
  "'v gw_ctx \<Rightarrow> JsonRpcRequest \<Rightarrow> gw_state \<Rightarrow> effect list" where
  "handle_tools_list ctx r st =
     (if is_notification r then []
      else [Send (resp_success (id_or_null r) (g_print_tools ctx (visible_tools ctx st)))])"

text \<open>Metrics, audit and response of a call that went past the guards.\<close>

definition finish_tools_call ::
  "'v gw_ctx \<Rightarrow> msg_env \<Rightarrow> JsonRpcRequest \<Rightarrow> JsonRpcResponse \<Rightarrow> effect list" where
  "finish_tools_call ctx env r resp =
     (let tool = (case called_tool (req_params r) of None \<Rightarrow> ''unknown'' | Some n \<Rightarrow> n);
          latency_ms = signed_take_bit 63 (int (elapsed (me_latency_ms env) (me_start env) div 1000000));
          latency_secs = elapsed (me_latency_secs env) (me_start env);
          status = (if resp_error resp \<noteq> None then ''error'' else ''success'');
          error_msg = (if resp_error resp \<noteq> None then map_option err_message (resp_error resp) else None)
      in record_metrics ctx (record_request tool status latency_secs) @
         audit ctx env tool (backend_label (g_catalog ctx) tool) (req_params r) status error_msg latency_ms @
         [Send resp])"

definition handle_call_method ::
  "'v gw_ctx \<Rightarrow> msg_env \<Rightarrow> JsonRpcRequest \<Rightarrow> gw_state \<Rightarrow> effect list \<times> gw_state" where
  "handle_call_method ctx env r st =
     (if is_notification r then ([], st)
      else
        (case (case called_tool (req_params r) of
                 None \<Rightarrow> (None, st)
               | Some name \<Rightarrow> tools_call_guards ctx env st r name) of
           (Some effs, st) \<Rightarrow> (effs, st)
         | (None, st) \<Rightarrow>
             (case handle_tools_call (g_serde ctx) env (g_catalog ctx) (id_or_null r) (req_params r) st of
                (effs, resp, st) \<Rightarrow> (effs @ finish_tools_call ctx env r resp, st))))"

definition handle_request ::
  "'v gw_ctx \<Rightarrow> msg_env \<Rightarrow> JsonRpcRequest \<Rightarrow> gw_state \<Rightarrow> effect list \<times> gw_state" where
  "handle_request ctx env r st =
     (if \<not> can_accept_method (mcp st) (req_method r)
      then (if \<not> is_notification r
            then [Send (mk_error (id_or_null r) NOT_INITIALIZED_CODE ''Server not initialized'')]
            else [], st)
      else if req_method r = ''initialize'' then handle_initialize_method ctx r st
      else if req_method r = ''notifications/initialized'' then ([], st\<lparr>mcp := Operational\<rparr>)
      else if req_method r = ''tools/list'' then (handle_tools_list ctx r st, st)
      else if req_method r = ''tools/call'' then handle_call_method ctx env r st
      else if req_method r = ''ping''
      then (if \<not> is_notification r then [Send (resp_success (id_or_null r) (JObject []))] else [], st)
      else (if \<not> is_notification r
            then [Send (mk_error (id_or_null r) METHOD_NOT_FOUND (''Method not found: '' @ req_method r))]
            else [], st))"

definition dispatch_line ::
  "'v gw_ctx \<Rightarrow> msg_env \<Rightarrow> string \<Rightarrow> gw_state \<Rightarrow> effect list \<times> gw_state" where
  "dispatch_line ctx env line st =
     (case from_str_request (g_serde ctx) line of
        Inl e \<Rightarrow> ([Send (mk_error Null PARSE_ERROR (''Parse error: '' @ e))], st)
      | Inr r \<Rightarrow> handle_request ctx env r st)"

section \<open>The loop\<close>

text \<open>
  An event of the loop: a line from the client, the end of the input, the shutdown signal, or a
  reload of the hot configuration between two messages, from the files and the path it reads.
\<close>

datatype gw_event =
    Line string msg_env
  | Eof
  | Cancel
  | Sighup "string \<Rightarrow> string + string" "string \<Rightarrow> string + SentinelConfig" string

fun run_dispatch :: "'v gw_ctx \<Rightarrow> gw_event list \<Rightarrow> gw_state \<Rightarrow> effect list \<times> gw_state" where
  "run_dispatch ctx [] st = ([], st)"
| "run_dispatch ctx (Line line env # es) st =
     (case dispatch_line ctx env line st of
        (effs, st) \<Rightarrow> (case run_dispatch ctx es st of (effs', st) \<Rightarrow> (effs @ effs', st)))"
| "run_dispatch ctx (Eof # es) st = ([], st\<lparr>mcp := McpState.Closed\<rparr>)"
| "run_dispatch ctx (Cancel # es) st = ([], st\<lparr>mcp := McpState.Closed\<rparr>)"
| "run_dispatch ctx (Sighup rd toml path # es) st =
     run_dispatch ctx es (st\<lparr>hot := on_sighup (reload_hot_config rd toml path) (hot st)\<rparr>)"

end
