(* ===== verification/Gateway_Call.thy ===== *)
theory Gateway_Call
  imports Gateway
begin

text \<open>
  What one message does: the response it gets, the audit entry and the metrics it leaves, and when
  it reaches a backend. The guards of \<^verbatim>\<open>tools/call\<close> are related to a declarative verdict, and every
  property of a call is stated over it.
\<close>

section \<open>Readings of an effect trace\<close>

fun sends :: "effect list \<Rightarrow> JsonRpcResponse list" where
  "sends [] = []"
| "sends (Send r # es) = r # sends es"
| "sends (e # es) = sends es"

fun audits :: "effect list \<Rightarrow> AuditEntry list" where
  "audits [] = []"
| "audits (Audit a # es) = a # audits es"
| "audits (e # es) = audits es"

fun metric_ops :: "effect list \<Rightarrow> metric_op list" where
  "metric_ops [] = []"
| "metric_ops (Metric m # es) = m # metric_ops es"
| "metric_ops (e # es) = metric_ops es"

fun backend_calls :: "effect list \<Rightarrow> (string \<times> string) list" where
  "backend_calls [] = []"
| "backend_calls (BackendCall b body # es) = (b, body) # backend_calls es"
| "backend_calls (e # es) = backend_calls es"

lemma sends_append [effect_simps]: "sends (xs @ ys) = sends xs @ sends ys"
  by (induction xs rule: sends.induct) simp_all

lemma audits_append [effect_simps]: "audits (xs @ ys) = audits xs @ audits ys"
  by (induction xs rule: audits.induct) simp_all

lemma metric_ops_append [effect_simps]: "metric_ops (xs @ ys) = metric_ops xs @ metric_ops ys"
  by (induction xs rule: metric_ops.induct) simp_all

lemma backend_calls_append [effect_simps]:
  "backend_calls (xs @ ys) = backend_calls xs @ backend_calls ys"
  by (induction xs rule: backend_calls.induct) simp_all

lemma map_Metric [effect_simps]:
  "sends (map Metric ms) = []" "audits (map Metric ms) = []" "metric_ops (map Metric ms) = ms"
  "backend_calls (map Metric ms) = []"
  by (induction ms) simp_all

lemma record_metrics_trace [effect_simps]:
  "sends (record_metrics ctx ms) = []" "audits (record_metrics ctx ms) = []"
  "metric_ops (record_metrics ctx ms) = (if g_metrics ctx then ms else [])"
  "backend_calls (record_metrics ctx ms) = []"
  by (simp_all add: record_metrics_def effect_simps)

lemma audit_trace [effect_simps]:
  "sends (audit ctx env t b a s e l) = []" "metric_ops (audit ctx env t b a s e l) = []"
  "backend_calls (audit ctx env t b a s e l) = []"
  by (simp_all add: audit_def)

section \<open>The verdict on a call\<close>

text \<open>
  What should happen to a call of a tool, from the policy in force: the first objection, in the
  documented order, or admission.
\<close>

datatype verdict =
    Tool_Killed
  | Backend_Killed string
  | Rate_Limited nanos
  | Denied
  | Invalid_Args "string list"
  | Circuit_Open string
  | Admitted

definition rate_answer :: "'v gw_ctx \<Rightarrow> msg_env \<Rightarrow> gw_state \<Rightarrow> string \<Rightarrow> nanos + unit" where
  "rate_answer ctx env st name =
     fst (check (rate_limiter (hot st)) (ci_subject (g_caller ctx)) name
       (me_rl_new env) (me_rl_elapsed env) (me_rl_refill env))"

definition schema_answer :: "'v gw_ctx \<Rightarrow> json option \<Rightarrow> string \<Rightarrow> string list + unit" where
  "schema_answer ctx params name =
     (case Option.bind params (get ''arguments'') of
        None \<Rightarrow> Inr ()
      | Some args \<Rightarrow> schema_validate (g_iter_errors ctx) (g_schema ctx) name args)"

definition circuit_blocks :: "'v gw_ctx \<Rightarrow> msg_env \<Rightarrow> gw_state \<Rightarrow> string \<Rightarrow> string option" where
  "circuit_blocks ctx env st name =
     (case route (g_catalog ctx) name of
        None \<Rightarrow> None
      | Some b \<Rightarrow>
          (case hm_get (breakers st) b of
             None \<Rightarrow> None
           | Some cb \<Rightarrow> if cb_blocked (me_cb_allow env) cb then Some b else None))"

definition backend_killed :: "'v gw_ctx \<Rightarrow> gw_state \<Rightarrow> string \<Rightarrow> string option" where
  "backend_killed ctx st name =
     (case route (g_catalog ctx) name of
        None \<Rightarrow> None
      | Some b \<Rightarrow> if b \<in> set (disabled_backends (kill_switch (hot st))) then Some b else None)"

text \<open>The objections that do not concern the hot configuration, then all of them.\<close>

definition late_verdict :: "'v gw_ctx \<Rightarrow> msg_env \<Rightarrow> gw_state \<Rightarrow> json option \<Rightarrow> string \<Rightarrow> verdict" where
  "late_verdict ctx env st params name =
     (if \<not> is_tool_allowed (ci_role (g_caller ctx)) name Execute (g_rbac ctx) then Denied
      else case schema_answer ctx params name of
        Inl errors \<Rightarrow> Invalid_Args errors
      | Inr _ \<Rightarrow>
     (case circuit_blocks ctx env st name of
        Some b \<Rightarrow> Circuit_Open b
      | None \<Rightarrow> Admitted))"

definition verdict_of :: "'v gw_ctx \<Rightarrow> msg_env \<Rightarrow> gw_state \<Rightarrow> json option \<Rightarrow> string \<Rightarrow> verdict" where
  "verdict_of ctx env st params name =
     (if name \<in> set (disabled_tools (kill_switch (hot st))) then Tool_Killed
      else case backend_killed ctx st name of
        Some b \<Rightarrow> Backend_Killed b
      | None \<Rightarrow>
     (case rate_answer ctx env st name of
        Inl retry \<Rightarrow> Rate_Limited retry
      | Inr _ \<Rightarrow> late_verdict ctx env st params name))"

text \<open>The audit status, the error code and the message of a refusal.\<close>

fun verdict_status :: "verdict \<Rightarrow> string" where
  "verdict_status Tool_Killed = ''killed''"
| "verdict_status (Backend_Killed b) = ''killed''"
| "verdict_status (Rate_Limited t) = ''rate_limited''"
| "verdict_status Denied = ''denied''"
| "verdict_status (Invalid_Args es) = ''invalid_args''"
| "verdict_status (Circuit_Open b) = ''circuit_open''"
| "verdict_status Admitted = ''''"

fun verdict_code :: "verdict \<Rightarrow> i32 option" where
  "verdict_code Tool_Killed = Some KILL_SWITCH_ERROR"
| "verdict_code (Backend_Killed b) = Some KILL_SWITCH_ERROR"
| "verdict_code (Rate_Limited t) = Some RATE_LIMIT_ERROR"
| "verdict_code Denied = Some AUTHZ_ERROR"
| "verdict_code (Invalid_Args es) = Some INVALID_PARAMS"
| "verdict_code (Circuit_Open b) = Some CIRCUIT_OPEN_ERROR"
| "verdict_code Admitted = None"

text \<open>The trace of a refusal: one response, one audit entry, one request metric.\<close>

definition refusal :: "'v gw_ctx \<Rightarrow> msg_env \<Rightarrow> JsonRpcRequest \<Rightarrow> string \<Rightarrow> verdict \<Rightarrow> effect list \<Rightarrow> bool" where
  "refusal ctx env r name v effs \<longleftrightarrow>
     backend_calls effs = [] \<and>
     (\<exists>resp. sends effs = [resp] \<and> resp_id resp = id_or_null r \<and> code_of resp = verdict_code v) \<and>
     map ae_response_status (audits effs) = (if g_audit ctx then [verdict_status v] else []) \<and>
     map ae_tool_name (audits effs) = (if g_audit ctx then [name] else []) \<and>
     map ae_request_args (audits effs) = (if g_audit ctx then [req_params r] else []) \<and>
     filter (\<lambda>m. \<exists>t s. m = Inc ''sentinel_requests_total'' [t, s]) (metric_ops effs) =
       (if g_metrics ctx then [Inc ''sentinel_requests_total'' [name, verdict_status v]] else [])"

lemma request_metric [effect_simps]:
  "filter (\<lambda>m. \<exists>t s. m = Inc ''sentinel_requests_total'' [t, s]) (record_request name status d) =
     [Inc ''sentinel_requests_total'' [name, status]]"
  "filter (\<lambda>m. \<exists>t s. m = Inc ''sentinel_requests_total'' [t, s]) (record_rate_limit_hit name) = []"
  by (simp_all add: record_request_def record_rate_limit_hit_def)

text \<open>Each guard refuses exactly on its condition, and its refusal is that of the verdict.\<close>

lemma kill_tool_guard_verdict [guard_simps]:
  "kill_tool_guard ctx env st r name = None \<longleftrightarrow> name \<notin> set (disabled_tools (kill_switch (hot st)))"
  "kill_tool_guard ctx env st r name = Some effs \<Longrightarrow> refusal ctx env r name Tool_Killed effs"
  unfolding kill_tool_guard_def
  by (auto split: if_splits simp: refusal_def audit_def effect_simps)

lemma kill_backend_guard_verdict [guard_simps]:
  "kill_backend_guard ctx env st r name = None \<longleftrightarrow> backend_killed ctx st name = None"
  "kill_backend_guard ctx env st r name = Some effs \<Longrightarrow> backend_killed ctx st name = Some b \<Longrightarrow>
     refusal ctx env r name (Backend_Killed b) effs"
  unfolding kill_backend_guard_def backend_killed_def
  by (auto split: if_splits option.splits simp: refusal_def audit_def effect_simps)

lemma rate_limit_guard_verdict [guard_simps]:
  "fst (rate_limit_guard ctx env st r name) = None \<longleftrightarrow> \<not> isl (rate_answer ctx env st name)"
  "fst (rate_limit_guard ctx env st r name) = Some effs \<Longrightarrow> rate_answer ctx env st name = Inl t \<Longrightarrow>
     refusal ctx env r name (Rate_Limited t) effs"
  unfolding rate_limit_guard_def rate_answer_def
  by (auto split: sum.splits simp: refusal_def audit_def effect_simps case_prod_beta)

lemma rbac_guard_verdict [guard_simps]:
  "rbac_guard ctx env r name = None \<longleftrightarrow> is_tool_allowed (ci_role (g_caller ctx)) name Execute (g_rbac ctx)"
  "rbac_guard ctx env r name = Some effs \<Longrightarrow> refusal ctx env r name Denied effs"
  unfolding rbac_guard_def
  by (auto split: if_splits simp: refusal_def audit_def effect_simps)

lemma schema_guard_verdict [guard_simps]:
  "schema_guard ctx env r name = None \<longleftrightarrow> \<not> isl (schema_answer ctx (req_params r) name)"
  "schema_guard ctx env r name = Some effs \<Longrightarrow> schema_answer ctx (req_params r) name = Inl es \<Longrightarrow>
     refusal ctx env r name (Invalid_Args es) effs"
  unfolding schema_guard_def schema_answer_def Let_def
  by (auto split: sum.splits option.splits simp: refusal_def audit_def effect_simps)

lemma circuit_guard_verdict [guard_simps]:
  "fst (circuit_guard ctx env st r name) = None \<longleftrightarrow> circuit_blocks ctx env st name = None"
  "fst (circuit_guard ctx env st r name) = Some effs \<Longrightarrow> circuit_blocks ctx env st name = Some b \<Longrightarrow>
     refusal ctx env r name (Circuit_Open b) effs"
  unfolding circuit_guard_def circuit_blocks_def
  by (auto split: if_splits option.splits simp: refusal_def audit_def effect_simps case_prod_beta cb.allow_iff)

lemma rate_limit_guard_state:
  "snd (rate_limit_guard ctx env st r name) =
     st\<lparr>hot := (hot st)\<lparr>rate_limiter :=
       snd (check (rate_limiter (hot st)) (ci_subject (g_caller ctx)) name
         (me_rl_new env) (me_rl_elapsed env) (me_rl_refill env))\<rparr>\<rparr>"
  by (simp add: rate_limit_guard_def case_prod_beta)

lemma circuit_blocks_hot [simp]: "circuit_blocks ctx env (st\<lparr>hot := h\<rparr>) name = circuit_blocks ctx env st name"
  by (simp add: circuit_blocks_def split: option.splits)

lemma late_verdict_rate [simp]:
  "late_verdict ctx env (snd (rate_limit_guard ctx env st r n)) params name =
   late_verdict ctx env st params name"
  by (simp add: late_verdict_def rate_limit_guard_state split: sum.splits)

text \<open>How the answers of the guards combine: first those after the rate limit, then all.\<close>

lemma late_guards_verdict:
  "case (case rbac_guard ctx env r name of
           Some effs \<Rightarrow> Some effs
         | None \<Rightarrow>
             (case schema_guard ctx env r name of
                Some effs \<Rightarrow> Some effs
              | None \<Rightarrow> fst (circuit_guard ctx env st r name))) of
     None \<Rightarrow> late_verdict ctx env st (req_params r) name = Admitted
   | Some effs \<Rightarrow>
       late_verdict ctx env st (req_params r) name \<noteq> Admitted \<and>
       refusal ctx env r name (late_verdict ctx env st (req_params r) name) effs"
proof (cases "rbac_guard ctx env r name")
  case (Some e)
  have "late_verdict ctx env st (req_params r) name = Denied"
    using Some rbac_guard_verdict(1) [of ctx env r name] by (auto simp: late_verdict_def)
  with Some rbac_guard_verdict(2) show ?thesis by simp
next
  case None
  note rbac = None
  have allowed: "is_tool_allowed (ci_role (g_caller ctx)) name Execute (g_rbac ctx)"
    using None rbac_guard_verdict(1) [of ctx env r name] by auto
  show ?thesis
  proof (cases "schema_guard ctx env r name")
    case (Some e)
    then obtain es where es: "schema_answer ctx (req_params r) name = Inl es"
      using schema_guard_verdict(1) [of ctx env r name] by (auto simp: isl_def)
    with allowed have "late_verdict ctx env st (req_params r) name = Invalid_Args es"
      by (simp add: late_verdict_def)
    with rbac Some schema_guard_verdict(2) [OF Some es] show ?thesis by simp
  next
    case None
    then have "late_verdict ctx env st (req_params r) name =
        (case circuit_blocks ctx env st name of Some b \<Rightarrow> Circuit_Open b | None \<Rightarrow> Admitted)"
      using allowed schema_guard_verdict(1) [of ctx env r name]
      by (auto simp: late_verdict_def split: sum.splits)
    with rbac None circuit_guard_verdict [of ctx env st r name] show ?thesis
      by (auto split: option.splits)
  qed
qed

lemma rate_and_late_verdict:
  assumes tool: "kill_tool_guard ctx env st r name = None"
    and backend: "kill_backend_guard ctx env st r name = None"
  shows
  "case fst (tools_call_guards ctx env st r name) of
     None \<Rightarrow> verdict_of ctx env st (req_params r) name = Admitted
   | Some effs \<Rightarrow>
       verdict_of ctx env st (req_params r) name \<noteq> Admitted \<and>
       refusal ctx env r name (verdict_of ctx env st (req_params r) name) effs"
proof -
  have t: "name \<notin> set (disabled_tools (kill_switch (hot st)))"
    using tool kill_tool_guard_verdict(1) [of ctx env st r name] by auto
  have "backend_killed ctx st name = None"
    using backend kill_backend_guard_verdict(1) [of ctx env st r name] by auto
  with t have v: "verdict_of ctx env st (req_params r) name =
      (case rate_answer ctx env st name of
         Inl retry \<Rightarrow> Rate_Limited retry
       | Inr _ \<Rightarrow> late_verdict ctx env st (req_params r) name)"
    by (simp add: verdict_of_def late_verdict_def)
  show ?thesis
  proof (cases "fst (rate_limit_guard ctx env st r name)")
    case (Some e)
    then obtain retry where "rate_answer ctx env st name = Inl retry"
      using rate_limit_guard_verdict(1) [of ctx env st r name] by (auto simp: isl_def)
    with rate_limit_guard_verdict(2) [OF Some] v Some tool backend show ?thesis
      by (simp add: tools_call_guards_def case_prod_beta)
  next
    case None
    then have "verdict_of ctx env st (req_params r) name = late_verdict ctx env st (req_params r) name"
      using rate_limit_guard_verdict(1) [of ctx env st r name] v by (auto split: sum.splits)
    with late_guards_verdict [of ctx env "snd (rate_limit_guard ctx env st r name)" r name]
      tool backend None show ?thesis
      by (simp add: tools_call_guards_def case_prod_beta split: option.splits)
  qed
qed

lemma tools_call_guards_verdict:
  "case fst (tools_call_guards ctx env st r name) of
     None \<Rightarrow> verdict_of ctx env st (req_params r) name = Admitted
   | Some effs \<Rightarrow>
       verdict_of ctx env st (req_params r) name \<noteq> Admitted \<and>
       refusal ctx env r name (verdict_of ctx env st (req_params r) name) effs"
proof (cases "kill_tool_guard ctx env st r name")
  case (Some e)
  have "name \<in> set (disabled_tools (kill_switch (hot st)))"
    using Some kill_tool_guard_verdict(1) [of ctx env st r name] by auto
  then have "verdict_of ctx env st (req_params r) name = Tool_Killed" by (simp add: verdict_of_def)
  with Some kill_tool_guard_verdict(2) show ?thesis by (simp add: tools_call_guards_def)
next
  case None
  note tool = None
  have t: "name \<notin> set (disabled_tools (kill_switch (hot st)))"
    using None kill_tool_guard_verdict(1) [of ctx env st r name] by auto
  show ?thesis
  proof (cases "kill_backend_guard ctx env st r name")
    case (Some e)
    then obtain b where b: "backend_killed ctx st name = Some b"
      using kill_backend_guard_verdict(1) [of ctx env st r name] by auto
    then have "verdict_of ctx env st (req_params r) name = Backend_Killed b"
      using t by (simp add: verdict_of_def)
    with Some tool kill_backend_guard_verdict(2) [OF Some b] show ?thesis
      by (simp add: tools_call_guards_def)
  next
    case None
    with tool show ?thesis by (rule rate_and_late_verdict)
  qed
qed

section \<open>The call itself\<close>

lemma update_breaker_simps [simp]:
  "remapper (update_breaker b f st) = remapper st" "mcp (update_breaker b f st) = mcp st"
  "hot (update_breaker b f st) = hot st" "backends (update_breaker b f st) = backends st"
  by (simp_all add: update_breaker_def split: option.splits)

lemma restore_id_simps [simp]:
  "mcp (snd (restore_id g st)) = mcp st" "hot (snd (restore_id g st)) = hot st"
  "backends (snd (restore_id g st)) = backends st" "breakers (snd (restore_id g st)) = breakers st"
  "remapper (snd (restore_id g st)) = snd (restore g (remapper st))"
  by (simp_all add: restore_id_def case_prod_beta)

text \<open>The table gives the client's id back: the contract of the correlation table.\<close>

lemma restore_id_remapped:
  assumes "remap i b tbl = (g, remapper st)"
  shows "fst (restore_id g st) = Some i"
proof -
  have "fst (restore g (remapper st)) = Some (i, b)"
    using rm.issue_redeem [of "(i, b)" tbl g "remapper st"] assms
    by (cases "restore g (remapper st)") simp
  then show ?thesis by (simp add: restore_id_def case_prod_beta)
qed

lemma backend_answer_eq:
  "backend_answer sd env b g res st =
     (let st' = update_breaker b (case res of Inl _ \<Rightarrow> record_failure (me_cb_failure env)
                                            | Inr _ \<Rightarrow> record_success) st;
          original = fst (restore_id g st')
      in (case res of
            Inr text' \<Rightarrow>
              (case from_str_response sd text' of
                 Inr resp \<Rightarrow> (case original of None \<Rightarrow> resp | Some i \<Rightarrow> resp\<lparr>resp_id := i\<rparr>)
               | Inl e \<Rightarrow> mk_error (unwrap_id original) INTERNAL_ERROR (''Invalid backend response: '' @ e))
          | Inl e \<Rightarrow> mk_error (unwrap_id original) INTERNAL_ERROR
              (''Backend error: '' @ backend_error_display e),
          snd (restore_id g st')))"
  by (simp add: backend_answer_def Let_def case_prod_beta split: sum.splits)

lemma backend_answer_id:
  assumes "remap i b tbl = (g, remapper st)"
  shows "resp_id (fst (backend_answer sd env b' g res st)) = i"
proof -
  have "fst (restore_id g (update_breaker b' f st)) = Some i" for f
    using assms by (intro restore_id_remapped) simp
  then show ?thesis
    by (simp add: backend_answer_eq Let_def unwrap_id_def split: sum.splits)
qed

definition reachable_backend :: "ToolCatalog \<Rightarrow> gw_state \<Rightarrow> json option \<Rightarrow> (string \<times> Backend) option" where
  "reachable_backend c st params =
     Option.bind (called_tool params) (\<lambda>name.
       Option.bind (route c name) (\<lambda>b. map_option (Pair b) (hm_get (backends st) b)))"

lemma handle_tools_call_unreachable:
  assumes "reachable_backend c st params = None"
  shows "fst (handle_tools_call sd env c cid params st) = [] \<and>
     snd (snd (handle_tools_call sd env c cid params st)) = st \<and>
     resp_id (fst (snd (handle_tools_call sd env c cid params st))) = cid \<and>
     code_of (fst (snd (handle_tools_call sd env c cid params st))) \<noteq> None"
  using assms
  by (auto simp: handle_tools_call_def reachable_backend_def split: option.splits)

lemma handle_tools_call_reachable:
  assumes "reachable_backend c st params = Some (b, be)"
    and "remap cid b (remapper st) = (g, tbl)"
    and "body = to_string_value sd (outbound g params)"
    and "backend_send sd env be body = (res, be')"
  shows "handle_tools_call sd env c cid params st =
     ([BackendCall b body],
      backend_answer sd env b g res (st\<lparr>remapper := tbl, backends := hm_insert b be' (backends st)\<rparr>))"
  using assms
  by (auto simp: handle_tools_call_def reachable_backend_def Let_def case_prod_beta
      split: option.splits bind_splits)

lemma handle_tools_call_id: "resp_id (fst (snd (handle_tools_call sd env c cid params st))) = cid"
proof (cases "reachable_backend c st params")
  case None
  then show ?thesis using handle_tools_call_unreachable by blast
next
  case (Some p)
  obtain b be where p: "p = (b, be)" by (cases p)
  obtain g tbl where g: "remap cid b (remapper st) = (g, tbl)" by (cases "remap cid b (remapper st)")
  obtain res be' where r: "backend_send sd env be (to_string_value sd (outbound g params)) = (res, be')"
    by (cases "backend_send sd env be (to_string_value sd (outbound g params))")
  from handle_tools_call_reachable [OF Some [unfolded p] g refl r] g show ?thesis
    by (simp add: backend_answer_id [of cid b "remapper st"])
qed

lemma handle_tools_call_trace [effect_simps]:
  "sends (fst (handle_tools_call sd env c cid params st)) = []"
  "audits (fst (handle_tools_call sd env c cid params st)) = []"
  "metric_ops (fst (handle_tools_call sd env c cid params st)) = []"
  by (simp_all add: handle_tools_call_def Let_def case_prod_beta split: option.splits)

lemma handle_tools_call_calls:
  "backend_calls (fst (handle_tools_call sd env c cid params st)) =
     (case reachable_backend c st params of
        None \<Rightarrow> []
      | Some (b, be) \<Rightarrow> [(b, to_string_value sd (outbound (counter (remapper st)) params))])"
  by (simp add: handle_tools_call_def reachable_backend_def Let_def case_prod_beta remap_def
      split: option.splits)

lemma finish_tools_call_trace [effect_simps]:
  "sends (finish_tools_call ctx env r resp) = [resp]"
  "backend_calls (finish_tools_call ctx env r resp) = []"
  by (simp_all add: finish_tools_call_def effect_simps Let_def)

section \<open>A named call, from end to end\<close>

lemma tools_call_guards_state:
  "remapper (snd (tools_call_guards ctx env st r name)) = remapper st"
  "backends (snd (tools_call_guards ctx env st r name)) = backends st"
  "mcp (snd (tools_call_guards ctx env st r name)) = mcp st"
  "kill_switch (hot (snd (tools_call_guards ctx env st r name))) = kill_switch (hot st)"
  by (simp_all add: tools_call_guards_def circuit_guard_def rate_limit_guard_state case_prod_beta
      split: option.splits)

lemma reachable_backend_cong:
  "backends st = backends st' \<Longrightarrow> reachable_backend c st params = reachable_backend c st' params"
  by (simp add: reachable_backend_def)

text \<open>The status of an answered call, as metrics and audit show it.\<close>

definition answer_status :: "JsonRpcResponse \<Rightarrow> string" where
  "answer_status resp = (if resp_error resp \<noteq> None then ''error'' else ''success'')"

definition answered ::
  "'v gw_ctx \<Rightarrow> msg_env \<Rightarrow> gw_state \<Rightarrow> JsonRpcRequest \<Rightarrow> string \<Rightarrow> effect list \<Rightarrow> bool" where
  "answered ctx env st r name effs \<longleftrightarrow>
     backend_calls effs =
       (case reachable_backend (g_catalog ctx) st (req_params r) of
          None \<Rightarrow> []
        | Some (b, be) \<Rightarrow>
            [(b, to_string_value (g_serde ctx) (outbound (counter (remapper st)) (req_params r)))]) \<and>
     (\<exists>resp. sends effs = [resp] \<and> resp_id resp = id_or_null r \<and>
        (reachable_backend (g_catalog ctx) st (req_params r) = None \<longrightarrow> code_of resp \<noteq> None) \<and>
        map ae_response_status (audits effs) = (if g_audit ctx then [answer_status resp] else []) \<and>
        map ae_tool_name (audits effs) = (if g_audit ctx then [name] else []) \<and>
        map ae_request_args (audits effs) = (if g_audit ctx then [req_params r] else []) \<and>
        filter (\<lambda>m. \<exists>t s. m = Inc ''sentinel_requests_total'' [t, s]) (metric_ops effs) =
          (if g_metrics ctx then [Inc ''sentinel_requests_total'' [name, answer_status resp]] else []))"

lemma handle_call_method_named:
  assumes "\<not> is_notification r" and "called_tool (req_params r) = Some name"
  shows "(verdict_of ctx env st (req_params r) name \<noteq> Admitted \<longrightarrow>
            refusal ctx env r name (verdict_of ctx env st (req_params r) name)
              (fst (handle_call_method ctx env r st))) \<and>
         (verdict_of ctx env st (req_params r) name = Admitted \<longrightarrow>
            answered ctx env st r name (fst (handle_call_method ctx env r st)))"
proof (cases "fst (tools_call_guards ctx env st r name)")
  case (Some effs)
  then have "fst (handle_call_method ctx env r st) = effs"
    using assms by (simp add: handle_call_method_def case_prod_beta)
  with tools_call_guards_verdict [of ctx env st r name] Some show ?thesis by simp
next
  case None
  let ?st = "snd (tools_call_guards ctx env st r name)"
  let ?h = "handle_tools_call (g_serde ctx) env (g_catalog ctx) (id_or_null r) (req_params r) ?st"
  have "fst (handle_call_method ctx env r st) =
      fst ?h @ finish_tools_call ctx env r (fst (snd ?h))"
    using assms None by (simp add: handle_call_method_def case_prod_beta)
  moreover have "reachable_backend (g_catalog ctx) ?st (req_params r) =
      reachable_backend (g_catalog ctx) st (req_params r)"
    by (rule reachable_backend_cong) (simp add: tools_call_guards_state)
  moreover have "code_of (fst (snd ?h)) \<noteq> None"
    if "reachable_backend (g_catalog ctx) ?st (req_params r) = None"
    using handle_tools_call_unreachable [OF that] by simp
  ultimately have "answered ctx env st r name (fst (handle_call_method ctx env r st))"
    using assms(2) handle_tools_call_id
    by (simp add: answered_def effect_simps handle_tools_call_calls tools_call_guards_state
        finish_tools_call_def audit_def answer_status_def Let_def split: option.split)
  with tools_call_guards_verdict [of ctx env st r name] None show ?thesis by simp
qed

lemma handle_request_call:
  "mcp st = Operational \<Longrightarrow> req_method r = ''tools/call'' \<Longrightarrow>
   handle_request ctx env r st = handle_call_method ctx env r st"
  by (simp add: handle_request_def)

lemma backend_calls_other_method:
  "req_method r \<noteq> ''tools/call'' \<or> mcp st \<noteq> Operational \<Longrightarrow>
   backend_calls (fst (handle_request ctx env r st)) = [] \<and> audits (fst (handle_request ctx env r st)) = [] \<and>
   metric_ops (fst (handle_request ctx env r st)) = []"
  by (cases "mcp st")
    (auto simp: handle_request_def handle_initialize_method_def handle_tools_list_def Let_def)

section \<open>Calls without a name\<close>

lemma handle_call_method_unnamed:
  assumes "\<not> is_notification r" and "called_tool (req_params r) = None"
  shows "sends (fst (handle_call_method ctx env r st)) =
           [mk_error (id_or_null r) INVALID_PARAMS ''Missing tool name in params''] \<and>
         backend_calls (fst (handle_call_method ctx env r st)) = [] \<and>
         map ae_tool_name (audits (fst (handle_call_method ctx env r st))) =
           (if g_audit ctx then [''unknown''] else []) \<and>
         snd (handle_call_method ctx env r st) = st"
  using assms
  by (simp add: handle_call_method_def handle_tools_call_def finish_tools_call_def effect_simps
      audit_def Let_def)

section \<open>A sample gateway\<close>

text \<open>
  For the witnesses: the stub catalog with one HTTP backend behind it, an administrator, and a
  reader that takes a line for the name of a tool to call, except for a few named requests.
\<close>

definition demo_call :: "string \<Rightarrow> JsonRpcRequest" where
  "demo_call name =
     \<lparr>req_jsonrpc = ''2.0'', req_id = Some (Number 9), req_method = ''tools/call'',
      req_params = Some (JObject [(''name'', JString name)])\<rparr>"

definition demo_method :: "JsonRpcId option \<Rightarrow> string \<Rightarrow> JsonRpcRequest" where
  "demo_method i m = \<lparr>req_jsonrpc = ''2.0'', req_id = i, req_method = m, req_params = None\<rparr>"

definition gw_serde :: serde where
  "gw_serde =
     \<lparr>from_str_request =
        (\<lambda>s. if s = '''' then Inl ''EOF while parsing''
             else if s = ''initialize'' \<or> s = ''tools/list'' then Inr (demo_method (Some (Number 1)) s)
             else if s = ''notifications/initialized'' then Inr (demo_method None s)
             else Inr (demo_call s)),
      from_str_response = (\<lambda>s. if s = ''ok'' then Inr (resp_success (Number 1) JNull) else Inl ''expected value''),
      from_str_value = (\<lambda>s. Inl ''unsupported''),
      to_string_value = (\<lambda>v. case called_tool (get ''params'' v) of None \<Rightarrow> ''{}'' | Some n \<Rightarrow> n),
      to_string_response = (\<lambda>r. ''{}'')\<rparr>"

definition demo_rbac :: RbacConfig where
  "demo_rbac = \<lparr>roles =
     [(''admin'', \<lparr>permissions = [''*''], denied_tools = [''write_query'']\<rparr>),
      (''viewer'', \<lparr>permissions = [''tools.read''], denied_tools = []\<rparr>)]\<rparr>"

definition demo_ctx :: "unit gw_ctx" where
  "demo_ctx =
     \<lparr>g_catalog = create_stub_catalog, g_caller = default_caller, g_rbac = demo_rbac, g_audit = True,
      g_metrics = True, g_schema = \<lparr>validators = []\<rparr>, g_iter_errors = (\<lambda>v a. []), g_serde = gw_serde,
      g_read_params = (\<lambda>p. Inr ()), g_print_result = (\<lambda>r. Inr JNull),
      g_print_tools = (\<lambda>ts. JArray (map (\<lambda>t. JString (tool_name t)) ts))\<rparr>"

definition demo_state :: "string list \<Rightarrow> gw_state" where
  "demo_state off =
     \<lparr>mcp = Operational, remapper = remapper_new,
      hot = hot_new \<lparr>disabled_tools = off, disabled_backends = []\<rparr> (limiter_new RateLimitConfig_default),
      breakers = [], backends = [(''stub-n8n'', HttpB demo_http)]\<rparr>"

definition demo_env :: msg_env where
  "demo_env =
     \<lparr>me_uuid = ''u'', me_utc = 0, me_start = 0, me_latency_ms = 5, me_latency_secs = 6, me_rl_new = 0,
      me_rl_elapsed = 1, me_rl_refill = 2, me_cb_allow = 3, me_cb_failure = 4, me_random = (\<lambda>a n. 0),
      me_net = (\<lambda>a r. Inr \<lparr>reply_status = 200, reply_content_type = None, reply_text = Inr ''ok'',
        reply_chunks = []\<rparr>),
      me_stdio = TimedOut\<rparr>"

lemmas demo_gw_defs = demo_call_def demo_method_def gw_serde_def demo_rbac_def demo_ctx_def demo_state_def
  demo_env_def hot_new_def default_caller_def called_tool_def

lemma demo_simps [simp]:
  "req_method (demo_call n) = ''tools/call''" "req_id (demo_call n) = Some (Number 9)"
  "called_tool (req_params (demo_call n)) = Some n" "mcp (demo_state off) = Operational"
  "req_method (demo_method i m) = m" "req_id (demo_method i m) = i"
  "g_catalog demo_ctx = create_stub_catalog"
  by (simp_all add: demo_gw_defs)

lemma demo_parse:
  "from_str_request (g_serde demo_ctx) s =
     (if s = '''' then Inl ''EOF while parsing''
      else if s = ''initialize'' \<or> s = ''tools/list'' then Inr (demo_method (Some (Number 1)) s)
      else if s = ''notifications/initialized'' then Inr (demo_method None s)
      else Inr (demo_call s))"
  by (simp add: demo_ctx_def gw_serde_def)

lemma demo_verdict:
  "verdict_of demo_ctx demo_env (demo_state off) (req_params (demo_call name)) name =
     (if name \<in> set off then Tool_Killed else if name = ''write_query'' then Denied else Admitted)"
proof -
  have "rate_answer demo_ctx demo_env (demo_state off) name = Inr ()"
    by (simp add: rate_answer_def demo_gw_defs check_def bucket_of_def bucket_new_def try_consume_def
        elapsed_def rpm_of_def limiter_new_def RateLimitConfig_default_def default_rpm_def)
  moreover have "backend_killed demo_ctx (demo_state off) name = None"
    "circuit_blocks demo_ctx demo_env (demo_state off) name = None"
    by (simp_all add: backend_killed_def circuit_blocks_def demo_gw_defs split: option.splits)
  ultimately show ?thesis
    by (simp add: verdict_of_def late_verdict_def schema_answer_def is_tool_allowed_def demo_gw_defs)
qed

section \<open>Properties\<close>

text \<open>
  C1: Every named \<^verbatim>\<open>tools/call\<close> request of an initialised session is decided by the verdict of the
  policy in force: the kill switch on the tool, then on its backend, then the rate limit, the
  role, the argument schema and the circuit breaker, the first objection winning. A refusal touches
  no backend, gives one response with the request's id and the objection's error code, one audit
  entry with its status if audit is on, and one request metric. An admitted call is sent once to
  the tool's backend, and its response, with the client's id, its audit entry and its metric agree
  on whether it succeeded.
\<close>

theorem tools_call_decided:
  assumes "from_str_request (g_serde ctx) line = Inr r" and "mcp st = Operational"
    and "req_method r = ''tools/call''" and "req_id r \<noteq> None" and "called_tool (req_params r) = Some name"
  shows "let v = verdict_of ctx env st (req_params r) name;
             effs = fst (dispatch_line ctx env line st)
         in (v \<noteq> Admitted \<longrightarrow> refusal ctx env r name v effs) \<and>
            (v = Admitted \<longrightarrow> answered ctx env st r name effs)"
proof -
  have "dispatch_line ctx env line st = handle_call_method ctx env r st"
    using assms(1-3) by (simp add: dispatch_line_def handle_request_call)
  moreover have "\<not> is_notification r" using assms(4) by (simp add: is_notification_def)
  ultimately show ?thesis using handle_call_method_named [OF _ assms(5)] by (simp add: Let_def)
qed

theorem tools_call_decided_witness:
  "refusal demo_ctx demo_env (demo_call ''read_query'') ''read_query'' Tool_Killed
     (fst (dispatch_line demo_ctx demo_env ''read_query'' (demo_state [''read_query'']))) \<and>
   answered demo_ctx demo_env (demo_state []) (demo_call ''list_workflows'') ''list_workflows''
     (fst (dispatch_line demo_ctx demo_env ''list_workflows'' (demo_state [])))"
  using tools_call_decided [of demo_ctx "''read_query''" "demo_call ''read_query''" "demo_state [''read_query'']"
      "''read_query''" demo_env]
    tools_call_decided [of demo_ctx "''list_workflows''" "demo_call ''list_workflows''" "demo_state []"
      "''list_workflows''" demo_env]
  by (simp add: demo_verdict demo_parse Let_def)

lemma verdict_Admitted_iff:
  "verdict_of ctx env st params name = Admitted \<longleftrightarrow>
     name \<notin> set (disabled_tools (kill_switch (hot st))) \<and> backend_killed ctx st name = None \<and>
     rate_answer ctx env st name = Inr () \<and>
     is_tool_allowed (ci_role (g_caller ctx)) name Execute (g_rbac ctx) \<and>
     schema_answer ctx params name = Inr () \<and> circuit_blocks ctx env st name = None"
  by (auto simp: verdict_of_def late_verdict_def split: option.splits sum.splits if_splits)

lemma dispatch_backend_calls:
  assumes "backend_calls (fst (dispatch_line ctx env line st)) \<noteq> []"
  shows "\<exists>r name. from_str_request (g_serde ctx) line = Inr r \<and> mcp st = Operational \<and>
     req_method r = ''tools/call'' \<and> req_id r \<noteq> None \<and> called_tool (req_params r) = Some name \<and>
     dispatch_line ctx env line st = handle_call_method ctx env r st"
proof (cases "from_str_request (g_serde ctx) line")
  case (Inl e)
  with assms show ?thesis by (simp add: dispatch_line_def)
next
  case (Inr r)
  then have d: "dispatch_line ctx env line st = handle_request ctx env r st"
    by (simp add: dispatch_line_def)
  with assms have r: "req_method r = ''tools/call''" "mcp st = Operational"
    using backend_calls_other_method [of r st ctx env] by auto
  with d have h: "dispatch_line ctx env line st = handle_call_method ctx env r st"
    by (simp add: handle_request_call)
  have n: "\<not> is_notification r" using assms h by (auto simp: handle_call_method_def)
  with assms h have "called_tool (req_params r) \<noteq> None"
    using handle_call_method_unnamed [OF n, of ctx env st] by auto
  with Inr r h n show ?thesis by (auto simp: is_notification_def)
qed

lemma named_call_reaches:
  assumes "from_str_request (g_serde ctx) line = Inr r" and "mcp st = Operational"
    and "req_method r = ''tools/call''" and "req_id r \<noteq> None" and "called_tool (req_params r) = Some name"
  shows "backend_calls (fst (dispatch_line ctx env line st)) \<noteq> [] \<longleftrightarrow>
    verdict_of ctx env st (req_params r) name = Admitted \<and>
    reachable_backend (g_catalog ctx) st (req_params r) \<noteq> None"
proof -
  have "dispatch_line ctx env line st = handle_call_method ctx env r st"
    using assms(1-3) by (simp add: dispatch_line_def handle_request_call)
  moreover have "\<not> is_notification r" using assms(4) by (simp add: is_notification_def)
  ultimately show ?thesis
    using handle_call_method_named [OF _ assms(5), of ctx env st]
    by (cases "verdict_of ctx env st (req_params r) name = Admitted")
      (auto simp: refusal_def answered_def split: option.splits)
qed

lemma admitted_reachable_iff:
  assumes "called_tool (req_params r) = Some name"
  shows "verdict_of ctx env st (req_params r) name = Admitted \<and>
    reachable_backend (g_catalog ctx) st (req_params r) \<noteq> None \<longleftrightarrow>
    (\<exists>b. route (g_catalog ctx) name = Some b \<and> hm_get (backends st) b \<noteq> None \<and>
      name \<notin> set (disabled_tools (kill_switch (hot st))) \<and>
      b \<notin> set (disabled_backends (kill_switch (hot st))) \<and>
      rate_answer ctx env st name = Inr () \<and>
      is_tool_allowed (ci_role (g_caller ctx)) name Execute (g_rbac ctx) \<and>
      schema_answer ctx (req_params r) name = Inr () \<and>
      (case hm_get (breakers st) b of None \<Rightarrow> True | Some cb \<Rightarrow> \<not> cb_blocked (me_cb_allow env) cb))"
  using assms
  by (auto simp: verdict_Admitted_iff reachable_backend_def backend_killed_def circuit_blocks_def
      split: option.splits bind_splits if_splits)

lemma backend_reach_iff:
  "backend_calls (fst (dispatch_line ctx env line st)) \<noteq> [] \<longleftrightarrow>
   (\<exists>r name b. from_str_request (g_serde ctx) line = Inr r \<and> mcp st = Operational \<and>
      req_method r = ''tools/call'' \<and> req_id r \<noteq> None \<and> called_tool (req_params r) = Some name \<and>
      route (g_catalog ctx) name = Some b \<and> hm_get (backends st) b \<noteq> None \<and>
      name \<notin> set (disabled_tools (kill_switch (hot st))) \<and>
      b \<notin> set (disabled_backends (kill_switch (hot st))) \<and>
      rate_answer ctx env st name = Inr () \<and>
      is_tool_allowed (ci_role (g_caller ctx)) name Execute (g_rbac ctx) \<and>
      schema_answer ctx (req_params r) name = Inr () \<and>
      (case hm_get (breakers st) b of None \<Rightarrow> True | Some cb \<Rightarrow> \<not> cb_blocked (me_cb_allow env) cb))"
  (is "?L \<longleftrightarrow> ?R")
proof
  assume L: ?L
  from dispatch_backend_calls [OF L] obtain r name where r:
    "from_str_request (g_serde ctx) line = Inr r" "mcp st = Operational"
    "req_method r = ''tools/call''" "req_id r \<noteq> None" "called_tool (req_params r) = Some name"
    by blast
  with L named_call_reaches [OF r] admitted_reachable_iff [OF r(5)] show ?R by blast
next
  assume ?R
  then obtain r name where r: "from_str_request (g_serde ctx) line = Inr r" "mcp st = Operational"
    "req_method r = ''tools/call''" "req_id r \<noteq> None" "called_tool (req_params r) = Some name"
    and "verdict_of ctx env st (req_params r) name = Admitted \<and>
      reachable_backend (g_catalog ctx) st (req_params r) \<noteq> None"
    using admitted_reachable_iff by blast
  with named_call_reaches [OF r] show ?L by blast
qed

text \<open>
  C2: A message reaches a backend if and only if the session is initialised, the message is a
  \<^verbatim>\<open>tools/call\<close> request with an id and a tool name, the catalog routes the tool to a backend that is
  connected, and every guard passes: neither the tool nor its backend is disabled, the rate limiter
  admits the caller, the caller's role may execute the tool, the arguments fit the schema, and the
  backend's breaker does not block.
\<close>

theorem backend_reached_iff:
  "backend_calls (fst (dispatch_line ctx env line st)) \<noteq> [] \<longleftrightarrow>
   (\<exists>r name b. from_str_request (g_serde ctx) line = Inr r \<and> mcp st = Operational \<and>
      req_method r = ''tools/call'' \<and> req_id r \<noteq> None \<and> called_tool (req_params r) = Some name \<and>
      route (g_catalog ctx) name = Some b \<and> hm_get (backends st) b \<noteq> None \<and>
      name \<notin> set (disabled_tools (kill_switch (hot st))) \<and>
      b \<notin> set (disabled_backends (kill_switch (hot st))) \<and>
      rate_answer ctx env st name = Inr () \<and>
      is_tool_allowed (ci_role (g_caller ctx)) name Execute (g_rbac ctx) \<and>
      schema_answer ctx (req_params r) name = Inr () \<and>
      (case hm_get (breakers st) b of None \<Rightarrow> True | Some cb \<Rightarrow> \<not> cb_blocked (me_cb_allow env) cb))"
  by (rule backend_reach_iff)

section \<open>Responses and audit entries of any message\<close>

lemma answered_or_refused:
  assumes "\<not> is_notification r"
  shows "\<exists>resp. sends (fst (handle_call_method ctx env r st)) = [resp] \<and> resp_id resp = id_or_null r"
proof (cases "called_tool (req_params r)")
  case None
  with assms handle_call_method_unnamed [of r ctx env st] show ?thesis by simp
next
  case (Some name)
  from handle_call_method_named [OF assms Some, of ctx env st] show ?thesis
    by (cases "verdict_of ctx env st (req_params r) name = Admitted")
      (auto simp: refusal_def answered_def)
qed

lemma handle_call_method_audits:
  assumes "\<not> is_notification r"
  shows "map ae_tool_name (audits (fst (handle_call_method ctx env r st))) =
     (if g_audit ctx then [case called_tool (req_params r) of None \<Rightarrow> ''unknown'' | Some n \<Rightarrow> n] else [])"
proof (cases "called_tool (req_params r)")
  case None
  with assms handle_call_method_unnamed [of r ctx env st] show ?thesis by simp
next
  case (Some name)
  from handle_call_method_named [OF assms Some, of ctx env st] Some show ?thesis
    by (cases "verdict_of ctx env st (req_params r) name = Admitted")
      (auto simp: refusal_def answered_def)
qed

text \<open>Whoever the entry is about, it names the caller and the message.\<close>

definition entry_by :: "'v gw_ctx \<Rightarrow> msg_env \<Rightarrow> AuditEntry \<Rightarrow> bool" where
  "entry_by ctx env a \<longleftrightarrow>
     ae_request_id a = me_uuid env \<and> ae_timestamp a = me_utc env \<and>
     ae_client_subject a = ci_subject (g_caller ctx) \<and> ae_client_role a = ci_role (g_caller ctx) \<and>
     ae_backend_name a = backend_label (g_catalog ctx) (ae_tool_name a)"

lemma entry_by_audit:
  "b = backend_label (g_catalog ctx) t \<Longrightarrow> list_all (entry_by ctx env) (audits (audit ctx env t b a s e l))"
  by (simp add: audit_def entry_by_def)

lemma guards_entry_by:
  "fst (tools_call_guards ctx env st r name) = Some effs \<Longrightarrow> list_all (entry_by ctx env) (audits effs)"
  by (auto simp: tools_call_guards_def kill_tool_guard_def kill_backend_guard_def rate_limit_guard_def
      rbac_guard_def schema_guard_def circuit_guard_def Let_def effect_simps case_prod_beta
      backend_label_def intro!: entry_by_audit split: option.splits sum.splits if_splits)

lemma handle_call_method_entry_by: "list_all (entry_by ctx env) (audits (fst (handle_call_method ctx env r st)))"
proof -
  have fin: "list_all (entry_by ctx env) (audits (finish_tools_call ctx env r resp))" for resp
    by (simp add: finish_tools_call_def effect_simps Let_def entry_by_audit)
  show ?thesis
  proof (cases "is_notification r \<or> called_tool (req_params r) = None")
    case True
    with fin show ?thesis
      by (auto simp: handle_call_method_def effect_simps case_prod_beta)
  next
    case False
    then obtain name where "\<not> is_notification r" "called_tool (req_params r) = Some name" by auto
    with fin guards_entry_by [of ctx env st r name] show ?thesis
      by (auto simp: handle_call_method_def effect_simps case_prod_beta split: option.splits)
  qed
qed

lemma dispatch_response_ids:
  "map resp_id (sends (fst (dispatch_line ctx env line st))) =
     (case from_str_request (g_serde ctx) line of
        Inl e \<Rightarrow> [Null]
      | Inr r \<Rightarrow>
          if can_accept_method (mcp st) (req_method r) \<and> req_method r = ''initialize'' then [id_or_null r]
          else if can_accept_method (mcp st) (req_method r) \<and> req_method r = ''notifications/initialized''
          then []
          else (case req_id r of None \<Rightarrow> [] | Some i \<Rightarrow> [i]))"
proof (cases "from_str_request (g_serde ctx) line")
  case (Inl e)
  then show ?thesis by (simp add: dispatch_line_def)
next
  case (Inr r)
  have call: "map resp_id (sends (fst (handle_call_method ctx env r st))) =
      (case req_id r of None \<Rightarrow> [] | Some i \<Rightarrow> [i])"
  proof (cases "req_id r")
    case None
    then show ?thesis by (simp add: handle_call_method_def is_notification_def)
  next
    case (Some i)
    then have "\<not> is_notification r" by (simp add: is_notification_def)
    from answered_or_refused [OF this, of ctx env st] Some show ?thesis by (auto simp: id_or_null_def)
  qed
  with Inr show ?thesis
    by (auto simp: dispatch_line_def handle_request_def handle_initialize_method_def
        handle_tools_list_def is_notification_def id_or_null_def Let_def
        split: option.splits sum.splits)
qed

lemma dispatch_audits:
  "map ae_tool_name (audits (fst (dispatch_line ctx env line st))) =
     (case from_str_request (g_serde ctx) line of
        Inl e \<Rightarrow> []
      | Inr r \<Rightarrow>
          if g_audit ctx \<and> mcp st = Operational \<and> req_method r = ''tools/call'' \<and> req_id r \<noteq> None
          then [case called_tool (req_params r) of None \<Rightarrow> ''unknown'' | Some n \<Rightarrow> n]
          else []) \<and>
   list_all (entry_by ctx env) (audits (fst (dispatch_line ctx env line st)))"
proof (cases "from_str_request (g_serde ctx) line")
  case (Inl e)
  then show ?thesis by (simp add: dispatch_line_def)
next
  case (Inr r)
  show ?thesis
  proof (cases "req_method r = ''tools/call'' \<and> mcp st = Operational")
    case False
    with Inr backend_calls_other_method [of r st ctx env] show ?thesis
      by (auto simp: dispatch_line_def)
  next
    case True
    then have d: "dispatch_line ctx env line st = handle_call_method ctx env r st"
      using Inr by (simp add: dispatch_line_def handle_request_call)
    show ?thesis
    proof (cases "is_notification r")
      case True
      then show ?thesis using d Inr by (simp add: handle_call_method_def is_notification_def)
    next
      case False
      with handle_call_method_audits [OF False, of ctx env st] handle_call_method_entry_by [of ctx env r st]
        d Inr \<open>req_method r = ''tools/call'' \<and> mcp st = Operational\<close>
      show ?thesis by (simp add: is_notification_def)
    qed
  qed
qed

text \<open>
  C3: The session answers every request once, with the request's own id, and no notification: a
  line that is not JSON-RPC gets one parse error with a null id; apart from an accepted
  \<^verbatim>\<open>initialize\<close>, which is answered even without an id, and an accepted
  \<^verbatim>\<open>notifications/initialized\<close>, which is not even with one, a message with an id gets exactly one
  response with that id and a message without gets none.
\<close>

theorem one_response_per_request:
  "map resp_id (sends (fst (dispatch_line ctx env line st))) =
     (case from_str_request (g_serde ctx) line of
        Inl e \<Rightarrow> [Null]
      | Inr r \<Rightarrow>
          if can_accept_method (mcp st) (req_method r) \<and> req_method r = ''initialize'' then [id_or_null r]
          else if can_accept_method (mcp st) (req_method r) \<and> req_method r = ''notifications/initialized''
          then []
          else (case req_id r of None \<Rightarrow> [] | Some i \<Rightarrow> [i]))"
  by (rule dispatch_response_ids)

text \<open>
  C5: With audit on, every \<^verbatim>\<open>tools/call\<close> request of an initialised session hands exactly one entry
  to the audit channel, refused or not, under the name the client used (or \<open>unknown\<close>), with the
  caller's subject and role and the owning backend; no other message hands it any, and none does when
  audit is off. (An entry for a full channel is dropped there, with a warning.)
\<close>

theorem audit_exactly_once:
  "map ae_tool_name (audits (fst (dispatch_line ctx env line st))) =
     (case from_str_request (g_serde ctx) line of
        Inl e \<Rightarrow> []
      | Inr r \<Rightarrow>
          if g_audit ctx \<and> mcp st = Operational \<and> req_method r = ''tools/call'' \<and> req_id r \<noteq> None
          then [case called_tool (req_params r) of None \<Rightarrow> ''unknown'' | Some n \<Rightarrow> n]
          else []) \<and>
   list_all (entry_by ctx env) (audits (fst (dispatch_line ctx env line st)))"
  by (rule dispatch_audits)

definition may_see :: "'v gw_ctx \<Rightarrow> gw_state \<Rightarrow> string \<Rightarrow> bool" where
  "may_see ctx st n \<longleftrightarrow>
     n \<notin> set (disabled_tools (kill_switch (hot st))) \<and>
     (case route (g_catalog ctx) n of
        None \<Rightarrow> True
      | Some b \<Rightarrow> b \<notin> set (disabled_backends (kill_switch (hot st)))) \<and>
     is_tool_allowed (ci_role (g_caller ctx)) n Read (g_rbac ctx)"

text \<open>
  C6: \<^verbatim>\<open>tools/list\<close> shows exactly the tools the caller may see: those the catalog routes, whose name
  and backend are not disabled, and which the caller's role may read; each once. A tool that a call
  can reach at that moment is among them.
\<close>

theorem tools_list_exact:
  assumes "catalog_inv (g_catalog ctx)"
  shows "tool_name ` set (visible_tools ctx st) =
     {n. \<exists>b. route (g_catalog ctx) n = Some b \<and> n \<notin> set (disabled_tools (kill_switch (hot st))) \<and>
        b \<notin> set (disabled_backends (kill_switch (hot st))) \<and>
        is_tool_allowed (ci_role (g_caller ctx)) n Read (g_rbac ctx)} \<and>
     distinct (map tool_name (visible_tools ctx st)) \<and>
     (\<forall>r name. from_str_request (g_serde ctx) line = Inr r \<longrightarrow> called_tool (req_params r) = Some name \<longrightarrow>
        backend_calls (fst (dispatch_line ctx env line st)) \<noteq> [] \<longrightarrow>
        name \<in> tool_name ` set (visible_tools ctx st))"
proof -
  have "visible_tools ctx st = filter (\<lambda>tool. may_see ctx st (tool_name tool)) (all_tools (g_catalog ctx))"
    unfolding visible_tools_def by (rule filter_cong) (auto simp: may_see_def split: option.splits)
  with dir.listed_filter [OF assms, of "may_see ctx st"] dir.listed_filter_once [OF assms]
  have names: "tool_name ` set (visible_tools ctx st) = {n. route (g_catalog ctx) n \<noteq> None \<and> may_see ctx st n}"
    and once: "distinct (map tool_name (visible_tools ctx st))"
    by simp_all
  note names
  also have "{n. route (g_catalog ctx) n \<noteq> None \<and> may_see ctx st n} =
     {n. \<exists>b. route (g_catalog ctx) n = Some b \<and> n \<notin> set (disabled_tools (kill_switch (hot st))) \<and>
        b \<notin> set (disabled_backends (kill_switch (hot st))) \<and>
        is_tool_allowed (ci_role (g_caller ctx)) n Read (g_rbac ctx)}"
    by (auto simp: may_see_def)
  finally have names: "tool_name ` set (visible_tools ctx st) =
     {n. \<exists>b. route (g_catalog ctx) n = Some b \<and> n \<notin> set (disabled_tools (kill_switch (hot st))) \<and>
        b \<notin> set (disabled_backends (kill_switch (hot st))) \<and>
        is_tool_allowed (ci_role (g_caller ctx)) n Read (g_rbac ctx)}" .
  have "name \<in> tool_name ` set (visible_tools ctx st)"
    if "from_str_request (g_serde ctx) line = Inr r" "called_tool (req_params r) = Some name"
      "backend_calls (fst (dispatch_line ctx env line st)) \<noteq> []" for r name
    using backend_reach_iff [THEN iffD1, OF that(3)] that(1,2) unfolding names
    by (auto intro: execute_implies_read)
  with names once show ?thesis by blast
qed

theorem tools_list_exact_witness:
  "tool_name ` set (visible_tools demo_ctx (demo_state [''read_query''])) =
     {''list_workflows'', ''execute_workflow''} \<and>
   distinct (map tool_name (visible_tools demo_ctx (demo_state [''read_query''])))"
proof -
  have inv: "catalog_inv (g_catalog demo_ctx)" by simp
  have "{n. \<exists>b. route create_stub_catalog n = Some b \<and> n \<noteq> ''read_query'' \<and>
      is_tool_allowed ''admin'' n Read demo_rbac} = {''list_workflows'', ''execute_workflow''}"
    by (auto simp: route_def cat_tools_stub is_tool_allowed_def demo_rbac_def split: if_splits)
  then show ?thesis
    using tools_list_exact [OF inv, of "demo_state [''read_query'']"]
    by (simp add: demo_state_def demo_ctx_def default_caller_def hot_new_def)
qed

text \<open>
  C15: An admitted call is forwarded verbatim: the single message to the backend is a
  \<^verbatim>\<open>tools/call\<close> request that carries the client's parameters unchanged, tool name included, and a
  number of the gateway in place of the client's id.
\<close>

theorem call_forwarded_verbatim:
  assumes "backend_calls (fst (dispatch_line ctx env line st)) = (b, body) # rest"
  shows "rest = [] \<and>
     (\<exists>r p name v. from_str_request (g_serde ctx) line = Inr r \<and> req_params r = Some p \<and>
        called_tool (Some p) = Some name \<and> route (g_catalog ctx) name = Some b \<and>
        body = to_string_value (g_serde ctx) v \<and>
        get ''method'' v = Some (JString ''tools/call'') \<and> get ''params'' v = Some p \<and>
        get ''id'' v = Some (JNumber (PosInt (counter (remapper st)))))"
proof -
  from assms dispatch_backend_calls [of ctx env line st] obtain r name where r:
    "from_str_request (g_serde ctx) line = Inr r" "req_id r \<noteq> None"
    "called_tool (req_params r) = Some name"
    "dispatch_line ctx env line st = handle_call_method ctx env r st" by auto
  then have n: "\<not> is_notification r" by (simp add: is_notification_def)
  have "verdict_of ctx env st (req_params r) name = Admitted"
    using handle_call_method_named [OF n r(3), of ctx env st] assms r(4) by (auto simp: refusal_def)
  then have "answered ctx env st r name (fst (dispatch_line ctx env line st))"
    using handle_call_method_named [OF n r(3), of ctx env st] r(4) by simp
  with assms obtain be where be: "reachable_backend (g_catalog ctx) st (req_params r) = Some (b, be)"
    and body: "rest = []" "body = to_string_value (g_serde ctx) (outbound (counter (remapper st)) (req_params r))"
    by (auto simp: answered_def split: option.splits)
  obtain p where p: "req_params r = Some p" using r(3) by (cases "req_params r") (auto simp: called_tool_def)
  have "route (g_catalog ctx) name = Some b"
    using be r(3) by (auto simp: reachable_backend_def split: bind_splits)
  with r p body show ?thesis
    by (intro conjI exI [of _ r] exI [of _ p] exI [of _ name]
        exI [of _ "outbound (counter (remapper st)) (Some p)"]) (auto simp: outbound_def)
qed

definition clash_catalog :: ToolCatalog where
  "clash_catalog = register_backend ''b'' [make_tool ''x'' ''second'']
     (register_backend ''a'' [make_tool ''x'' ''first''] catalog_new)"

definition clash_ctx :: "unit gw_ctx" where
  "clash_ctx = demo_ctx\<lparr>g_catalog := clash_catalog\<rparr>"

definition clash_state :: gw_state where
  "clash_state = (demo_state [])\<lparr>backends := [(''a'', HttpB demo_http), (''b'', HttpB demo_http)]\<rparr>"

lemma clash_calls:
  "backend_calls (fst (dispatch_line clash_ctx demo_env ''b__x'' clash_state)) = [(''b'', ''b__x'')]"
proof -
  have p: "from_str_request (g_serde clash_ctx) ''b__x'' = Inr (demo_call ''b__x'')"
    by (simp add: clash_ctx_def demo_ctx_def gw_serde_def)
  have route: "route (g_catalog clash_ctx) ''b__x'' = Some ''b''"
    by (simp add: clash_ctx_def clash_catalog_def register_backend_def register_tool_def catalog_new_def
        make_tool_def route_def prefixed_name_def Let_def)
  have "rate_answer clash_ctx demo_env clash_state ''b__x'' = Inr ()"
    by (simp add: rate_answer_def clash_ctx_def clash_state_def demo_gw_defs check_def bucket_of_def
        bucket_new_def try_consume_def elapsed_def rpm_of_def limiter_new_def RateLimitConfig_default_def
        default_rpm_def)
  then have v: "verdict_of clash_ctx demo_env clash_state (req_params (demo_call ''b__x'')) ''b__x'' = Admitted"
    using route
    by (simp add: verdict_Admitted_iff backend_killed_def circuit_blocks_def schema_answer_def
        is_tool_allowed_def clash_ctx_def clash_state_def demo_gw_defs)
  have "reachable_backend (g_catalog clash_ctx) clash_state (req_params (demo_call ''b__x'')) =
      Some (''b'', HttpB demo_http)"
    using route by (simp add: reachable_backend_def clash_state_def)
  moreover have "answered clash_ctx demo_env clash_state (demo_call ''b__x'') ''b__x''
      (fst (dispatch_line clash_ctx demo_env ''b__x'' clash_state))"
  proof -
    have "dispatch_line clash_ctx demo_env ''b__x'' clash_state =
        handle_call_method clash_ctx demo_env (demo_call ''b__x'') clash_state"
      using p by (simp add: dispatch_line_def handle_request_call clash_state_def)
    then show ?thesis
      using handle_call_method_named [of "demo_call ''b__x''" "''b__x''" clash_ctx demo_env clash_state] v
      by (simp add: is_notification_def)
  qed
  moreover have "to_string_value (g_serde clash_ctx)
      (outbound (counter (remapper clash_state)) (req_params (demo_call ''b__x''))) = ''b__x''"
    by (simp add: clash_ctx_def demo_ctx_def gw_serde_def outbound_def demo_call_def called_tool_def)
  ultimately show ?thesis by (simp add: answered_def)
qed

theorem call_forwarded_verbatim_witness:
  "\<exists>p v. backend_calls (fst (dispatch_line clash_ctx demo_env ''b__x'' clash_state)) =
       [(''b'', to_string_value gw_serde v)] \<and>
     called_tool (Some p) = Some ''b__x'' \<and> get ''method'' v = Some (JString ''tools/call'') \<and>
     get ''params'' v = Some p \<and> get ''id'' v = Some (JNumber (PosInt 1))"
proof -
  have calls: "backend_calls (fst (dispatch_line clash_ctx demo_env ''b__x'' clash_state)) = (''b'', ''b__x'') # []"
    by (rule clash_calls)
  from call_forwarded_verbatim [OF this]
  obtain r p name v where *: "from_str_request (g_serde clash_ctx) ''b__x'' = Inr r" "req_params r = Some p"
    "called_tool (Some p) = Some name" "''b__x'' = to_string_value (g_serde clash_ctx) v"
    "get ''method'' v = Some (JString ''tools/call'')" "get ''params'' v = Some p"
    "get ''id'' v = Some (JNumber (PosInt (counter (remapper clash_state))))" by blast
  then have "name = ''b__x''" by (simp add: clash_ctx_def demo_ctx_def gw_serde_def demo_call_def called_tool_def)
  moreover have "g_serde clash_ctx = gw_serde" by (simp add: clash_ctx_def demo_ctx_def)
  moreover have "counter (remapper clash_state) = 1"
    by (simp add: clash_state_def demo_state_def remapper_new_def)
  ultimately show ?thesis using * calls by (intro exI [of _ p] exI [of _ v]) simp
qed

text \<open>
  A tool that was renamed because of a name collision is called under its new name: when
  backends \<open>a\<close> and \<open>b\<close> both offer \<open>x\<close>, the catalog lists \<open>b__x\<close>, and a call to it sends \<open>b\<close> a
  request whose tool name is \<open>b__x\<close>, though \<open>b\<close> only offered \<open>x\<close>.
\<close>

theorem renamed_tool_not_translated:
  "map tool_name [make_tool ''x'' ''second''] = [''x''] \<and>
   tool_name ` set (all_tools clash_catalog) = {''x'', ''b__x''} \<and>
   backend_calls (fst (dispatch_line clash_ctx demo_env ''b__x'' clash_state)) = [(''b'', ''b__x'')]"
  using clash_calls
  by (simp add: clash_catalog_def register_backend_def register_tool_def catalog_new_def make_tool_def
      all_tools_def prefixed_name_def Let_def)

end
