(* ===== verification/Gateway_Run.thy ===== *)
theory Gateway_Run
  imports Gateway_Call
begin

text \<open>
  What a whole session does: the invariant of the dispatch loop over every sequence of messages,
  reloads and shutdown, the order in which a session unfolds, and the policies that hold across
  messages.
\<close>

section \<open>The loop as a transition system\<close>

inductive gw_step :: "'v gw_ctx \<Rightarrow> gw_state \<Rightarrow> gw_event \<Rightarrow> gw_state \<Rightarrow> bool" for ctx where
  line: "mcp st \<noteq> McpState.Closed \<Longrightarrow>
     gw_step ctx st (Line l env) (snd (dispatch_line ctx env l st))"
| eof: "mcp st \<noteq> McpState.Closed \<Longrightarrow> gw_step ctx st Eof (st\<lparr>mcp := McpState.Closed\<rparr>)"
| cancel: "mcp st \<noteq> McpState.Closed \<Longrightarrow> gw_step ctx st Cancel (st\<lparr>mcp := McpState.Closed\<rparr>)"
| sighup: "gw_step ctx st (Sighup rd toml path)
     (st\<lparr>hot := on_sighup (reload_hot_config rd toml path) (hot st)\<rparr>)"

inductive_cases gw_step_lineE: "gw_step ctx st (Line l env) st'"

text \<open>Where the loop starts: a new table, a new limiter, new breakers, idle backends.\<close>

definition idle_backend :: "Backend \<Rightarrow> bool" where
  "idle_backend b = (case b of HttpB h \<Rightarrow> True | StdioB s \<Rightarrow> sb_pending s = [])"

definition gw_init :: "gw_state \<Rightarrow> bool" where
  "gw_init st \<longleftrightarrow>
     mcp st = Created \<and> remapper st = remapper_new \<and>
     (\<exists>ks rl. hot st = hot_new ks (limiter_new rl)) \<and>
     hm_wf (breakers st) \<and> hm_wf (backends st) \<and> list_all (\<lambda>(n, b). idle_backend b) (backends st)"

definition gw_inv :: "gw_state \<Rightarrow> bool" where
  "gw_inv st \<longleftrightarrow>
     mappings (remapper st) = [] \<and> limiter_inv (rate_limiter (hot st)) \<and>
     hm_wf (breakers st) \<and> hm_wf (backends st) \<and>
     (\<forall>n b. hm_get (backends st) n = Some b \<longrightarrow> idle_backend b)"

section \<open>The handlers keep the invariant\<close>

lemma gw_inv_mcp [simp]: "gw_inv (st\<lparr>mcp := m\<rparr>) \<longleftrightarrow> gw_inv st"
  by (simp add: gw_inv_def)

lemma gw_inv_update_breaker: "gw_inv st \<Longrightarrow> gw_inv (update_breaker b f st)"
  by (simp add: gw_inv_def update_breaker_def split: option.splits)

lemma gw_inv_guards: "gw_inv st \<Longrightarrow> gw_inv (snd (tools_call_guards ctx env st r name))"
  by (auto simp: gw_inv_def tools_call_guards_def circuit_guard_def rate_limit_guard_state check_inv
      case_prod_beta split: option.splits)

lemma idle_backend_send: "idle_backend b \<Longrightarrow> idle_backend (snd (backend_send sd env b body))"
  by (simp add: idle_backend_def backend_send_def case_prod_beta stdio_send_pending
      split: Backend.splits sum.splits)

lemma gw_inv_handle_tools_call:
  assumes "gw_inv st"
  shows "gw_inv (snd (snd (handle_tools_call sd env c cid params st)))"
proof (cases "reachable_backend c st params")
  case None
  with handle_tools_call_unreachable [OF this] assms show ?thesis by simp
next
  case (Some p)
  obtain b be where p: "p = (b, be)" by (cases p)
  obtain g tbl where g: "remap cid b (remapper st) = (g, tbl)" by (cases "remap cid b (remapper st)")
  obtain res be' where r: "backend_send sd env be (to_string_value sd (outbound g params)) = (res, be')"
    by (cases "backend_send sd env be (to_string_value sd (outbound g params))")
  have "hm_get (backends st) b = Some be"
    using Some p by (auto simp: reachable_backend_def split: bind_splits)
  with assms have "idle_backend be" by (simp add: gw_inv_def)
  from idle_backend_send [OF this, of sd env "to_string_value sd (outbound g params)"] r
  have "idle_backend be'" by simp
  moreover have "mappings (snd (restore g tbl)) = []"
    using restore_remap_empty [of "remapper st" cid b] g assms by (simp add: gw_inv_def)
  ultimately show ?thesis
    using handle_tools_call_reachable [OF Some [unfolded p] g refl r] assms
    by (auto simp: gw_inv_def backend_answer_eq Let_def update_breaker_def
        split: option.splits if_splits)
qed

lemma gw_inv_dispatch:
  assumes "gw_inv st"
  shows "gw_inv (snd (dispatch_line ctx env l st))"
proof -
  have "gw_inv (snd (handle_call_method ctx env r st))" for r
    using assms gw_inv_guards [OF assms]
    by (auto simp: handle_call_method_def case_prod_beta intro!: gw_inv_handle_tools_call
        split: option.splits)
  then show ?thesis
    using assms
    by (simp add: dispatch_line_def handle_request_def handle_initialize_method_def Let_def
        split: sum.splits)
qed

lemma gw_inv_sighup:
  "gw_inv st \<Longrightarrow> gw_inv (st\<lparr>hot := on_sighup (reload_hot_config rd toml path) (hot st)\<rparr>)"
  by (auto simp: gw_inv_def on_sighup_def reload_hot_config_def hot_new_def limiter_inv_new Let_def
      split: sum.splits)

interpretation gw: invariant_system gw_init "gw_step ctx" gw_inv
proof unfold_locales
  show "gw_init st \<Longrightarrow> gw_inv st" for st
    by (auto simp: gw_init_def gw_inv_def remapper_new_def hot_new_def limiter_inv_new list_all_iff
        dest!: map_of_SomeD)
  show "gw_inv st \<Longrightarrow> gw_step ctx st e st' \<Longrightarrow> gw_inv st'" for st e st'
    by (erule gw_step.cases) (simp_all add: gw_inv_dispatch gw_inv_sighup)
qed

section \<open>Runs\<close>

lemma run_dispatch_Line:
  "run_dispatch ctx (Line l env # es) st =
     (fst (dispatch_line ctx env l st) @ fst (run_dispatch ctx es (snd (dispatch_line ctx env l st))),
      snd (run_dispatch ctx es (snd (dispatch_line ctx env l st))))"
  by (simp add: case_prod_beta)

text \<open>Induction along a run.\<close>

lemma run_induct [case_names Nil Line Eof Cancel Sighup]:
  assumes "\<And>st. P [] st"
    and "\<And>l env es st. P es (snd (dispatch_line ctx env l st)) \<Longrightarrow> P (Line l env # es) st"
    and "\<And>es st. P (Eof # es) st" and "\<And>es st. P (Cancel # es) st"
    and "\<And>rd toml path es st.
      P es (st\<lparr>hot := on_sighup (reload_hot_config rd toml path) (hot st)\<rparr>) \<Longrightarrow>
      P (Sighup rd toml path # es) st"
  shows "P es st"
proof (induction es arbitrary: st)
  case Nil
  then show ?case by (rule assms(1))
next
  case (Cons e es)
  then show ?case by (cases e) (auto intro: assms)
qed

lemma gw_inv_run: "gw_inv st \<Longrightarrow> gw_inv (snd (run_dispatch ctx es st))"
  by (induction es st rule: run_induct [where ctx = ctx])
    (simp_all add: run_dispatch_Line gw_inv_dispatch gw_inv_sighup del: run_dispatch.simps(2))

text \<open>Only \<^verbatim>\<open>initialize\<close> and \<^verbatim>\<open>notifications/initialized\<close> move the state of the session.\<close>

lemma handle_tools_call_mcp: "mcp (snd (snd (handle_tools_call sd env c cid params st))) = mcp st"
  by (simp add: handle_tools_call_def Let_def case_prod_beta backend_answer_eq split: option.splits)

lemma handle_tools_call_hot: "hot (snd (snd (handle_tools_call sd env c cid params st))) = hot st"
  by (simp add: handle_tools_call_def Let_def case_prod_beta backend_answer_eq split: option.splits)

lemma handle_call_method_mcp: "mcp (snd (handle_call_method ctx env r st)) = mcp st"
  by (simp add: handle_call_method_def case_prod_beta handle_tools_call_mcp tools_call_guards_state
      split: option.splits)

lemma handle_call_method_kill_switch:
  "kill_switch (hot (snd (handle_call_method ctx env r st))) = kill_switch (hot st)"
  by (simp add: handle_call_method_def case_prod_beta handle_tools_call_hot tools_call_guards_state
      split: option.splits)

definition method_of :: "'v gw_ctx \<Rightarrow> string \<Rightarrow> string option" where
  "method_of ctx l =
     (case from_str_request (g_serde ctx) l of Inl e \<Rightarrow> None | Inr r \<Rightarrow> Some (req_method r))"

lemma dispatch_mcp:
  "mcp (snd (dispatch_line ctx env l st)) =
     (case method_of ctx l of
        None \<Rightarrow> mcp st
      | Some m \<Rightarrow>
          if \<not> can_accept_method (mcp st) m then mcp st
          else if m = ''initialize'' then Initializing
          else if m = ''notifications/initialized'' then Operational
          else mcp st)"
  by (simp add: dispatch_line_def method_of_def handle_request_def handle_initialize_method_def
      handle_call_method_mcp Let_def split: sum.splits)

lemma dispatch_kill_switch: "kill_switch (hot (snd (dispatch_line ctx env l st))) = kill_switch (hot st)"
  by (simp add: dispatch_line_def handle_request_def handle_initialize_method_def
      handle_call_method_kill_switch Let_def split: sum.splits)

lemma backend_calls_method:
  assumes "backend_calls (fst (dispatch_line ctx env l st)) \<noteq> []"
  shows "method_of ctx l = Some ''tools/call'' \<and> mcp st = Operational"
  using dispatch_backend_calls [OF assms] by (auto simp: method_of_def)

text \<open>A run over messages stays among the reachable states.\<close>

lemma run_lines_reach:
  "reach gw_init (gw_step ctx) st \<Longrightarrow> mcp st \<noteq> McpState.Closed \<Longrightarrow> list_all (\<lambda>e. \<exists>l env. e = Line l env) es \<Longrightarrow>
   reach gw_init (gw_step ctx) (snd (run_dispatch ctx es st))"
proof (induction es st rule: run_induct [where ctx = ctx])
  case (Line l env es st)
  have "reach gw_init (gw_step ctx) (snd (dispatch_line ctx env l st))"
    using Line.prems(1) gw_step.line [OF Line.prems(2)] by (rule reach_step)
  moreover have "mcp (snd (dispatch_line ctx env l st)) \<noteq> McpState.Closed"
    using Line.prems(2) by (auto simp: dispatch_mcp split: option.splits)
  ultimately show ?case using Line by (simp add: run_dispatch_Line del: run_dispatch.simps(2))
qed simp_all

text \<open>No message connects or disconnects a backend.\<close>

lemma handle_tools_call_backends:
  "dom (hm_get (backends (snd (snd (handle_tools_call sd env c cid params st))))) = dom (hm_get (backends st))"
  by (auto simp: handle_tools_call_def Let_def case_prod_beta backend_answer_eq split: option.splits)

lemma dispatch_backends:
  "dom (hm_get (backends (snd (dispatch_line ctx env l st)))) = dom (hm_get (backends st))"
proof -
  have "dom (hm_get (backends (snd (handle_call_method ctx env r st)))) = dom (hm_get (backends st))" for r
    by (simp add: handle_call_method_def case_prod_beta handle_tools_call_backends tools_call_guards_state
        split: option.splits)
  then show ?thesis
    by (simp add: dispatch_line_def handle_request_def handle_initialize_method_def Let_def split: sum.splits)
qed

lemma run_backends: "dom (hm_get (backends (snd (run_dispatch ctx es st)))) = dom (hm_get (backends st))"
  by (induction es st rule: run_induct [where ctx = ctx])
    (simp_all add: run_dispatch_Line dispatch_backends del: run_dispatch.simps(2))

section \<open>The order of a session\<close>

text \<open>The methods of the lines of a run, and those that must still come before a backend call.\<close>

fun methods :: "'v gw_ctx \<Rightarrow> gw_event list \<Rightarrow> string list" where
  "methods ctx [] = []"
| "methods ctx (Line l env # es) =
     (case method_of ctx l of None \<Rightarrow> methods ctx es | Some m \<Rightarrow> m # methods ctx es)"
| "methods ctx (e # es) = methods ctx es"

fun still_needed :: "McpState \<Rightarrow> string list" where
  "still_needed Created = [''initialize'', ''notifications/initialized'', ''tools/call'']"
| "still_needed Initializing = [''notifications/initialized'', ''tools/call'']"
| "still_needed Operational = [''tools/call'']"
| "still_needed McpState.Closed = [''initialize'', ''notifications/initialized'', ''tools/call'']"

lemma still_needed_step:
  assumes "subseq (still_needed (mcp (snd (dispatch_line ctx env l st)))) (methods ctx es)"
  shows "subseq (still_needed (mcp st)) (methods ctx (Line l env # es))"
  using assms
  by (cases "mcp st")
    (auto simp: dispatch_mcp split: option.splits if_splits dest: subseq_Cons')

lemma needed_before_calls:
  "backend_calls (fst (run_dispatch ctx es st)) \<noteq> [] \<Longrightarrow> subseq (still_needed (mcp st)) (methods ctx es)"
proof (induction es st rule: run_induct [where ctx = ctx])
  case (Line l env es st)
  show ?case
  proof (cases "backend_calls (fst (dispatch_line ctx env l st)) = []")
    case True
    with Line show ?thesis
      by (intro still_needed_step) (auto simp: run_dispatch_Line effect_simps simp del: run_dispatch.simps)
  next
    case False
    from backend_calls_method [OF this] show ?thesis by simp
  qed
qed simp_all

section \<open>The rate limit across a session\<close>

text \<open>The request a line puts to the limiter, if it gets that far.\<close>

definition line_tool :: "'v gw_ctx \<Rightarrow> string \<Rightarrow> string option" where
  "line_tool ctx l =
     (case from_str_request (g_serde ctx) l of Inl e \<Rightarrow> None | Inr r \<Rightarrow> called_tool (req_params r))"

definition rl_check :: "'v gw_ctx \<Rightarrow> msg_env \<Rightarrow> string \<Rightarrow> gw_state \<Rightarrow> rl_request option" where
  "rl_check ctx env l st =
     (case from_str_request (g_serde ctx) l of
        Inl e \<Rightarrow> None
      | Inr r \<Rightarrow>
          (case called_tool (req_params r) of
             None \<Rightarrow> None
           | Some name \<Rightarrow>
               if mcp st = Operational \<and> req_method r = ''tools/call'' \<and> \<not> is_notification r \<and>
                  name \<notin> set (disabled_tools (kill_switch (hot st))) \<and> backend_killed ctx st name = None
               then Some \<lparr>rq_client = ci_subject (g_caller ctx), rq_tool = name, rq_new = me_rl_new env,
                          rq_el = me_rl_elapsed env, rq_ref = me_rl_refill env\<rparr>
               else None))"

lemma guards_limiter:
  "rate_limiter (hot (snd (tools_call_guards ctx env st r name))) =
     (if name \<in> set (disabled_tools (kill_switch (hot st))) \<or> backend_killed ctx st name \<noteq> None
      then rate_limiter (hot st)
      else snd (check (rate_limiter (hot st)) (ci_subject (g_caller ctx)) name
        (me_rl_new env) (me_rl_elapsed env) (me_rl_refill env)))"
proof (cases "kill_tool_guard ctx env st r name = None \<and> kill_backend_guard ctx env st r name = None")
  case True
  then have "snd (tools_call_guards ctx env st r name) = snd (rate_limit_guard ctx env st r name) \<or>
      snd (tools_call_guards ctx env st r name) =
        snd (circuit_guard ctx env (snd (rate_limit_guard ctx env st r name)) r name)"
    by (simp add: tools_call_guards_def case_prod_beta split: option.splits)
  then show ?thesis
    using True kill_tool_guard_verdict(1) [of ctx env st r name] kill_backend_guard_verdict(1) [of ctx env st r name]
    by (auto simp: rate_limit_guard_state circuit_guard_def case_prod_beta split: option.splits)
next
  case False
  then have "snd (tools_call_guards ctx env st r name) = st"
    by (auto simp: tools_call_guards_def split: option.splits)
  with False kill_tool_guard_verdict(1) [of ctx env st r name] kill_backend_guard_verdict(1) [of ctx env st r name]
  show ?thesis by auto
qed

lemma handle_call_method_limiter:
  assumes "\<not> is_notification r"
  shows "rate_limiter (hot (snd (handle_call_method ctx env r st))) =
     (case called_tool (req_params r) of
        None \<Rightarrow> rate_limiter (hot st)
      | Some name \<Rightarrow> rate_limiter (hot (snd (tools_call_guards ctx env st r name))))"
  using assms
  by (simp add: handle_call_method_def case_prod_beta handle_tools_call_hot split: option.splits)

lemma dispatch_limiter:
  "rate_limiter (hot (snd (dispatch_line ctx env l st))) =
     (case rl_check ctx env l st of
        None \<Rightarrow> rate_limiter (hot st)
      | Some q \<Rightarrow> snd (serve_limiter q (rate_limiter (hot st))))"
proof (cases "from_str_request (g_serde ctx) l")
  case (Inl e)
  then show ?thesis by (simp add: dispatch_line_def rl_check_def)
next
  case (Inr r)
  show ?thesis
  proof (cases "mcp st = Operational \<and> req_method r = ''tools/call'' \<and> \<not> is_notification r")
    case True
    with Inr have "dispatch_line ctx env l st = handle_call_method ctx env r st"
      by (simp add: dispatch_line_def handle_request_call)
    with True Inr show ?thesis
      by (auto simp: handle_call_method_limiter guards_limiter rl_check_def serve_limiter_def
          split: option.splits)
  next
    case False
    then have "rate_limiter (hot (snd (dispatch_line ctx env l st))) = rate_limiter (hot st)"
      using Inr
      by (cases "mcp st")
        (auto simp: dispatch_line_def handle_request_def handle_initialize_method_def
          handle_call_method_def Let_def)
    with False Inr show ?thesis by (auto simp: rl_check_def split: option.splits)
  qed
qed

lemma calls_checked:
  assumes "backend_calls (fst (dispatch_line ctx env l st)) \<noteq> []"
  shows "\<exists>q. rl_check ctx env l st = Some q \<and> fst (serve_limiter q (rate_limiter (hot st))) = Inr () \<and>
     rq_client q = ci_subject (g_caller ctx) \<and> line_tool ctx l = Some (rq_tool q)"
  using backend_reach_iff [THEN iffD1, OF assms]
  by (auto simp: rl_check_def line_tool_def is_notification_def backend_killed_def serve_limiter_def
      rate_answer_def)

text \<open>Along a run without a reload: the requests to the limiter, and the calls of one tool.\<close>

fun rl_checks :: "'v gw_ctx \<Rightarrow> gw_event list \<Rightarrow> gw_state \<Rightarrow> rl_request list" where
  "rl_checks ctx (Line l env # es) st =
     (case rl_check ctx env l st of None \<Rightarrow> [] | Some q \<Rightarrow> [q]) @
     rl_checks ctx es (snd (dispatch_line ctx env l st))"
| "rl_checks ctx _ st = []"

fun tool_calls :: "'v gw_ctx \<Rightarrow> string \<Rightarrow> gw_event list \<Rightarrow> gw_state \<Rightarrow> nat" where
  "tool_calls ctx t [] st = 0"
| "tool_calls ctx t (Line l env # es) st =
     (if line_tool ctx l = Some t then length (backend_calls (fst (dispatch_line ctx env l st))) else 0) +
     tool_calls ctx t es (snd (dispatch_line ctx env l st))"
| "tool_calls ctx t (Sighup rd toml path # es) st =
     tool_calls ctx t es (st\<lparr>hot := on_sighup (reload_hot_config rd toml path) (hot st)\<rparr>)"
| "tool_calls ctx t (e # es) st = 0"

fun no_reload :: "gw_event \<Rightarrow> bool" where
  "no_reload (Sighup rd toml path) = False"
| "no_reload e = True"

fun event_in_window :: "nanos \<Rightarrow> gw_event \<Rightarrow> bool" where
  "event_in_window t0 (Line l env) = (t0 \<le> me_rl_refill env \<and> me_rl_elapsed env < t0 + sec 60)"
| "event_in_window t0 e = True"

lemma length_backend_calls: "length (backend_calls (fst (dispatch_line ctx env l st))) \<le> 1"
proof (cases "backend_calls (fst (dispatch_line ctx env l st)) = []")
  case False
  from dispatch_backend_calls [OF False] obtain r name
    where "\<not> is_notification r" "called_tool (req_params r) = Some name"
      and d: "dispatch_line ctx env l st = handle_call_method ctx env r st"
    by (auto simp: is_notification_def)
  from handle_call_method_named [OF this(1,2), of ctx env st] d show ?thesis
    by (cases "verdict_of ctx env st (req_params r) name = Admitted")
      (auto simp: refusal_def answered_def split: option.splits)
qed simp

lemma tool_calls_admitted:
  "list_all no_reload es \<Longrightarrow>
   tool_calls ctx t es st \<le>
     successes (own_results (ci_subject (g_caller ctx)) t (rl_checks ctx es st)
       (fst (run_steps serve_limiter (rl_checks ctx es st) (rate_limiter (hot st)))))"
proof (induction es st rule: run_induct [where ctx = ctx])
  case (Line l env es st)
  let ?st = "snd (dispatch_line ctx env l st)"
  let ?n = "if line_tool ctx l = Some t then length (backend_calls (fst (dispatch_line ctx env l st))) else 0"
  have IH: "tool_calls ctx t es ?st \<le>
      successes (own_results (ci_subject (g_caller ctx)) t (rl_checks ctx es ?st)
        (fst (run_steps serve_limiter (rl_checks ctx es ?st) (rate_limiter (hot ?st)))))"
    using Line by simp
  show ?case
  proof (cases "rl_check ctx env l st")
    case None
    then have "backend_calls (fst (dispatch_line ctx env l st)) = []"
      using calls_checked [of ctx env l st] by auto
    then have "?n = 0" by simp
    with IH None show ?thesis by (simp add: dispatch_limiter)
  next
    case (Some q)
    have "?n \<le> (if own (ci_subject (g_caller ctx)) t q \<and>
        \<not> isl (fst (serve_limiter q (rate_limiter (hot st)))) then 1 else 0)"
      using calls_checked [of ctx env l st] length_backend_calls [of ctx env l st] Some
      by (cases "backend_calls (fst (dispatch_line ctx env l st)) = []") (auto simp: own_def)
    with IH Some show ?thesis
      by (auto simp: run_steps_Cons dispatch_limiter successes_Cons simp del: run_steps.simps(2)
          split: if_splits)
  qed
qed simp_all

lemma rl_checks_in_window:
  "list_all (event_in_window t0) es \<Longrightarrow> list_all (in_window t0) (rl_checks ctx es st)"
proof (induction ctx es st rule: rl_checks.induct)
  case (1 ctx l env es st)
  moreover have "in_window t0 q" if "rl_check ctx env l st = Some q" for q
    using that 1(2) by (auto simp: rl_check_def in_window_def split: sum.splits option.splits if_splits)
  ultimately show ?case by (auto split: option.splits)
qed simp_all

section \<open>Disabled backends\<close>

lemma dispatch_call_admitted:
  assumes "(b, body) \<in> set (backend_calls (fst (dispatch_line ctx env l st)))"
  shows "\<exists>(r :: JsonRpcRequest) name.
     verdict_of ctx env st (req_params r) name = Admitted \<and> route (g_catalog ctx) name = Some b \<and>
     called_tool (req_params r) = Some name \<and> hm_contains (backends st) b \<and>
     body = to_string_value (g_serde ctx) (outbound (counter (remapper st)) (req_params r))"
proof -
  from assms have ne: "backend_calls (fst (dispatch_line ctx env l st)) \<noteq> []" by auto
  from dispatch_backend_calls [OF ne] obtain r name where r: "\<not> is_notification r"
    "called_tool (req_params r) = Some name"
    and d: "dispatch_line ctx env l st = handle_call_method ctx env r st"
    by (auto simp: is_notification_def)
  note named = handle_call_method_named [OF r, of ctx env st]
  have v: "verdict_of ctx env st (req_params r) name = Admitted"
    using named ne d by (auto simp: refusal_def)
  with named d assms have "route (g_catalog ctx) name = Some b \<and> hm_contains (backends st) b \<and>
      body = to_string_value (g_serde ctx) (outbound (counter (remapper st)) (req_params r))"
    using r(2) by (auto simp: answered_def reachable_backend_def split: option.splits bind_splits)
  with v r(2) show ?thesis by blast
qed

lemma dispatch_call_backend:
  assumes "(b, body) \<in> set (backend_calls (fst (dispatch_line ctx env l st)))"
  shows "b \<notin> set (disabled_backends (kill_switch (hot st)))"
  using dispatch_call_admitted [OF assms]
  by (auto simp: verdict_Admitted_iff backend_killed_def split: if_splits)

lemma run_disabled_backend:
  "list_all no_reload es \<Longrightarrow> b \<in> set (disabled_backends (kill_switch (hot st))) \<Longrightarrow>
   b \<notin> fst ` set (backend_calls (fst (run_dispatch ctx es st)))"
proof (induction es st rule: run_induct [where ctx = ctx])
  case (Line l env es st)
  have "b \<notin> fst ` set (backend_calls (fst (dispatch_line ctx env l st)))"
    using dispatch_call_backend [of b _ ctx env l st] Line.prems(2) by auto
  with Line show ?case
    by (simp add: run_dispatch_Line effect_simps dispatch_kill_switch image_Un del: run_dispatch.simps)
qed simp_all

section \<open>Properties\<close>

text \<open>
  C8: In every state a session can reach, over any sequence of messages, reloads and shutdown, no
  call is left behind: the id table is empty between messages, no stdio backend has a pending call,
  and the limiter's buckets hold at most their limits.
\<close>

theorem session_leaves_nothing_pending:
  assumes "reach gw_init (gw_step ctx) st"
  shows "pending_count (remapper st) = 0 \<and> limiter_inv (rate_limiter (hot st)) \<and>
         (\<forall>n s. hm_get (backends st) n = Some (StdioB s) \<longrightarrow> sb_pending s = [])"
proof -
  have inv: "gw_inv st" using assms by (rule gw.reach_inv)
  then have "idle_backend (StdioB s)" if "hm_get (backends st) n = Some (StdioB s)" for n s
    using that by (simp add: gw_inv_def)
  with inv show ?thesis by (simp add: gw_inv_def pending_count_def idle_backend_def)
qed

definition demo_start :: gw_state where
  "demo_start = (demo_state [])\<lparr>mcp := Created\<rparr>"

lemma demo_start_init: "gw_init demo_start"
  by (auto simp: gw_init_def demo_start_def demo_state_def hm_wf_def idle_backend_def)

text \<open>
  C7: No backend is contacted before the handshake: if a session that starts in the state
  \<open>Created\<close> contacts any backend, its messages include \<^verbatim>\<open>initialize\<close>, later
  \<^verbatim>\<open>notifications/initialized\<close>, and later a \<^verbatim>\<open>tools/call\<close>.
\<close>

theorem handshake_before_calls:
  assumes "mcp st = Created" and "backend_calls (fst (run_dispatch ctx es st)) \<noteq> []"
  shows "subseq [''initialize'', ''notifications/initialized'', ''tools/call''] (methods ctx es)"
  using needed_before_calls [OF assms(2)] assms(1) by simp

definition demo_session :: "gw_event list" where
  "demo_session =
     [Line ''initialize'' demo_env, Line ''notifications/initialized'' demo_env,
      Line ''list_workflows'' demo_env]"

lemma demo_session_calls: "backend_calls (fst (run_dispatch demo_ctx demo_session demo_start)) \<noteq> []"
proof -
  let ?st1 = "demo_start\<lparr>mcp := Initializing\<rparr>"
  have 1: "snd (dispatch_line demo_ctx demo_env ''initialize'' demo_start) = ?st1"
    by (simp add: dispatch_line_def demo_parse handle_request_def handle_initialize_method_def
        demo_start_def Let_def)
  have 2: "snd (dispatch_line demo_ctx demo_env ''notifications/initialized'' ?st1) = demo_state []"
    by (simp add: dispatch_line_def demo_parse handle_request_def demo_start_def demo_state_def)
  have "answered demo_ctx demo_env (demo_state []) (demo_call ''list_workflows'') ''list_workflows''
      (fst (dispatch_line demo_ctx demo_env ''list_workflows'' (demo_state [])))"
    using handle_call_method_named [of "demo_call ''list_workflows''" "''list_workflows''" demo_ctx demo_env
        "demo_state []"] demo_verdict [of "[]" "''list_workflows''"]
    by (simp add: dispatch_line_def demo_parse handle_request_call is_notification_def)
  moreover have "reachable_backend (g_catalog demo_ctx) (demo_state [])
      (req_params (demo_call ''list_workflows'')) = Some (''stub-n8n'', HttpB demo_http)"
    by (simp add: reachable_backend_def route_def cat_tools_stub demo_state_def)
  ultimately have "backend_calls (fst (dispatch_line demo_ctx demo_env ''list_workflows'' (demo_state []))) \<noteq> []"
    by (simp add: answered_def)
  then show ?thesis
    by (simp add: demo_session_def run_dispatch_Line effect_simps 1 2 del: run_dispatch.simps(2))
qed

theorem session_leaves_nothing_pending_witness:
  "let r = run_dispatch demo_ctx demo_session demo_start in
   backend_calls (fst r) \<noteq> [] \<and> pending_count (remapper (snd r)) = 0"
proof -
  have "reach gw_init (gw_step demo_ctx) (snd (run_dispatch demo_ctx demo_session demo_start))"
    by (rule run_lines_reach [OF reach_init, OF demo_start_init])
      (simp_all add: demo_start_def demo_session_def)
  from session_leaves_nothing_pending [OF this] demo_session_calls show ?thesis by (simp add: Let_def)
qed

theorem handshake_before_calls_witness:
  "subseq [''initialize'', ''notifications/initialized'', ''tools/call''] (methods demo_ctx demo_session)"
  by (rule handshake_before_calls [OF _ demo_session_calls]) (simp add: demo_start_def)

text \<open>
  The kill switch on a backend is effective: from the moment a backend is disabled, no message
  of the session contacts it until the configuration is reloaded, whatever tools it is called
  through.
\<close>

theorem disabled_backend_never_contacted:
  assumes "b \<in> set (disabled_backends (kill_switch (hot st)))" and "list_all no_reload es"
  shows "b \<notin> fst ` set (backend_calls (fst (run_dispatch ctx es st)))"
  using assms(2,1) by (rule run_disabled_backend)

theorem disabled_backend_never_contacted_witness:
  "''stub-n8n'' \<notin> fst ` set (backend_calls (fst (run_dispatch demo_ctx demo_session
     (demo_start\<lparr>hot := (hot demo_start)\<lparr>kill_switch :=
        \<lparr>disabled_tools = [], disabled_backends = [''stub-n8n'']\<rparr>\<rparr>\<rparr>))))"
  by (rule disabled_backend_never_contacted) (simp_all add: demo_session_def)

text \<open>
  C9: The rate limit holds end to end: during any minute without a reload, whatever else the session
  does, the number of calls of one tool that reach a backend is at most twice the tool's limit per
  minute.
\<close>

theorem calls_rate_limited:
  assumes "limiter_inv (rate_limiter (hot st))" and "list_all no_reload es"
    and "list_all (event_in_window t0) es"
  shows "tool_calls ctx t es st \<le> 2 * unat (rpm_of (rate_limiter (hot st)) t)"
  using tool_calls_admitted [OF assms(2), of ctx t st]
    limiter_window [OF assms(1) rl_checks_in_window [OF assms(3)], of "ci_subject (g_caller ctx)" t ctx st]
  by (rule order_trans)

theorem calls_rate_limited_witness:
  "tool_calls demo_ctx ''list_workflows'' demo_session demo_start
     \<le> 2 * unat (rpm_of (rate_limiter (hot demo_start)) ''list_workflows'')"
proof (rule calls_rate_limited [of _ _ 0])
  show "limiter_inv (rate_limiter (hot demo_start))"
    by (simp add: demo_start_def demo_state_def hot_new_def limiter_inv_new)
qed (simp_all add: demo_session_def demo_env_def)

text \<open>
  A failed \<^verbatim>\<open>initialize\<close> cannot be repeated: the error is reported, but the session moves to
  \<open>Initializing\<close> all the same, so that a second \<^verbatim>\<open>initialize\<close> request is refused as not
  initialised.
\<close>

theorem failed_initialize_not_repeatable:
  assumes "from_str_request (g_serde ctx) l = Inr r" and "req_method r = ''initialize''"
    and "req_id r = Some i" and "mcp st = Created"
    and "handle_initialize (g_read_params ctx) (g_print_result ctx)
           (case req_params r of None \<Rightarrow> JObject [] | Some p \<Rightarrow> p) = Inl (code, message)"
  shows "sends (fst (run_dispatch ctx [Line l env, Line l env'] st)) =
     [mk_error i code message, mk_error i NOT_INITIALIZED_CODE ''Server not initialized'']"
  using assms
  by (simp add: dispatch_line_def handle_request_def handle_initialize_method_def is_notification_def
      id_or_null_def Let_def)

theorem failed_initialize_not_repeatable_witness:
  "sends (fst (run_dispatch (demo_ctx\<lparr>g_read_params := (\<lambda>p. Inl ''missing field'')\<rparr>)
       [Line ''initialize'' demo_env, Line ''initialize'' demo_env] demo_start)) =
     [mk_error (Number 1) INVALID_PARAMS (''Invalid initialize params: '' @ ''missing field''),
      mk_error (Number 1) NOT_INITIALIZED_CODE ''Server not initialized'']"
  by (rule failed_initialize_not_repeatable [where r = "demo_method (Some (Number 1)) ''initialize''"])
    (simp_all add: demo_parse demo_start_def handle_initialize_def demo_ctx_def gw_serde_def)

end
