(* ===== verification/Health.thy ===== *)
theory Health
  imports Backend_Http Metrics
begin

text \<open>
  The health endpoint and the health checker, \<^verbatim>\<open>src/src/health/server.rs\<close> and
  \<^verbatim>\<open>src/src/health/checker.rs\<close>: the token comparison, the three routes, and the periodic check of the
  HTTP backends. The HTTP server is axum's; a request is a GET request, given by its path and its
  authorization header; other methods, which axum answers itself, the listener and its shutdown are not modelled.
\<close>

unbundle bit_operations_syntax

section \<open>Comparing tokens\<close>

definition byte :: "char \<Rightarrow> u8" where
  "byte c = word_of_nat (of_char c)"

definition constant_time_eq :: "string \<Rightarrow> string \<Rightarrow> bool" where
  "constant_time_eq a b =
     (if length a \<noteq> length b then False
      else fold (\<lambda>(x, y) acc. acc OR (x XOR y)) (zip (map byte a) (map byte b)) 0 = 0)"

lemma unat_byte: "unat (byte c) = of_char c"
proof -
  have "of_char c < (256 :: nat)" by simp
  then show ?thesis by (simp add: byte_def unat_of_nat)
qed

lemma byte_inject: "byte c = byte d \<longleftrightarrow> c = d"
proof
  assume "byte c = byte d"
  then have "unat (byte c) = unat (byte d)" by simp
  then have "(of_char c :: nat) = of_char d" by (simp only: unat_byte)
  then show "c = d" by simp
qed simp

lemma or_xor_zero: "(acc OR (x XOR y) = 0) \<longleftrightarrow> acc = 0 \<and> x = (y :: u8)"
proof
  assume *: "acc OR (x XOR y) = 0"
  have bits: "\<not> bit acc n \<and> (bit x n \<longleftrightarrow> bit y n)" for n
  proof -
    have "\<not> bit (acc OR (x XOR y)) n" using * by simp
    then show ?thesis by (auto simp: bit_or_iff bit_xor_iff)
  qed
  then have "acc = 0" "x = y" by (auto intro: bit_eqI)
  then show "acc = 0 \<and> x = y" ..
qed simp

lemma fold_or_xor:
  "length xs = length ys \<Longrightarrow>
   fold (\<lambda>(x, y) acc. acc OR (x XOR y)) (zip xs ys) acc = (0 :: u8) \<longleftrightarrow> acc = 0 \<and> xs = ys"
  by (induction xs ys arbitrary: acc rule: list_induct2) (auto simp: or_xor_zero)

lemma constant_time_eq_iff: "constant_time_eq a b \<longleftrightarrow> a = b"
proof (cases "length a = length b")
  case True
  have "map byte a = map byte b \<longleftrightarrow> a = b"
    by (rule inj_map_eq_map) (auto intro: injI simp: byte_inject)
  with True show ?thesis by (simp add: constant_time_eq_def fold_or_xor)
next
  case False
  then show ?thesis by (auto simp: constant_time_eq_def)
qed

section \<open>The routes\<close>

record BackendHealth =
  healthy :: bool
  last_check :: nanos
  consecutive_failures :: u32

type_synonym health_map = "(string, BackendHealth) hashmap"

record HealthAppState =
  health_map :: health_map
  app_metrics :: "string option"
  health_token :: "string option"

record http_response =
  hr_status :: nat
  hr_fields :: "(string \<times> string) list"
  hr_content :: "json + string"

definition json_response :: "nat \<Rightarrow> (string \<times> json) list \<Rightarrow> http_response" where
  "json_response status ms = \<lparr>hr_status = status, hr_fields = [], hr_content = Inl (JObject ms)\<rparr>"

definition liveness :: http_response where
  "liveness = json_response 200 [(''status'', JString ''ok'')]"

definition readiness :: "HealthAppState \<Rightarrow> http_response" where
  "readiness state =
     (if hm_len (health_map state) = 0
      then json_response 503
             [(''reason'', JString ''no backends registered''), (''status'', JString ''not_ready'')]
      else if list_ex healthy (hm_values (health_map state))
      then json_response 200 [(''status'', JString ''ready'')]
      else json_response 503 [(''status'', JString ''not_ready'')])"

text \<open>\<open>authorization\<close> is the header when it is present and readable as text.\<close>

definition metrics_handler :: "HealthAppState \<Rightarrow> string option \<Rightarrow> http_response" where
  "metrics_handler state authorization =
     (let serve =
        (case app_metrics state of
           Some m \<Rightarrow>
             \<lparr>hr_status = 200, hr_fields = [(''content-type'', ''text/plain; version=0.0.4; charset=utf-8'')],
              hr_content = Inr m\<rparr>
         | None \<Rightarrow>
             \<lparr>hr_status = 404, hr_fields = [(''content-type'', ''text/plain; charset=utf-8'')],
              hr_content = Inr ''Metrics not enabled''\<rparr>);
        unauthorized =
          \<lparr>hr_status = 401,
           hr_fields = [(''content-type'', ''text/plain; charset=utf-8''), (''www-authenticate'', ''Bearer'')],
           hr_content = Inr ''Unauthorized''\<rparr>
      in case health_token state of
           None \<Rightarrow> serve
         | Some expected \<Rightarrow>
             (let provided = Option.bind authorization (strip_prefix ''Bearer '') in
              (case provided of
                 Some token \<Rightarrow> if constant_time_eq token expected then serve else unauthorized
               | None \<Rightarrow> unauthorized)))"

definition health_router :: "HealthAppState \<Rightarrow> string \<Rightarrow> string option \<Rightarrow> http_response option" where
  "health_router state path authorization =
     (if path = ''/health'' then Some liveness
      else if path = ''/ready'' then Some (readiness state)
      else if path = ''/metrics'' then Some (metrics_handler state authorization)
      else None)"

section \<open>The checker\<close>

definition ping_body :: string where
  \<open>ping_body = ''{"jsonrpc":"2.0","id":1,"method":"ping"}''\<close>

text \<open>
  One backend's check: \<open>t_new\<close> and \<open>t_now\<close> are the clock readings for a new entry and for the
  update, and the metric operations come with the new map.
\<close>

definition check_backend ::
  "bool \<Rightarrow> nanos \<Rightarrow> nanos \<Rightarrow> string \<Rightarrow> BackendError + string \<Rightarrow> health_map \<Rightarrow> metric_op list \<times> health_map" where
  "check_backend metrics t_new t_now name result map' =
     (let entry = (case hm_get map' name of
                     None \<Rightarrow> \<lparr>healthy = False, last_check = t_new, consecutive_failures = 0\<rparr>
                   | Some e \<Rightarrow> e)
      in case result of
           Inr _ \<Rightarrow>
             (if metrics then set_backend_health name True else [],
              hm_insert name (entry\<lparr>healthy := True, consecutive_failures := 0, last_check := t_now\<rparr>) map')
         | Inl _ \<Rightarrow>
             (if metrics then set_backend_health name False else [],
              hm_insert name
                (entry\<lparr>healthy := False, consecutive_failures := consecutive_failures entry + 1,
                       last_check := t_now\<rparr>) map'))"

text \<open>
  One tick checks the backends in turn; \<open>send\<close> is the answer of each to the ping and \<open>t\<close> the clock
  when it is recorded, both by the name of the backend.
\<close>

fun check_all ::
  "bool \<Rightarrow> (string \<Rightarrow> nanos) \<Rightarrow> (string \<Rightarrow> HttpBackend \<Rightarrow> string \<Rightarrow> BackendError + string) \<Rightarrow>
   (string \<times> HttpBackend) list \<Rightarrow> health_map \<Rightarrow> metric_op list \<times> health_map" where
  "check_all metrics t send [] m = ([], m)"
| "check_all metrics t send ((name, backend) # bs) m =
     (case check_backend metrics (t name) (t name) name (send name backend ping_body) m of
        (ops, m) \<Rightarrow> (case check_all metrics t send bs m of (ops', m) \<Rightarrow> (ops @ ops', m)))"

record tick =
  tk_time :: "string \<Rightarrow> nanos"
  tk_send :: "string \<Rightarrow> HttpBackend \<Rightarrow> string \<Rightarrow> BackendError + string"

text \<open>The loop, over its ticks until shutdown.\<close>

fun health_checker ::
  "bool \<Rightarrow> (string \<times> HttpBackend) list \<Rightarrow> tick list \<Rightarrow> health_map \<Rightarrow> metric_op list \<times> health_map" where
  "health_checker metrics bs [] m = ([], m)"
| "health_checker metrics bs (tk # ts) m =
     (case check_all metrics (tk_time tk) (tk_send tk) bs m of
        (ops, m) \<Rightarrow> (case health_checker metrics bs ts m of (ops', m) \<Rightarrow> (ops @ ops', m)))"

section \<open>What the checker writes\<close>

definition checked :: "nanos \<Rightarrow> BackendError + string \<Rightarrow> BackendHealth option \<Rightarrow> BackendHealth" where
  "checked t result old =
     \<lparr>healthy = \<not> isl result, last_check = t,
      consecutive_failures =
        (if isl result then (case old of None \<Rightarrow> 0 | Some e \<Rightarrow> consecutive_failures e) + 1 else 0)\<rparr>"

lemma check_backend_map:
  "snd (check_backend metrics t_new t name result m) = hm_insert name (checked t result (hm_get m name)) m"
  by (cases result; cases "hm_get m name"; cases "the (hm_get m name)")
    (auto simp: check_backend_def checked_def Let_def)

lemma check_all_Cons:
  "check_all metrics t send ((n, b) # bs) m =
     (let r = check_backend metrics (t n) (t n) n (send n b ping_body) m; r' = check_all metrics t send bs (snd r)
      in (fst r @ fst r', snd r'))"
  by (simp add: Let_def case_prod_beta)

lemma check_all_get:
  "distinct (map fst bs) \<Longrightarrow>
   hm_get (snd (check_all metrics t send bs m)) n =
     (case hm_get bs n of
        None \<Rightarrow> hm_get m n
      | Some b \<Rightarrow> Some (checked (t n) (send n b ping_body) (hm_get m n)))"
proof (induction bs arbitrary: m)
  case Nil
  then show ?case by simp
next
  case (Cons p bs)
  obtain k b where p: "p = (k, b)" by (cases p)
  with Cons.prems have "hm_get bs k = None" by (simp add: map_of_eq_None_iff)
  with Cons p show ?case
    by (auto simp: check_all_Cons Let_def check_backend_map simp del: check_all.simps split: option.splits)
qed

lemma health_checker_Cons:
  "snd (health_checker metrics bs (tk # ts) m) =
     snd (health_checker metrics bs ts (snd (check_all metrics (tk_time tk) (tk_send tk) bs m)))"
  by (simp add: case_prod_beta)

text \<open>The failures at the end of a list of outcomes, in order.\<close>

definition streak :: "bool list \<Rightarrow> nat" where
  "streak oks = length (takeWhile Not (rev oks))"

lemma streak_simps [simp]: "streak [] = 0" "streak (oks @ [True]) = 0"
  "streak (oks @ [False]) = Suc (streak oks)"
  by (simp_all add: streak_def)

lemma streak_le: "streak oks \<le> length oks"
  by (metis streak_def length_rev length_takeWhile_le)

lemma health_checker_snoc:
  "snd (health_checker metrics bs (ts @ [tk]) m) =
     snd (check_all metrics (tk_time tk) (tk_send tk) bs (snd (health_checker metrics bs ts m)))"
  by (induction ts arbitrary: m) (simp_all add: case_prod_beta)

lemma health_checker_frame:
  "hm_get bs n = None \<Longrightarrow> distinct (map fst bs) \<Longrightarrow>
   hm_get (snd (health_checker metrics bs ts m)) n = hm_get m n"
  by (induction ts arbitrary: m) (simp_all add: health_checker_Cons check_all_get del: health_checker.simps(2))

definition outcomes :: "string \<Rightarrow> HttpBackend \<Rightarrow> tick list \<Rightarrow> bool list" where
  "outcomes n b ts = map (\<lambda>tk. \<not> isl (tk_send tk n b ping_body)) ts"

lemma outcomes_snoc: "outcomes n b (ts @ [tk]) = outcomes n b ts @ [\<not> isl (tk_send tk n b ping_body)]"
  by (simp add: outcomes_def)

lemma health_checker_last:
  assumes "distinct (map fst bs)" and "hm_get bs n = Some b" and "ts \<noteq> []"
  shows "\<exists>e. hm_get (snd (health_checker metrics bs ts m)) n = Some e \<and> healthy e = last (outcomes n b ts)"
proof -
  obtain us tk where ts: "ts = us @ [tk]" using assms(3) by (cases ts rule: rev_cases) auto
  with assms(1,2) show ?thesis by (simp add: health_checker_snoc check_all_get checked_def outcomes_snoc)
qed

lemma check_all_wf: "hm_wf m \<Longrightarrow> hm_wf (snd (check_all metrics t send bs m))"
proof (induction bs arbitrary: m)
  case (Cons p bs)
  obtain n b where p: "p = (n, b)" by (cases p)
  from Cons.prems have "hm_wf (snd (check_backend metrics (t n) (t n) n (send n b ping_body) m))"
    by (simp only: check_backend_map hm.wf_insert)
  from Cons.IH [OF this] show ?case unfolding p check_all_Cons by (simp only: Let_def snd_conv)
qed simp

lemma health_checker_wf: "hm_wf m \<Longrightarrow> hm_wf (snd (health_checker metrics bs ts m))"
  by (induction ts arbitrary: m)
    (simp_all add: health_checker_Cons check_all_wf del: health_checker.simps(2))

lemma health_checker_streak:
  assumes "distinct (map fst bs)" and "hm_get bs n = Some b"
    and "hm_get m n = Some e" and "consecutive_failures e = 0" and "length ts < 2 ^ 32"
  shows "\<exists>e'. hm_get (snd (health_checker metrics bs ts m)) n = Some e' \<and>
     unat (consecutive_failures e') = streak (outcomes n b ts) \<and>
     (ts \<noteq> [] \<longrightarrow> healthy e' = last (outcomes n b ts))"
  using assms(5)
proof (induction ts rule: rev_induct)
  case Nil
  then show ?case using assms(3,4) by (simp add: outcomes_def)
next
  case (snoc tk ts)
  then obtain e' where e': "hm_get (snd (health_checker metrics bs ts m)) n = Some e'"
    "unat (consecutive_failures e') = streak (outcomes n b ts)" by auto
  have "streak (outcomes n b ts) < 2 ^ 32 - 1"
    using streak_le [of "outcomes n b ts"] snoc.prems by (simp add: outcomes_def)
  then have "unat (consecutive_failures e' + 1) = Suc (streak (outcomes n b ts))"
    using e'(2) by (simp add: unat_word_ariths)
  with e' assms(1,2) show ?case
    by (cases "isl (tk_send tk n b ping_body)")
      (simp_all add: health_checker_snoc check_all_get checked_def outcomes_snoc)
qed

section \<open>Properties\<close>

text \<open>
  The token comparison is exact: the fold over all byte pairs, which looks at every byte whatever
  the data, accepts two strings if and only if they are equal.
\<close>

theorem constant_time_eq_correct: "constant_time_eq a b = (a = b)"
  by (rule constant_time_eq_iff)

definition authorised :: "HealthAppState \<Rightarrow> string option \<Rightarrow> bool" where
  "authorised state auth \<longleftrightarrow>
     (case health_token state of None \<Rightarrow> True | Some expected \<Rightarrow> auth = Some (''Bearer '' @ expected))"

lemma metrics_handler_eq:
  "metrics_handler state auth =
     (if authorised state auth then
        (case app_metrics state of
           Some m \<Rightarrow>
             \<lparr>hr_status = 200, hr_fields = [(''content-type'', ''text/plain; version=0.0.4; charset=utf-8'')],
              hr_content = Inr m\<rparr>
         | None \<Rightarrow>
             \<lparr>hr_status = 404, hr_fields = [(''content-type'', ''text/plain; charset=utf-8'')],
              hr_content = Inr ''Metrics not enabled''\<rparr>)
      else
        \<lparr>hr_status = 401,
         hr_fields = [(''content-type'', ''text/plain; charset=utf-8''), (''www-authenticate'', ''Bearer'')],
         hr_content = Inr ''Unauthorized''\<rparr>)"
proof (cases "health_token state")
  case None
  then show ?thesis by (simp add: metrics_handler_def authorised_def Let_def)
next
  case (Some expected)
  have bearer: "Option.bind auth (strip_prefix ''Bearer '') = Some tok \<longleftrightarrow> auth = Some (''Bearer '' @ tok)" for tok
    by (simp only: strip_prefix_Some Option.bind_eq_Some_conv) blast
  show ?thesis
  proof (cases "Option.bind auth (strip_prefix ''Bearer '')")
    case None
    then have "auth \<noteq> Some (''Bearer '' @ expected)" using bearer [of expected] by simp
    with None Some show ?thesis by (simp only: metrics_handler_def authorised_def Let_def option.case if_False)
  next
    case tok: (Some tok)
    then have "auth = Some (''Bearer '' @ expected) \<longleftrightarrow> tok = expected" using bearer [of tok] by auto
    with tok Some show ?thesis
      by (simp only: metrics_handler_def authorised_def Let_def option.case constant_time_eq_iff)
  qed
qed

text \<open>
  C35: The metrics route serves the metrics exactly to those who may see them: with a token
  configured, only to a request whose authorization header is \<^verbatim>\<open>Bearer\<close> and that token, every
  other request getting 401 and no metrics; without a token, to everyone. The router serves
  \<^verbatim>\<open>/metrics\<close> through this handler, and the other two routes do not depend on the token or the header.
\<close>

theorem metrics_route_guarded:
  "(hr_content (metrics_handler state auth) = Inr ''Unauthorized'' \<and> hr_status (metrics_handler state auth) = 401
      \<longleftrightarrow> (\<exists>expected. health_token state = Some expected \<and> auth \<noteq> Some (''Bearer '' @ expected))) \<and>
   (health_token state = None \<or> auth = Some (''Bearer '' @ the (health_token state)) \<longrightarrow>
      metrics_handler state auth =
        (case app_metrics state of
           Some m \<Rightarrow>
             \<lparr>hr_status = 200, hr_fields = [(''content-type'', ''text/plain; version=0.0.4; charset=utf-8'')],
              hr_content = Inr m\<rparr>
         | None \<Rightarrow>
             \<lparr>hr_status = 404, hr_fields = [(''content-type'', ''text/plain; charset=utf-8'')],
              hr_content = Inr ''Metrics not enabled''\<rparr>)) \<and>
   health_router state ''/metrics'' auth = Some (metrics_handler state auth) \<and>
   health_router (state\<lparr>health_token := t\<rparr>) ''/health'' auth' = health_router state ''/health'' auth \<and>
   health_router (state\<lparr>health_token := t\<rparr>) ''/ready'' auth' = health_router state ''/ready'' auth"
  by (auto simp: metrics_handler_eq authorised_def health_router_def readiness_def
      split: option.splits)

theorem metrics_route_guarded_witness:
  "let state = \<lparr>health_map = [], app_metrics = Some ''up 1'', health_token = Some ''s3''\<rparr> in
   hr_status (metrics_handler state (Some ''Bearer s4'')) = 401 \<and>
   hr_content (metrics_handler state (Some ''Bearer s3'')) = Inr ''up 1''"
  using metrics_route_guarded [of "\<lparr>health_map = [], app_metrics = Some ''up 1'', health_token = Some ''s3''\<rparr>"
      "Some ''Bearer s4''"]
    metrics_route_guarded [of "\<lparr>health_map = [], app_metrics = Some ''up 1'', health_token = Some ''s3''\<rparr>"
      "Some ''Bearer s3''"]
  by (simp add: Let_def)

text \<open>Readiness: exactly while some registered backend is healthy.\<close>

lemma readiness_status:
  assumes "hm_wf (health_map state)"
  shows "hr_status (readiness state) =
           (if \<exists>n e. hm_get (health_map state) n = Some e \<and> healthy e then 200 else 503)"
proof -
  have "list_ex healthy (hm_values (health_map state)) \<longleftrightarrow>
      (\<exists>n e. hm_get (health_map state) n = Some e \<and> healthy e)"
    using hm_value_iff [OF assms] by (simp only: list_ex_iff) blast
  then show ?thesis by (auto simp: readiness_def json_response_def)
qed

text \<open>
  The checker's record is exact: after any run of fewer than \<open>2 ^ 32\<close> ticks, a checked backend
  is marked healthy according to its last answer and its failure counter is the length of its
  current streak of failures; a backend that is not in the checker's list, as is every stdio
  backend, keeps the entry it was registered with.
\<close>

theorem health_checker_exact:
  assumes "distinct (map fst bs)" and "hm_get bs n = Some b"
    and "hm_get m n = Some e" and "consecutive_failures e = 0" and "length ts < 2 ^ 32" and "ts \<noteq> []"
    and "hm_get bs n' = None"
  shows "(\<exists>e'. hm_get (snd (health_checker metrics bs ts m)) n = Some e' \<and>
            unat (consecutive_failures e') = streak (outcomes n b ts) \<and>
            healthy e' = last (outcomes n b ts)) \<and>
         hm_get (snd (health_checker metrics bs ts m)) n' = hm_get m n'"
  using health_checker_streak [OF assms(1-5)] health_checker_frame [OF assms(7,1)] assms(6) by blast

theorem health_checker_exact_witness:
  "let down = \<lparr>tk_time = (\<lambda>n. 5), tk_send = (\<lambda>n b body. Inl StdinClosed)\<rparr>;
       up = \<lparr>healthy = True, last_check = 0, consecutive_failures = 0\<rparr>;
       m = snd (health_checker True [(''a'', demo_http)] [down, down] [(''a'', up), (''s'', up)])
   in (\<exists>e. hm_get m ''a'' = Some e \<and> unat (consecutive_failures e) = Suc (Suc 0) \<and> \<not> healthy e) \<and>
      hm_get m ''s'' = Some up"
  using health_checker_exact [of "[(''a'', demo_http)]" "''a''" demo_http
      "[(''a'', \<lparr>healthy = True, last_check = 0, consecutive_failures = 0\<rparr>),
        (''s'', \<lparr>healthy = True, last_check = 0, consecutive_failures = 0\<rparr>)]"
      "\<lparr>healthy = True, last_check = 0, consecutive_failures = 0\<rparr>"
      "[\<lparr>tk_time = (\<lambda>n. 5), tk_send = (\<lambda>n b body. Inl StdinClosed)\<rparr>,
        \<lparr>tk_time = (\<lambda>n. 5), tk_send = (\<lambda>n b body. Inl StdinClosed)\<rparr>]" "''s''" True]
  by (simp add: Let_def outcomes_def streak_def del: health_checker.simps)

end
