(* ===== verification/Supervisor.thy ===== *)
theory Supervisor
  imports Backend_Stdio
begin

text \<open>
  The supervisor of a child process, \<^verbatim>\<open>run_supervisor\<close> of \<^verbatim>\<open>src/src/backend/stdio.rs\<close>: one pass of its
  loop as a function of what the outside world does during that pass, and the loop as a run over
  passes. Its actions are listed in order.

  The backoff is computed over the rationals. The powers of two, the cap and the factors of the
  source are exact doubles, so only the jitter is rounded there.
\<close>

section \<open>Backoff\<close>

definition saturating_pred :: "u32 \<Rightarrow> u32" where
  "saturating_pred n = (if n = 0 then 0 else n - 1)"

definition powi2 :: "int \<Rightarrow> rat" where
  "powi2 e = (if 0 \<le> e then 2 ^ nat e else (1 / 2) ^ nat (- e))"

definition backoff_delay :: "rat \<Rightarrow> u32 \<Rightarrow> rat \<Rightarrow> rat \<Rightarrow> rat" where
  "backoff_delay random restart_count base_secs max_secs =
     (let exp = base_secs * powi2 (sint (saturating_pred restart_count));
          capped = min exp max_secs;
          jitter = random * (1 / 2) * capped
      in capped + jitter)"

definition BACKOFF_BASE_SECS :: rat where "BACKOFF_BASE_SECS = 1"
definition BACKOFF_MAX_SECS :: rat where "BACKOFF_MAX_SECS = 60"
definition HEALTHY_THRESHOLD :: nanos where "HEALTHY_THRESHOLD = sec 60"

section \<open>One pass of the loop\<close>

text \<open>
  What happens during a pass: whether shutdown was requested before it, the operating system's
  answer to the spawn, how the calls of the handshake end, whether the tools channel is open, whether the
  child's output ends before shutdown is requested, how long the child ran, the random number, and
  whether shutdown is requested during the backoff.
\<close>

record pass =
  p_cancelled :: bool
  p_spawn :: "child_spec \<Rightarrow> string + child"
  p_ends :: "nat \<Rightarrow> call_end"
  p_notify :: "string \<Rightarrow> bool"
  p_tools_open :: bool
  p_child_exits :: bool
  p_uptime :: nanos
  p_random :: rat
  p_cancel_backoff :: bool

datatype action =
    SpawnAttempt
  | Spawned u32
  | Publish string "Tool list" StdioBackend
  | DrainPending
  | KillGroup int
  | Sleep rat

definition kill_process_group :: "u32 \<Rightarrow> action list" where
  "kill_process_group pid = [KillGroup (sint pid)]"

text \<open>Counting a restart, giving up, or backing off; \<open>None\<close> means that the supervisor stops.\<close>

definition count_restart :: "BackendConfig \<Rightarrow> pass \<Rightarrow> u32 \<Rightarrow> action list \<times> u32 option" where
  "count_restart config p restart_count =
     (let restart_count = restart_count + 1 in
      if 0 < max_restarts config \<and> max_restarts config \<le> restart_count then ([], None)
      else
        (let delay = backoff_delay (p_random p) restart_count BACKOFF_BASE_SECS BACKOFF_MAX_SECS in
         ([Sleep delay], if p_cancel_backoff p then None else Some restart_count)))"

definition monitor_child ::
  "BackendConfig \<Rightarrow> pass \<Rightarrow> u32 \<Rightarrow> u32 \<Rightarrow> action list \<times> u32 option" where
  "monitor_child config p pid restart_count =
     (if p_child_exits p
      then (case count_restart config p (if HEALTHY_THRESHOLD < p_uptime p then 0 else restart_count) of
              (as, next) \<Rightarrow> (DrainPending # kill_process_group pid @ as, next))
      else (kill_process_group pid, None))"

definition supervise ::
  "serde \<Rightarrow> (json \<Rightarrow> string + Tool list) \<Rightarrow> environment \<Rightarrow> BackendConfig \<Rightarrow> pass \<Rightarrow> u32 \<Rightarrow>
   action list \<times> u32 option" where
  "supervise sd read_tools env config p restart_count =
     (if p_cancelled p then ([], None)
      else
        (case spawn (p_spawn p) env config of
           Inl e \<Rightarrow>
             (case count_restart config p restart_count of (as, next) \<Rightarrow> (SpawnAttempt # as, next))
         | Inr backend \<Rightarrow>
             (let pid = sb_pid backend in
              (case discover_stdio_tools sd read_tools (p_ends p) (p_notify p) backend of
                 (Inr tools, backend) \<Rightarrow>
                   if \<not> p_tools_open p
                   then ([SpawnAttempt, Spawned pid] @ kill_process_group pid, None)
                   else
                     (case monitor_child config p pid restart_count of
                        (as, next) \<Rightarrow>
                          ([SpawnAttempt, Spawned pid, Publish (bc_name config) tools backend] @ as, next))
               | (Inl e, backend) \<Rightarrow>
                   (case count_restart config p restart_count of
                      (as, next) \<Rightarrow>
                        ([SpawnAttempt, Spawned pid] @ kill_process_group pid @ as, next))))))"

fun run_supervisor ::
  "serde \<Rightarrow> (json \<Rightarrow> string + Tool list) \<Rightarrow> environment \<Rightarrow> BackendConfig \<Rightarrow> pass list \<Rightarrow> u32 \<Rightarrow>
   action list \<times> u32 option" where
  "run_supervisor sd rt env config [] n = ([], Some n)"
| "run_supervisor sd rt env config (p # ps) n =
     (case supervise sd rt env config p n of
        (as, None) \<Rightarrow> (as, None)
      | (as, Some n') \<Rightarrow>
          (case run_supervisor sd rt env config ps n' of (as', r) \<Rightarrow> (as @ as', r)))"

section \<open>Spawns and kills\<close>

fun spawned :: "action list \<Rightarrow> int list" where
  "spawned [] = []"
| "spawned (Spawned pid # as) = sint pid # spawned as"
| "spawned (a # as) = spawned as"

fun killed :: "action list \<Rightarrow> int list" where
  "killed [] = []"
| "killed (KillGroup pid # as) = pid # killed as"
| "killed (a # as) = killed as"

definition attempts :: "action list \<Rightarrow> nat" where
  "attempts as = count_list as SpawnAttempt"

lemma spawned_append [simp]: "spawned (as @ bs) = spawned as @ spawned bs"
  by (induction as rule: spawned.induct) simp_all

lemma killed_append [simp]: "killed (as @ bs) = killed as @ killed bs"
  by (induction as rule: killed.induct) simp_all

lemma attempts_append [simp]: "attempts (as @ bs) = attempts as + attempts bs"
  by (simp add: attempts_def)

lemma attempts_Cons [simp]: "attempts (a # as) = (if a = SpawnAttempt then 1 else 0) + attempts as"
  by (simp add: attempts_def)

lemma attempts_Nil [simp]: "attempts [] = 0"
  by (simp add: attempts_def)

lemma count_restart_trace [simp]:
  "spawned (fst (count_restart config p n)) = []" "killed (fst (count_restart config p n)) = []"
  "attempts (fst (count_restart config p n)) = 0"
  by (simp_all add: count_restart_def Let_def)

lemmas supervise_simps = supervise_def monitor_child_def kill_process_group_def Let_def case_prod_beta

lemma supervise_kills:
  "spawned (fst (supervise sd rt env config p n)) = killed (fst (supervise sd rt env config p n))"
  by (simp add: supervise_simps split: sum.splits)

lemma supervise_attempts: "attempts (fst (supervise sd rt env config p n)) \<le> 1"
  by (simp add: supervise_simps split: sum.splits)

lemma run_supervisor_Cons:
  "run_supervisor sd rt env config (p # ps) n =
     (case snd (supervise sd rt env config p n) of
        None \<Rightarrow> (fst (supervise sd rt env config p n), None)
      | Some n' \<Rightarrow>
          (fst (supervise sd rt env config p n) @ fst (run_supervisor sd rt env config ps n'),
           snd (run_supervisor sd rt env config ps n')))"
  by (simp split: prod.splits option.splits)

lemma run_supervisor_kills:
  "spawned (fst (run_supervisor sd rt env config ps n)) = killed (fst (run_supervisor sd rt env config ps n))"
  by (induction ps arbitrary: n)
    (simp_all add: run_supervisor_Cons supervise_kills del: run_supervisor.simps(2) split: option.splits)

section \<open>The bound on restarts\<close>

lemma count_restart_Some:
  "snd (count_restart config p n) = Some n' \<Longrightarrow>
   n' = n + 1 \<and> (max_restarts config = 0 \<or> n + 1 < max_restarts config)"
  by (auto simp: count_restart_def Let_def split: if_splits)

lemma supervise_Some:
  "snd (supervise sd rt env config p n) = Some n' \<Longrightarrow> p_uptime p \<le> HEALTHY_THRESHOLD \<Longrightarrow>
   n' = n + 1 \<and> (max_restarts config = 0 \<or> n + 1 < max_restarts config)"
  by (auto simp: supervise_simps split: sum.splits if_splits dest!: count_restart_Some)

lemma run_supervisor_bounded:
  assumes "list_all (\<lambda>p. p_uptime p \<le> HEALTHY_THRESHOLD) ps" and "n < max_restarts config"
  shows "attempts (fst (run_supervisor sd rt env config ps n)) \<le> unat (max_restarts config) - unat n \<and>
         (unat (max_restarts config) - unat n \<le> length ps \<longrightarrow>
            snd (run_supervisor sd rt env config ps n) = None)"
  using assms
proof (induction ps arbitrary: n)
  case Nil
  then show ?case by (simp add: word_less_nat_alt)
next
  case (Cons p ps)
  let ?r = "supervise sd rt env config p n"
  have nm: "unat n < unat (max_restarts config)" using Cons.prems(2) by (simp add: word_less_nat_alt)
  have one: "attempts (fst ?r) \<le> 1" by (rule supervise_attempts)
  show ?case
  proof (cases "snd ?r")
    case None
    with one nm show ?thesis by (simp add: run_supervisor_Cons del: run_supervisor.simps(2))
  next
    case (Some n')
    from supervise_Some [OF Some] Cons.prems have n': "n' = n + 1" "n + 1 < max_restarts config"
      by auto
    have "unat (n + 1) = Suc (unat n)" using Cons.prems(2) by (rule unat_Suc_less)
    with Cons.IH [of n'] Cons.prems n' Some one nm show ?thesis
      by (simp add: run_supervisor_Cons del: run_supervisor.simps(2)) linarith
  qed
qed

lemma sint_small:
  assumes "unat (w :: u32) < 2 ^ 31"
  shows "sint w = int (unat w)"
proof -
  have int: "int (unat w) = uint w" by (rule of_nat_unat)
  have "int (unat w) < int (2 ^ 31)" using assms by (simp only: of_nat_less_iff)
  then have u: "uint w < 2 ^ 31" by (simp only: int of_nat_power of_nat_numeral)
  have "- (2 ^ 31) \<le> (0 :: int)" by simp
  also have "0 \<le> uint w" by simp
  finally have "signed_take_bit 31 (uint w) = uint w"
    using u by (rule signed_take_bit_int_eq_self)
  then show ?thesis by (simp add: sint_uint int)
qed

section \<open>Properties\<close>

text \<open>
  C30: The supervisor cleans up after itself: over the passes it completes, whatever happens in them,
  the process groups that it kills are exactly those that it spawned, in the same order.
\<close>

theorem supervisor_kills_every_child:
  "killed (fst (run_supervisor sd rt env config ps n)) =
   spawned (fst (run_supervisor sd rt env config ps n))"
  by (simp add: run_supervisor_kills)

text \<open>
  C29: A failing child is not restarted for ever: with a positive limit, if the child never stays up
  for more than a minute, the supervisor makes at most \<open>max_restarts\<close> attempts to spawn it and has
  stopped after as many passes.
\<close>

theorem supervisor_gives_up:
  assumes "list_all (\<lambda>p. p_uptime p \<le> HEALTHY_THRESHOLD) ps" and "0 < max_restarts config"
  shows "attempts (fst (run_supervisor sd rt env config ps 0)) \<le> unat (max_restarts config) \<and>
         (unat (max_restarts config) \<le> length ps \<longrightarrow>
            snd (run_supervisor sd rt env config ps 0) = None)"
  using run_supervisor_bounded [OF assms] by simp

definition demo_pass :: pass where
  "demo_pass =
     \<lparr>p_cancelled = False,
      p_spawn = (\<lambda>c. Inr \<lparr>child_id = Some 42, child_stdin = True, child_stdout = True\<rparr>),
      p_ends = (\<lambda>k. Response ''a''), p_notify = (\<lambda>m. True), p_tools_open = True,
      p_child_exits = True, p_uptime = sec 5, p_random = 0, p_cancel_backoff = False\<rparr>"

theorem supervisor_gives_up_witness:
  "let r = run_supervisor demo_serde (\<lambda>v. Inl ''no tools'') (\<lambda>k. None) demo_child
             (replicate 7 demo_pass) 0
   in attempts (fst r) \<le> 5 \<and> snd r = None"
proof -
  have "list_all (\<lambda>p. p_uptime p \<le> HEALTHY_THRESHOLD) (replicate 7 demo_pass)"
    "0 < max_restarts demo_child"
    by (simp_all add: list_all_iff demo_pass_def HEALTHY_THRESHOLD_def demo_child_def)
  note supervisor_gives_up [OF this, of demo_serde "\<lambda>v. Inl ''no tools''" "\<lambda>k. None"]
  moreover have "unat (max_restarts demo_child) = 5" by (simp add: demo_child_def)
  ultimately show ?thesis by (simp add: Let_def del: run_supervisor.simps)
qed

text \<open>
  The backoff before the \<open>n\<close>-th restart is \<open>2 ^ (n - 1)\<close> seconds, capped at a minute, plus a
  jitter of less than half of it; so it never reaches ninety seconds.
\<close>

theorem backoff_delay_bounds:
  assumes "0 \<le> random" and "random < 1" and "0 < n" and "unat n \<le> 2 ^ 31"
  shows "let capped = min (2 ^ (unat n - 1)) 60;
             delay = backoff_delay random n BACKOFF_BASE_SECS BACKOFF_MAX_SECS
         in capped \<le> delay \<and> delay < capped * 3 / 2 \<and> delay < 90"
proof -
  let ?capped = "min (2 ^ (unat n - 1)) 60 :: rat"
  have pred: "saturating_pred n = n - 1" "unat (n - 1) = unat n - 1"
    using assms(3) by (auto simp: saturating_pred_def unat_pred)
  with assms(4) have "sint (saturating_pred n) = int (unat n - 1)"
    by (subst sint_small) auto
  then have "powi2 (sint (saturating_pred n)) = 2 ^ (unat n - 1)"
    by (simp add: powi2_def)
  then have d: "backoff_delay random n BACKOFF_BASE_SECS BACKOFF_MAX_SECS =
      ?capped + random * (1 / 2) * ?capped"
    by (simp add: backoff_delay_def BACKOFF_BASE_SECS_def BACKOFF_MAX_SECS_def Let_def)
  have pos: "0 < ?capped" "?capped \<le> 60" by simp_all
  have "0 \<le> random * ?capped"
    using assms(1) pos(1) by (intro mult_nonneg_nonneg) simp_all
  moreover have "random * ?capped < 1 * ?capped"
    using assms(2) pos(1) by (rule mult_strict_right_mono)
  ultimately show ?thesis
    using pos unfolding Let_def d by linarith
qed

theorem backoff_delay_bounds_witness:
  "let capped = min (2 ^ (unat (3 :: u32) - 1)) 60;
       delay = backoff_delay (1 / 2) 3 BACKOFF_BASE_SECS BACKOFF_MAX_SECS
   in capped \<le> delay \<and> delay < capped * 3 / 2 \<and> delay < 90"
  by (rule backoff_delay_bounds) simp_all

fun published :: "action list \<Rightarrow> (string \<times> Tool list \<times> StdioBackend) list" where
  "published [] = []"
| "published (Publish name tools b # as) = (name, tools, b) # published as"
| "published (a # as) = published as"

lemma published_append [simp]: "published (as @ bs) = published as @ published bs"
  by (induction as rule: published.induct) simp_all

lemma count_restart_published [simp]: "published (fst (count_restart config p n)) = []"
  by (simp add: count_restart_def Let_def)

text \<open>What a supervisor publishes is its own backend, with no call pending.\<close>

lemma supervise_published:
  assumes "(name, tools, b) \<in> set (published (fst (supervise sd rt env config p n)))"
  shows "name = bc_name config \<and> sb_pending b = []"
proof -
  have "sb_pending b' = []" if "spawn (p_spawn p) env config = Inr b'" for b'
    using that by (auto simp: spawn_def split: option.splits sum.splits if_splits)
  then show ?thesis
    using assms discover_stdio_tools_idle [of _ sd rt "p_ends p" "p_notify p"]
    by (auto simp: supervise_simps split: sum.splits if_splits prod.splits)
qed

lemma run_supervisor_published:
  "(name, tools, b) \<in> set (published (fst (run_supervisor sd rt env config ps n))) \<Longrightarrow>
   name = bc_name config \<and> sb_pending b = []"
proof (induction ps arbitrary: n)
  case (Cons p ps)
  then show ?case
    using supervise_published [of name tools b sd rt env config p n]
    by (cases "snd (supervise sd rt env config p n)")
      (auto simp: run_supervisor_Cons simp del: run_supervisor.simps(2))
qed simp

text \<open>The child comes up during a pass: it is spawned and completes its handshake.\<close>

definition comes_up ::
  "serde \<Rightarrow> (json \<Rightarrow> string + Tool list) \<Rightarrow> environment \<Rightarrow> BackendConfig \<Rightarrow> pass \<Rightarrow> bool" where
  "comes_up sd rt env config p =
     (case spawn (p_spawn p) env config of
        Inl e \<Rightarrow> False
      | Inr b \<Rightarrow> \<not> isl (fst (discover_stdio_tools sd rt (p_ends p) (p_notify p) b)))"

lemma supervise_channel_closed:
  assumes "\<not> p_tools_open p"
  shows "published (fst (supervise sd rt env config p n)) = []"
    and "comes_up sd rt env config p \<Longrightarrow> snd (supervise sd rt env config p n) = None"
  using assms by (auto simp: supervise_simps comes_up_def split: sum.splits prod.splits)

text \<open>
  C40: A restarted backend never serves again. Once the receiver of the tools channel is gone, as it
  is after the first discovery, no run of the supervisor publishes a backend, and as soon as a child
  comes up again the supervisor has stopped, whatever its limit on restarts.
\<close>

theorem restart_needs_tools_channel:
  assumes "list_all (\<lambda>p. \<not> p_tools_open p) ps"
  shows "published (fst (run_supervisor sd rt env config ps n)) = [] \<and>
     (list_ex (comes_up sd rt env config) ps \<longrightarrow> snd (run_supervisor sd rt env config ps n) = None)"
  using assms
proof (induction ps arbitrary: n)
  case (Cons p ps)
  have p: "\<not> p_tools_open p" using Cons.prems by simp
  show ?case
    using Cons supervise_channel_closed [OF p, of sd rt env config n]
    by (cases "snd (supervise sd rt env config p n)")
      (auto simp: run_supervisor_Cons simp del: run_supervisor.simps(2))
qed simp

definition demo_list_serde :: serde where
  "demo_list_serde = demo_serde\<lparr>from_str_value := (\<lambda>s. Inr (JObject [(''id'', JNumber (PosInt 1)), (''result'', JObject [(''tools'', JArray [])])]))\<rparr>"

theorem restart_needs_tools_channel_witness:
  "let r = run_supervisor demo_list_serde (\<lambda>v. Inr []) (\<lambda>k. None) demo_child
             [demo_pass\<lparr>p_tools_open := False\<rparr>, demo_pass\<lparr>p_tools_open := False\<rparr>] 1
   in published (fst r) = [] \<and> snd r = None"
proof -
  let ?p = "demo_pass\<lparr>p_tools_open := False\<rparr>"
  have "comes_up demo_list_serde (\<lambda>v. Inr []) (\<lambda>k. None) demo_child ?p"
    by (simp add: comes_up_def spawn_def demo_child_def demo_pass_def discover_stdio_tools_def parse_tools_def
        stdio_send_def request_id_def demo_list_serde_def)
  then show ?thesis
    using restart_needs_tools_channel [of "[?p, ?p]" demo_list_serde "\<lambda>v. Inr []" "\<lambda>k. None" demo_child 1]
    by (simp add: Let_def demo_pass_def del: run_supervisor.simps)
qed

end
