(* ===== verification/Boot.thy ===== *)
theory Boot
  imports Gateway_Run Health Supervisor
begin

text \<open>
  How the program starts, \<^verbatim>\<open>src/src/main.rs\<close>: the discovery of the backends, the authentication of
  the session, and the creation of everything the dispatch loop needs. \<open>boot\<close> is the part of \<^verbatim>\<open>main\<close> before the loop; it fails where \<^verbatim>\<open>main\<close> returns an error.

  Third-party code is in the record \<open>libs\<close>, and the outside world during start-up in \<open>boot_world\<close>:
  the HTTP client, the networks of the backends, the passes each supervisor goes through within the
  30 seconds that its discovery may take, and the database. Logging and the spawning of tasks are not modelled.
\<close>

section \<open>Parameters\<close>

record 'v libs =
  lib_serde :: serde
  lib_read_tools :: "json \<Rightarrow> string + Tool list"
  lib_compile :: "json \<Rightarrow> string + 'v"
  lib_iter_errors :: "'v \<Rightarrow> json \<Rightarrow> (string \<times> string) list"
  lib_read_params :: "json \<Rightarrow> string + unit"
  lib_print_result :: "InitializeResult \<Rightarrow> string + json"
  lib_print_tools :: "Tool list \<Rightarrow> json"
  lib_decode :: decoder
  lib_read_file :: "string \<Rightarrow> string + string"
  lib_toml :: "string \<Rightarrow> string + SentinelConfig"

record boot_world =
  bw_client :: "string + unit"
  bw_random :: "u32 \<Rightarrow> u64 \<Rightarrow> u64"
  bw_net :: "string \<Rightarrow> nat \<Rightarrow> network"
  bw_passes :: "BackendConfig \<Rightarrow> pass list"
  bw_create_pool :: "string \<Rightarrow> u32 \<Rightarrow> string + unit"
  bw_migrate :: "string + unit"
  bw_now :: nanos

section \<open>Discovery\<close>

record startup =
  su_catalog :: ToolCatalog
  su_backends :: "(string, Backend) hashmap"
  su_succeeded :: bool

definition add_backend :: "string \<Rightarrow> Tool list \<Rightarrow> Backend \<Rightarrow> startup \<Rightarrow> startup" where
  "add_backend name tools b s =
     \<lparr>su_catalog = register_backend name tools (su_catalog s),
      su_backends = hm_insert name b (su_backends s), su_succeeded = True\<rparr>"

definition discover_http ::
  "'v libs \<Rightarrow> boot_world \<Rightarrow> environment \<Rightarrow> BackendConfig \<Rightarrow> startup \<Rightarrow> startup" where
  "discover_http lib w env config s =
     (let backend = http_backend_new config (env ''BACKEND_SHARED_SECRET'');
          send = (\<lambda>k body. fst (http_send (bw_random w) (bw_net w (bc_name config) k) backend body))
      in case discover_tools (lib_serde lib) (lib_read_tools lib) send of
           Inr tools \<Rightarrow> add_backend (bc_name config) tools (HttpB backend) s
         | Inl e \<Rightarrow> s)"

definition discover_stdio ::
  "'v libs \<Rightarrow> boot_world \<Rightarrow> environment \<Rightarrow> BackendConfig \<Rightarrow> startup \<Rightarrow> startup" where
  "discover_stdio lib w env config s =
     (case published (fst (run_supervisor (lib_serde lib) (lib_read_tools lib) env config
                             (bw_passes w config) 0)) of
        (name, tools, stdio_backend) # _ \<Rightarrow> add_backend name tools (StdioB stdio_backend) s
      | [] \<Rightarrow> s)"

definition discover_backends ::
  "'v libs \<Rightarrow> boot_world \<Rightarrow> environment \<Rightarrow> BackendConfig list \<Rightarrow> startup" where
  "discover_backends lib w env configs =
     (let s = \<lparr>su_catalog = catalog_new, su_backends = [], su_succeeded = False\<rparr>;
          http_backends = filter (\<lambda>b. backend_type b = Http) configs;
          s = (if http_backends \<noteq> []
               then (case bw_client w of
                       Inr _ \<Rightarrow> fold (discover_http lib w env) http_backends s
                     | Inl e \<Rightarrow> s)
               else s);
          stdio_backends = filter (\<lambda>b. backend_type b = Stdio) configs
      in fold (discover_stdio lib w env) stdio_backends s)"

definition load_catalog :: "startup \<Rightarrow> ToolCatalog" where
  "load_catalog s = (if \<not> su_succeeded s then create_stub_catalog else su_catalog s)"

section \<open>The parts of the running gateway\<close>

text \<open>Whether the audit writer is started; connecting or migrating can fail.\<close>

definition init_audit ::
  "boot_world \<Rightarrow> environment \<Rightarrow> GatewayConfig \<Rightarrow> PostgresConfig \<Rightarrow> anyhow + bool" where
  "init_audit w env gw pg =
     (if audit_enabled gw
      then (case env (url_env pg) of
              Some url \<Rightarrow>
                if url \<noteq> ''''
                then (case bw_create_pool w url (max_connections pg) of
                        Inl e \<Rightarrow> Inl (Foreign e)
                      | Inr _ \<Rightarrow> (case bw_migrate w of Inl e \<Rightarrow> Inl (Foreign e) | Inr _ \<Rightarrow> Inr True))
                else Inr False
            | None \<Rightarrow> Inr False)
      else Inr False)"

definition init_health :: "nanos \<Rightarrow> (string, Backend) hashmap \<Rightarrow> health_map" where
  "init_health now bs =
     fold (\<lambda>name. hm_insert name \<lparr>healthy = True, last_check = now, consecutive_failures = 0\<rparr>)
       (map fst bs) []"

definition init_breakers ::
  "BackendConfig list \<Rightarrow> (string, Backend) hashmap \<Rightarrow> (string, CircuitBreaker) hashmap" where
  "init_breakers configs bs =
     fold (\<lambda>b. hm_insert (bc_name b)
              (breaker_new (circuit_breaker_threshold b) (sec (unat (circuit_breaker_recovery_secs b)))))
       (filter (\<lambda>b. hm_contains bs (bc_name b)) configs) []"

definition checked_backends :: "(string, Backend) hashmap \<Rightarrow> (string \<times> HttpBackend) list" where
  "checked_backends bs =
     List.map_filter (\<lambda>(name, b). case b of HttpB h \<Rightarrow> Some (name, h) | StdioB s \<Rightarrow> None) bs"

record 'v booted =
  bt_ctx :: "'v gw_ctx"
  bt_state :: gw_state
  bt_health :: health_map
  bt_metrics :: "metric_op list"
  bt_checked :: "(string \<times> HttpBackend) list"

definition assemble ::
  "'v libs \<Rightarrow> boot_world \<Rightarrow> SentinelConfig \<Rightarrow> startup \<Rightarrow> CallerIdentity option \<Rightarrow> bool \<Rightarrow> 'v booted" where
  "assemble lib w config s caller audit_on =
     (let catalog = load_catalog s in
      \<lparr>bt_ctx =
         \<lparr>g_catalog = catalog, g_caller = effective_caller caller, g_rbac = cfg_rbac config,
          g_audit = audit_on, g_metrics = True, g_schema = from_catalog (lib_compile lib) catalog,
          g_iter_errors = lib_iter_errors lib, g_serde = lib_serde lib,
          g_read_params = lib_read_params lib, g_print_result = lib_print_result lib,
          g_print_tools = lib_print_tools lib\<rparr>,
       bt_state =
         \<lparr>mcp = Created, remapper = remapper_new,
          hot = hot_new (cfg_kill_switch config) (limiter_new (cfg_rate_limits config)),
          breakers = init_breakers (cfg_backends config) (su_backends s), backends = su_backends s\<rparr>,
       bt_health = init_health (bw_now w) (su_backends s),
       bt_metrics = concat (map (\<lambda>(name, b). set_backend_health name True) (su_backends s)),
       bt_checked = checked_backends (su_backends s)\<rparr>)"

definition boot ::
  "'v libs \<Rightarrow> boot_world \<Rightarrow> environment \<Rightarrow> string \<Rightarrow> anyhow + 'v booted" where
  "boot lib w env path =
     (case load_config_lenient (lib_read_file lib) (lib_toml lib) path of
        Inl e \<Rightarrow> Inl e
      | Inr config \<Rightarrow>
          (let s = discover_backends lib w env (cfg_backends config) in
           (case authenticate_session env (lib_decode lib) (cfg_auth config) of
              Inl e \<Rightarrow> Inl e
            | Inr caller \<Rightarrow>
                (case init_audit w env (cfg_gateway config) (cfg_postgres config) of
                   Inl e \<Rightarrow> Inl e
                 | Inr audit_on \<Rightarrow> Inr (assemble lib w config s caller audit_on)))))"

section \<open>What discovery establishes\<close>

definition startup_inv :: "string set \<Rightarrow> startup \<Rightarrow> bool" where
  "startup_inv names s \<longleftrightarrow>
     catalog_inv (su_catalog s) \<and> hm_wf (su_backends s) \<and>
     (\<forall>n b. route (su_catalog s) n = Some b \<longrightarrow> hm_contains (su_backends s) b) \<and>
     (\<forall>n b. hm_get (su_backends s) n = Some b \<longrightarrow> idle_backend b) \<and>
     (\<not> su_succeeded s \<longrightarrow> su_backends s = []) \<and>
     dom (hm_get (su_backends s)) \<subseteq> names"

lemma startup_inv_add:
  assumes "startup_inv names s" and "name \<in> names" and "idle_backend b"
  shows "startup_inv names (add_backend name tools b s)"
proof -
  have "hm_contains (hm_insert name b (su_backends s)) b'"
    if "route (register_backend name tools (su_catalog s)) n = Some b'" for n b'
    using that assms(1) route_register_backend_source [of name tools "su_catalog s" n]
    by (cases "route (register_backend name tools (su_catalog s)) n = route (su_catalog s) n")
      (auto simp: startup_inv_def)
  with assms show ?thesis
    by (auto simp: startup_inv_def add_backend_def catalog_inv_register_backend split: if_splits)
qed

lemma startup_inv_http:
  "startup_inv names s \<Longrightarrow> bc_name config \<in> names \<Longrightarrow> startup_inv names (discover_http lib w env config s)"
  by (simp add: discover_http_def Let_def startup_inv_add idle_backend_def split: sum.splits)

lemma startup_inv_stdio:
  assumes "startup_inv names s" and "bc_name config \<in> names"
  shows "startup_inv names (discover_stdio lib w env config s)"
proof (cases "published (fst (run_supervisor (lib_serde lib) (lib_read_tools lib) env config (bw_passes w config) 0))")
  case Nil
  with assms show ?thesis by (simp add: discover_stdio_def)
next
  case (Cons p ps)
  obtain name tools b where p: "p = (name, tools, b)" by (cases p)
  have "name = bc_name config \<and> sb_pending b = []"
    using run_supervisor_published [of name tools b "lib_serde lib" "lib_read_tools lib" env config
        "bw_passes w config" 0] Cons p by simp
  with Cons p assms show ?thesis by (simp add: discover_stdio_def startup_inv_add idle_backend_def)
qed

lemma fold_inv:
  "(\<And>x s. x \<in> set xs \<Longrightarrow> P s \<Longrightarrow> P (f x s)) \<Longrightarrow> P s \<Longrightarrow> P (fold f xs s)"
  by (induction xs arbitrary: s) simp_all

lemma discover_backends_inv:
  "startup_inv (bc_name ` set configs) (discover_backends lib w env configs)"
proof -
  let ?names = "bc_name ` set configs"
  have start: "startup_inv ?names \<lparr>su_catalog = catalog_new, su_backends = [], su_succeeded = False\<rparr>"
    by (simp add: startup_inv_def route_def catalog_new_def catalog_inv_def)
  have http: "startup_inv ?names s \<Longrightarrow>
      startup_inv ?names (fold (discover_http lib w env) (filter (\<lambda>b. backend_type b = Http) configs) s)" for s
    by (rule fold_inv [where P = "startup_inv ?names"]) (auto intro: startup_inv_http)
  have stdio: "startup_inv ?names s \<Longrightarrow>
      startup_inv ?names (fold (discover_stdio lib w env) (filter (\<lambda>b. backend_type b = Stdio) configs) s)" for s
    by (rule fold_inv [where P = "startup_inv ?names"]) (auto intro: startup_inv_stdio)
  from start http stdio show ?thesis
    by (simp add: discover_backends_def Let_def split: sum.splits)
qed

text \<open>A backend is connected exactly when a discovery succeeded.\<close>

lemma discover_backends_found:
  "su_backends (discover_backends lib w env configs) = [] \<longleftrightarrow>
   \<not> su_succeeded (discover_backends lib w env configs)"
proof -
  let ?P = "\<lambda>s. su_backends s = [] \<longleftrightarrow> \<not> su_succeeded s"
  have add: "?P (add_backend name tools b s)" for name tools b s
  proof -
    have "hm_insert name b (su_backends s) \<noteq> []" by (cases "su_backends s") auto
    then show ?thesis by (simp add: add_backend_def)
  qed
  have http: "?P s \<Longrightarrow> ?P (fold (discover_http lib w env) cs s)" for cs s
    by (rule fold_inv [where P = ?P]) (auto simp: discover_http_def Let_def add split: sum.splits)
  have stdio: "?P s \<Longrightarrow> ?P (fold (discover_stdio lib w env) cs s)" for cs s
    by (rule fold_inv [where P = ?P]) (auto simp: discover_stdio_def add split: list.splits)
  show ?thesis
    unfolding discover_backends_def Let_def
    by (rule stdio) (auto intro!: http split: sum.splits)
qed

lemma init_health_get:
  "hm_get (init_health now bs) n =
     (if hm_contains bs n then Some \<lparr>healthy = True, last_check = now, consecutive_failures = 0\<rparr> else None)"
proof -
  have "hm_get (fold (\<lambda>name. hm_insert name e) ns m) n = (if n \<in> set ns then Some e else hm_get m n)"
    for ns m and e :: BackendHealth
    by (induction ns arbitrary: m) auto
  then show ?thesis by (simp add: init_health_def map_of_eq_None_iff)
qed

lemma fold_insert_dom:
  "dom (hm_get (fold (\<lambda>x. hm_insert (f x) (g x)) xs m)) = f ` set xs \<union> dom (hm_get m)"
  by (induction xs arbitrary: m) auto

lemma fold_insert_wf: "hm_wf m \<Longrightarrow> hm_wf (fold (\<lambda>x. hm_insert (f x) (g x)) xs m)"
  by (induction xs arbitrary: m) auto

lemma init_breakers_dom:
  "dom (hm_get bs) \<subseteq> bc_name ` set configs \<Longrightarrow> dom (hm_get (init_breakers configs bs)) = dom (hm_get bs)"
  unfolding init_breakers_def fold_insert_dom by auto

lemma boot_Inr:
  "boot lib w env path = Inr bt \<longleftrightarrow>
   (\<exists>config caller audit_on.
      load_config_lenient (lib_read_file lib) (lib_toml lib) path = Inr config \<and>
      authenticate_session env (lib_decode lib) (cfg_auth config) = Inr caller \<and>
      init_audit w env (cfg_gateway config) (cfg_postgres config) = Inr audit_on \<and>
      bt = assemble lib w config (discover_backends lib w env (cfg_backends config)) caller audit_on)"
  by (auto simp: boot_def Let_def split: sum.splits)

lemma assemble_init:
  assumes "startup_inv names s"
  shows "gw_init (bt_state (assemble lib w config s caller audit_on))"
proof -
  have "idle_backend b" if "(n, b) \<in> set (su_backends s)" for n b
    using assms that unfolding startup_inv_def by (metis hm_wf_def map_of_is_SomeI)
  moreover have "hm_wf (init_breakers configs bs)" for configs bs
    unfolding init_breakers_def by (intro fold_insert_wf hm.wf_empty)
  ultimately show ?thesis
    using assms by (auto simp: gw_init_def assemble_def startup_inv_def Let_def list_all_iff)
qed

text \<open>The health map and the list of the checker, as start-up makes them.\<close>

lemma init_health_wf: "hm_wf (init_health t bs)"
  unfolding init_health_def by (intro fold_insert_wf [where f = "\<lambda>x. x"] hm.wf_empty)

lemma fst_checked_backends: "set (map fst (checked_backends bs)) \<subseteq> fst ` set bs"
  by (auto simp: checked_backends_def List.map_filter_def image_iff split: Backend.splits) force

lemma distinct_checked_backends: "distinct (map fst bs) \<Longrightarrow> distinct (map fst (checked_backends bs))"
proof (induction bs)
  case (Cons p bs)
  have "fst p \<notin> set (map fst (checked_backends bs))"
    using Cons.prems fst_checked_backends [of bs] by auto
  with Cons show ?case
    by (cases p) (auto simp: checked_backends_def map_filter_simps split: Backend.splits)
qed (simp add: checked_backends_def map_filter_simps)

lemma checked_backends_get:
  "distinct (map fst bs) \<Longrightarrow>
   hm_get (checked_backends bs) n =
     (case hm_get bs n of Some (HttpB h) \<Rightarrow> Some h | _ \<Rightarrow> None)"
proof (induction bs)
  case (Cons p bs)
  have "hm_get (checked_backends bs) (fst p) = None"
    using Cons.prems fst_checked_backends [of bs] by (auto simp: map_of_eq_None_iff)
  with Cons show ?case
    by (cases p) (auto simp: checked_backends_def map_filter_simps split: Backend.splits option.splits)
qed (simp add: checked_backends_def map_filter_simps)

lemma boot_health:
  assumes "boot lib w env path = Inr bt"
  shows "bt_health bt = init_health (bw_now w) (backends (bt_state bt)) \<and>
    bt_checked bt = checked_backends (backends (bt_state bt)) \<and> hm_wf (backends (bt_state bt))"
proof -
  from assms(1) obtain config caller audit_on where
    bt: "bt = assemble lib w config (discover_backends lib w env (cfg_backends config)) caller audit_on"
    by (auto simp: boot_Inr)
  have "startup_inv (bc_name ` set (cfg_backends config)) (discover_backends lib w env (cfg_backends config))"
    by (rule discover_backends_inv)
  then show ?thesis by (simp add: bt assemble_def Let_def startup_inv_def)
qed

text \<open>Once a backend is connected, every tool of the catalog belongs to a connected one.\<close>

lemma boot_routes:
  assumes "boot lib w env path = Inr bt" and "backends (bt_state bt) \<noteq> []"
    and "route (g_catalog (bt_ctx bt)) n = Some b"
  shows "hm_contains (backends (bt_state bt)) b"
proof -
  from assms(1) obtain config caller audit_on where
    bt: "bt = assemble lib w config (discover_backends lib w env (cfg_backends config)) caller audit_on"
    by (auto simp: boot_Inr)
  let ?s = "discover_backends lib w env (cfg_backends config)"
  have "startup_inv (bc_name ` set (cfg_backends config)) ?s"
    by (rule discover_backends_inv)
  moreover have "su_succeeded ?s"
    using assms(2) discover_backends_found [of lib w env "cfg_backends config"]
    by (auto simp: bt assemble_def Let_def)
  ultimately show ?thesis
    using assms(3) by (auto simp: bt assemble_def Let_def load_catalog_def startup_inv_def)
qed

text \<open>With a secret, the caller is who the token says.\<close>

lemma boot_caller:
  assumes "boot lib w env path = Inr bt" and "decode_contract (lib_decode lib) now"
    and "load_config_lenient (lib_read_file lib) (lib_toml lib) path = Inr config"
    and s: "env (jwt_secret_env (cfg_auth config)) = Some secret" "secret \<noteq> ''''"
  shows "\<exists>token c v. env ''SENTINEL_TOKEN'' = Some token \<and> lib_decode lib token secret v = Inr c \<and>
     g_caller (bt_ctx bt) = identity_of c \<and> cl_role c \<noteq> '''' \<and>
     cl_iss c = jwt_issuer (cfg_auth config) \<and> cl_aud c = jwt_audience (cfg_auth config) \<and>
     now \<le> unat (cl_exp c) + 60"
proof -
  from assms(1,3) obtain caller where
    auth: "authenticate_session env (lib_decode lib) (cfg_auth config) = Inr caller"
    and g: "g_caller (bt_ctx bt) = effective_caller caller"
    by (auto simp: boot_Inr assemble_def Let_def)
  let ?v = "validator_new secret (jwt_issuer (cfg_auth config)) (jwt_audience (cfg_auth config))"
  from auth s obtain token i where t: "env ''SENTINEL_TOKEN'' = Some token"
    "jwt_validate (lib_decode lib) ?v token = Inr i" "caller = Some i"
    by (auto simp: authenticate_session_def Let_def split: option.splits sum.splits)
  from t(2) obtain c where c: "lib_decode lib token secret (jwt_validation ?v) = Inr c"
    "cl_role c \<noteq> ''''" "i = identity_of c"
    by (auto simp: jwt_validate_Inr validator_new_def)
  from assms(2) c(1) have "cl_iss c = jwt_issuer (cfg_auth config) \<and> cl_aud c = jwt_audience (cfg_auth config) \<and>
      now \<le> unat (cl_exp c) + 60"
    unfolding decode_contract_def by (fastforce simp: validator_new_def)
  with t c g show ?thesis by (auto simp: effective_caller_def)
qed

section \<open>Properties\<close>

text \<open>
  C25: A gateway that starts is consistent: the dispatch loop starts in an initial state; the catalog
  is well formed; either no backend was discovered and the stub catalog is served, or every tool of
  the catalog belongs to a connected backend; and the breakers and the health map cover exactly the
  connected backends, all of them healthy at first.
\<close>

theorem boot_consistent:
  assumes "boot lib w env path = Inr bt"
  shows "gw_init (bt_state bt) \<and> catalog_inv (g_catalog (bt_ctx bt)) \<and>
     (if backends (bt_state bt) = [] then g_catalog (bt_ctx bt) = create_stub_catalog
      else \<forall>n b. route (g_catalog (bt_ctx bt)) n = Some b \<longrightarrow> hm_contains (backends (bt_state bt)) b) \<and>
     dom (hm_get (breakers (bt_state bt))) = dom (hm_get (backends (bt_state bt))) \<and>
     dom (hm_get (bt_health bt)) = dom (hm_get (backends (bt_state bt))) \<and>
     (\<forall>n e. hm_get (bt_health bt) n = Some e \<longrightarrow> healthy e)"
proof -
  from assms(1) obtain config caller audit_on where
    bt: "bt = assemble lib w config (discover_backends lib w env (cfg_backends config)) caller audit_on"
    by (auto simp: boot_Inr)
  let ?s = "discover_backends lib w env (cfg_backends config)"
  have inv: "startup_inv (bc_name ` set (cfg_backends config)) ?s"
    by (rule discover_backends_inv)
  have "su_backends ?s = [] \<longleftrightarrow> \<not> su_succeeded ?s"
    by (rule discover_backends_found)
  moreover have "gw_init (bt_state bt)" using assemble_init [OF inv] bt by simp
  moreover have "dom (hm_get (init_health t bs)) = dom (hm_get bs)" for t and bs :: "(string, Backend) hashmap"
    by (auto simp: init_health_get dom_def)
  ultimately show ?thesis
    using inv
    by (auto simp: bt assemble_def Let_def load_catalog_def startup_inv_def init_breakers_dom
        init_health_get split: if_splits)
qed

text \<open>A sample start-up, for the witnesses: one HTTP backend that offers one tool.\<close>

definition boot_backend :: BackendConfig where
  "boot_backend =
     \<lparr>bc_name = ''h'', backend_type = Http, bc_url = Some ''http://h'', bc_command = None, bc_args = [],
      bc_env = [], timeout_secs = 60, retries = 0, restart_on_exit = False, max_restarts = 5,
      health_interval_secs = 300, circuit_breaker_threshold = 5, circuit_breaker_recovery_secs = 30\<rparr>"

definition boot_config :: SentinelConfig where
  "boot_config =
     \<lparr>cfg_gateway = GatewayConfig_default\<lparr>audit_enabled := False\<rparr>,
      cfg_auth = \<lparr>jwt_secret_env = ''JWT_SECRET'', jwt_issuer = ''iss'', jwt_audience = ''aud''\<rparr>,
      cfg_postgres = \<lparr>url_env = ''DATABASE_URL'', max_connections = 10\<rparr>,
      cfg_backends = [boot_backend], cfg_rbac = demo_rbac, cfg_rate_limits = RateLimitConfig_default,
      cfg_kill_switch = KillSwitchConfig_default\<rparr>"

definition demo_claims :: Claims where
  "demo_claims = \<lparr>cl_sub = ''alice'', cl_role = ''admin'', cl_iss = ''iss'', cl_aud = ''aud'', cl_exp = 1000,
     cl_iat = None, cl_jti = None\<rparr>"

definition demo_decode :: decoder where
  "demo_decode token key v =
     (if token = ''tok'' \<and> key = ''k'' \<and> cl_iss demo_claims \<in> set (val_issuers v) \<and>
         cl_aud demo_claims \<in> set (val_audiences v)
      then Inr demo_claims else Inl \<lparr>jwt_kind = InvalidSignature, jwt_text = ''InvalidSignature''\<rparr>)"

definition demo_libs :: "unit libs" where
  "demo_libs =
     \<lparr>lib_serde = demo_list_serde\<lparr>from_str_request := from_str_request gw_serde\<rparr>,
      lib_read_tools = (\<lambda>v. Inr [make_tool ''t'' ''d'']),
      lib_compile = (\<lambda>v. Inr ()), lib_iter_errors = (\<lambda>v a. []), lib_read_params = (\<lambda>p. Inr ()),
      lib_print_result = (\<lambda>r. Inr JNull), lib_print_tools = (\<lambda>ts. JNull), lib_decode = demo_decode,
      lib_read_file = (\<lambda>p. Inr ''''), lib_toml = (\<lambda>s. Inr boot_config)\<rparr>"

definition demo_world :: boot_world where
  "demo_world =
     \<lparr>bw_client = Inr (), bw_random = (\<lambda>a n. 0),
      bw_net = (\<lambda>b k a r. Inr \<lparr>reply_status = 200, reply_content_type = None, reply_text = Inr ''ok'',
        reply_chunks = []\<rparr>),
      bw_passes = (\<lambda>c. []), bw_create_pool = (\<lambda>u n. Inl ''down''), bw_migrate = Inr (),
      bw_now = 0\<rparr>"

definition demo_environment :: environment where
  "demo_environment k =
     (if k = ''JWT_SECRET'' then Some ''k'' else if k = ''SENTINEL_TOKEN'' then Some ''tok'' else None)"

lemma demo_load: "load_config_lenient (lib_read_file demo_libs) (lib_toml demo_libs) ''p'' = Inr boot_config"
  by (simp add: load_config_lenient_def read_config_def demo_libs_def validate_backends_def boot_config_def
      boot_backend_def)

lemma demo_discover:
  "discover_backends demo_libs demo_world demo_environment [boot_backend] =
     add_backend ''h'' [make_tool ''t'' ''d''] (HttpB (http_backend_new boot_backend None))
       \<lparr>su_catalog = catalog_new, su_backends = [], su_succeeded = False\<rparr>"
proof -
  have send: "fst (http_send (bw_random demo_world) (bw_net demo_world b k) h body) = Inr ''ok''" for b k h body
  proof -
    have "http_attempt (bw_net demo_world b k) h body a = Inr ''ok''" for a
      by (simp add: http_attempt_def read_reply_def demo_world_def is_success_def contains_def)
    then show ?thesis by (simp add: http_send_def retry_with_backoff_def retry_from.simps)
  qed
  have "discover_http demo_libs demo_world demo_environment boot_backend s =
      add_backend ''h'' [make_tool ''t'' ''d''] (HttpB (http_backend_new boot_backend None)) s" for s
    by (simp add: discover_http_def discover_tools_def parse_tools_def send demo_libs_def
        demo_list_serde_def demo_environment_def Let_def) (simp add: boot_backend_def)
  moreover have "bw_client demo_world = Inr ()" "backend_type boot_backend = Http"
    by (simp_all add: demo_world_def boot_backend_def)
  ultimately show ?thesis by (simp add: discover_backends_def Let_def)
qed

lemma demo_auth:
  "authenticate_session demo_environment (lib_decode demo_libs) (cfg_auth boot_config) =
     Inr (Some (identity_of demo_claims))"
  by (simp add: authenticate_session_def demo_environment_def demo_libs_def boot_config_def jwt_validate_def
      demo_decode_def validator_new_def demo_claims_def Let_def)

lemma demo_boot:
  "boot demo_libs demo_world demo_environment ''p'' =
     Inr (assemble demo_libs demo_world boot_config
       (add_backend ''h'' [make_tool ''t'' ''d''] (HttpB (http_backend_new boot_backend None))
         \<lparr>su_catalog = catalog_new, su_backends = [], su_succeeded = False\<rparr>)
       (Some (identity_of demo_claims)) False)"
proof -
  have "init_audit demo_world demo_environment (cfg_gateway boot_config) (cfg_postgres boot_config) = Inr False"
    by (simp add: init_audit_def boot_config_def)
  moreover have "cfg_backends boot_config = [boot_backend]" by (simp add: boot_config_def)
  ultimately show ?thesis using demo_load demo_auth demo_discover by (simp add: boot_def)
qed

theorem boot_consistent_witness:
  "\<exists>bt. boot demo_libs demo_world demo_environment ''p'' = Inr bt \<and> gw_init (bt_state bt) \<and>
     dom (hm_get (breakers (bt_state bt))) = {''h''} \<and> dom (hm_get (bt_health bt)) = {''h''}"
proof -
  have "dom (hm_get (backends (bt_state (assemble demo_libs demo_world boot_config
      (add_backend ''h'' [make_tool ''t'' ''d''] (HttpB (http_backend_new boot_backend None))
         \<lparr>su_catalog = catalog_new, su_backends = [], su_succeeded = False\<rparr>)
      (Some (identity_of demo_claims)) False)))) = {''h''}"
    by (simp add: assemble_def add_backend_def Let_def)
  with boot_consistent [OF demo_boot] demo_boot show ?thesis by auto
qed

text \<open>
  C16: A session of a gateway with a JWT secret runs as the subject and role of a token that was
  signed for the configured issuer and audience and was not expired, up to the library's leeway,
  when the session started; without a secret it runs as the administrator. A gateway that has a
  secret and no acceptable token does not start.
\<close>

theorem session_authenticated:
  assumes "boot lib w env path = Inr bt" and "decode_contract (lib_decode lib) now"
    and "load_config_lenient (lib_read_file lib) (lib_toml lib) path = Inr config"
  shows "case env (jwt_secret_env (cfg_auth config)) of
      None \<Rightarrow> g_caller (bt_ctx bt) = default_caller
    | Some secret \<Rightarrow>
        if secret = '''' then g_caller (bt_ctx bt) = default_caller
        else (\<exists>token c v. env ''SENTINEL_TOKEN'' = Some token \<and> lib_decode lib token secret v = Inr c \<and>
          g_caller (bt_ctx bt) = identity_of c \<and> cl_role c \<noteq> '''' \<and>
          cl_iss c = jwt_issuer (cfg_auth config) \<and> cl_aud c = jwt_audience (cfg_auth config) \<and>
          now \<le> unat (cl_exp c) + 60)"
proof -
  from assms(1,3) obtain caller where
    auth: "authenticate_session env (lib_decode lib) (cfg_auth config) = Inr caller"
    and g: "g_caller (bt_ctx bt) = effective_caller caller"
    by (auto simp: boot_Inr assemble_def Let_def)
  show ?thesis
  proof (cases "env (jwt_secret_env (cfg_auth config)) = None \<or> env (jwt_secret_env (cfg_auth config)) = Some ''''")
    case True
    then show ?thesis
      using auth g by (auto simp: authenticate_session_def effective_caller_def Let_def)
  next
    case False
    then obtain secret where s: "env (jwt_secret_env (cfg_auth config)) = Some secret" "secret \<noteq> ''''" by auto

    from boot_caller [OF assms s] s show ?thesis by auto
  qed
qed

theorem session_authenticated_witness:
  "\<exists>bt. boot demo_libs demo_world demo_environment ''p'' = Inr bt \<and>
     (\<exists>c v. demo_decode ''tok'' ''k'' v = Inr c \<and> g_caller (bt_ctx bt) = identity_of c \<and> cl_iss c = ''iss'')"
proof -
  have "decode_contract (lib_decode demo_libs) 1060"
    by (auto simp: decode_contract_def demo_libs_def demo_decode_def demo_claims_def)
  from session_authenticated [OF demo_boot this demo_load] demo_boot show ?thesis
    by (auto simp: boot_config_def demo_environment_def demo_libs_def)
qed

end
