(* ===== verification/Access.thy ===== *)
theory Access
  imports Boot
begin

text \<open>
  Who can reach a backend, from the start of the program to the bytes that are sent: the token of
  \<^verbatim>\<open>src/src/auth/jwt.rs\<close>, the roles of \<^verbatim>\<open>src/src/auth/rbac.rs\<close>, the catalog and the dispatch loop together.
\<close>

section \<open>Granted calls\<close>

text \<open>
  \<open>granted ctx bs (b, body)\<close>: the message is a call of a tool of the connected backend \<open>b\<close> that the role
  of the caller may execute.
\<close>

definition granted :: "'v gw_ctx \<Rightarrow> string set \<Rightarrow> string \<times> string \<Rightarrow> bool" where
  "granted ctx bs call \<longleftrightarrow>
     (\<exists>name params i. snd call = to_string_value (g_serde ctx) (outbound i params) \<and>
        called_tool params = Some name \<and> route (g_catalog ctx) name = Some (fst call) \<and> fst call \<in> bs \<and>
        is_tool_allowed (ci_role (g_caller ctx)) name Execute (g_rbac ctx))"

lemma dispatch_granted:
  "list_all (granted ctx (dom (hm_get (backends st)))) (backend_calls (fst (dispatch_line ctx env l st)))"
proof -
  have "granted ctx (dom (hm_get (backends st))) (b, body)"
    if "(b, body) \<in> set (backend_calls (fst (dispatch_line ctx env l st)))" for b body
    using dispatch_call_admitted [OF that] by (auto simp: granted_def verdict_Admitted_iff dom_def)
  then show ?thesis by (auto simp: list_all_iff)
qed

lemma run_granted:
  "list_all (granted ctx (dom (hm_get (backends st)))) (backend_calls (fst (run_dispatch ctx es st)))"
  by (induction es st rule: run_induct [where ctx = ctx])
    (simp_all add: run_dispatch_Line effect_simps dispatch_granted dispatch_backends del: run_dispatch.simps(2))

text \<open>The connected backends are configured ones, and the roles those of the configuration.\<close>

lemma boot_configured:
  assumes "boot lib w env path = Inr bt"
    and "load_config_lenient (lib_read_file lib) (lib_toml lib) path = Inr config"
  shows "dom (hm_get (backends (bt_state bt))) \<subseteq> bc_name ` set (cfg_backends config)"
    and "g_rbac (bt_ctx bt) = cfg_rbac config" and "g_serde (bt_ctx bt) = lib_serde lib"
proof -
  from assms obtain caller audit_on where
    bt: "bt = assemble lib w config (discover_backends lib w env (cfg_backends config)) caller audit_on"
    by (auto simp: boot_Inr)
  show "dom (hm_get (backends (bt_state bt))) \<subseteq> bc_name ` set (cfg_backends config)"
    using discover_backends_inv [of "cfg_backends config" lib w env]
    by (simp add: bt assemble_def Let_def startup_inv_def)
  show "g_rbac (bt_ctx bt) = cfg_rbac config" "g_serde (bt_ctx bt) = lib_serde lib"
    by (simp_all add: bt assemble_def Let_def)
qed

end
