(* ===== verification/Session.thy ===== *)
theory Session
  imports Gateway_Run
begin

text \<open>
  A whole session as its client sees it: the bytes of stdin become messages, the dispatch loop
  answers them, \<^verbatim>\<open>send_response\<close> prints the responses and the writer task puts them on stdout. The
  session refines an abstract protocol machine, the MCP life cycle as the comments of
  \<^verbatim>\<open>src/src/protocol/mcp.rs\<close> and \<^verbatim>\<open>gateway.rs\<close> describe it, which shares no definition with the handlers.

  \<^verbatim>\<open>main.rs\<close> spawns the writer task and does not await it, so when the loop has ended the writer may be dropped
  at any point. \<open>session_output\<close> therefore takes \<open>io\<close>, which says, as in the theory Transport, after how many
  bytes of which message the writer stops, whether a write fails or the task is dropped there.
\<close>

section \<open>From bytes to bytes\<close>

text \<open>The lines that the loop takes from its input channel before it ends.\<close>

fun event_lines :: "gw_event list \<Rightarrow> string list" where
  "event_lines [] = []"
| "event_lines (Line l env # es) = l # event_lines es"
| "event_lines (Sighup rd toml path # es) = event_lines es"
| "event_lines (e # es) = []"

definition send_response :: "serde \<Rightarrow> JsonRpcResponse \<Rightarrow> string" where
  "send_response sd resp = to_string_response sd resp"

definition session_output :: "'v gw_ctx \<Rightarrow> (nat \<Rightarrow> nat option) \<Rightarrow> gw_event list \<Rightarrow> gw_state \<Rightarrow> string" where
  "session_output ctx io es st =
     stdio_writer io 0 (map (send_response (g_serde ctx)) (sends (fst (run_dispatch ctx es st))))"

text \<open>A client reads whole lines; what follows the last line break is not a message yet.\<close>

definition whole_lines :: "string \<Rightarrow> string" where
  "whole_lines bytes = rev (dropWhile (\<lambda>c. c \<noteq> NL) (rev bytes))"

section \<open>The protocol machine\<close>

text \<open>
  Before \<^verbatim>\<open>initialize\<close>, between it and the notification \<^verbatim>\<open>notifications/initialized\<close>, and after that. A message is
  answered, answered if it has an id, refused if it has an id, or passed over.
\<close>

datatype life = Fresh | Greeted | Ready | Over

datatype reaction = Answer | AnswerRequest | RefuseRequest | Silence

fun react :: "life \<Rightarrow> string \<Rightarrow> reaction \<times> life" where
  "react Fresh m =
     (if m = ''initialize'' then (Answer, Greeted)
      else if m = ''ping'' then (AnswerRequest, Fresh)
      else (RefuseRequest, Fresh))"
| "react Greeted m =
     (if m = ''notifications/initialized'' then (Silence, Ready)
      else if m = ''ping'' then (AnswerRequest, Greeted)
      else (RefuseRequest, Greeted))"
| "react Ready m =
     (if m = ''initialize'' then (Answer, Greeted)
      else if m = ''notifications/initialized'' then (Silence, Ready)
      else (AnswerRequest, Ready))"
| "react Over m = (RefuseRequest, Over)"

text \<open>The answer to a message with the given id: under which id, and whether it is a refusal.\<close>

fun answer :: "reaction \<Rightarrow> JsonRpcId option \<Rightarrow> (JsonRpcId \<times> bool) list" where
  "answer Answer None = [(Null, False)]"
| "answer Answer (Some i) = [(i, False)]"
| "answer AnswerRequest (Some i) = [(i, False)]"
| "answer RefuseRequest (Some i) = [(i, True)]"
| "answer _ _ = []"

fun protocol :: "life \<Rightarrow> (string + JsonRpcRequest) list \<Rightarrow> (JsonRpcId \<times> bool) list" where
  "protocol s [] = []"
| "protocol s (Inl e # ms) = (Null, False) # protocol s ms"
| "protocol s (Inr r # ms) =
     answer (fst (react s (req_method r))) (req_id r) @ protocol (snd (react s (req_method r))) ms"

fun life_of :: "McpState \<Rightarrow> life" where
  "life_of Created = Fresh"
| "life_of Initializing = Greeted"
| "life_of Operational = Ready"
| "life_of McpState.Closed = Over"

section \<open>Refinement\<close>

text \<open>A response as the machine sees it: its id, and for a refusal the error code \<open>- 32002\<close>.\<close>

definition conforms :: "JsonRpcId \<times> i32 option \<Rightarrow> JsonRpcId \<times> bool \<Rightarrow> bool" where
  "conforms a p \<longleftrightarrow> fst a = fst p \<and> (snd p \<longrightarrow> snd a = Some (- 32002))"

definition head_of :: "JsonRpcResponse \<Rightarrow> JsonRpcId \<times> i32 option" where
  "head_of r = (resp_id r, map_option err_code (resp_error r))"

lemma conforms_ids:
  assumes "map resp_id rs = map fst ps" and "\<not> list_ex snd ps"
  shows "list_all2 conforms (map head_of rs) ps"
  using assms
proof (induction rs arbitrary: ps)
  case (Cons r rs)
  then show ?case by (cases ps) (auto simp: conforms_def head_of_def)
qed simp

lemma dispatch_conforms:
  assumes "from_str_request (g_serde ctx) l = Inr r"
  shows "list_all2 conforms (map head_of (sends (fst (dispatch_line ctx env l st))))
     (answer (fst (react (life_of (mcp st)) (req_method r))) (req_id r))"
proof (cases "can_accept_method (mcp st) (req_method r)")
  case False
  then have "fst (react (life_of (mcp st)) (req_method r)) = RefuseRequest"
    by (cases "mcp st") auto
  moreover have "sends (fst (dispatch_line ctx env l st)) =
      (case req_id r of None \<Rightarrow> []
       | Some i \<Rightarrow> [mk_error i NOT_INITIALIZED_CODE ''Server not initialized''])"
    using assms False
    by (simp add: dispatch_line_def handle_request_def is_notification_def id_or_null_def split: option.splits)
  ultimately show ?thesis
    by (simp add: conforms_def head_of_def mk_error_def NOT_INITIALIZED_CODE_def split: option.splits)
next
  case True
  let ?a = "answer (fst (react (life_of (mcp st)) (req_method r))) (req_id r)"
  have "map resp_id (sends (fst (dispatch_line ctx env l st))) = map fst ?a"
    using assms True dispatch_response_ids [of ctx env l st]
    by (cases "mcp st"; cases "req_id r") (auto simp: id_or_null_def)
  moreover have "\<not> list_ex snd ?a"
    using True by (cases "mcp st"; cases "req_id r") auto
  ultimately show ?thesis by (rule conforms_ids)
qed

lemma dispatch_life:
  assumes "from_str_request (g_serde ctx) l = Inr r"
  shows "life_of (mcp (snd (dispatch_line ctx env l st))) = snd (react (life_of (mcp st)) (req_method r))"
  using assms by (cases "mcp st") (auto simp: dispatch_mcp method_of_def)

lemma run_protocol:
  "list_all2 conforms (map head_of (sends (fst (run_dispatch ctx es st))))
     (protocol (life_of (mcp st)) (map (from_str_request (g_serde ctx)) (event_lines es)))"
proof (induction es st rule: run_induct [where ctx = ctx])
  case (Line l env es st)
  show ?case
  proof (cases "from_str_request (g_serde ctx) l")
    case (Inl e)
    then have "dispatch_line ctx env l st = ([Send (mk_error Null PARSE_ERROR (''Parse error: '' @ e))], st)"
      by (simp add: dispatch_line_def)
    with Line Inl show ?thesis
      by (simp add: run_dispatch_Line effect_simps conforms_def head_of_def mk_error_def del: run_dispatch.simps(2))
  next
    case (Inr r)
    with Line dispatch_conforms [OF Inr, of env st] dispatch_life [OF Inr, of env st] show ?thesis
      by (simp add: run_dispatch_Line effect_simps list_all2_appendI del: run_dispatch.simps(2))
  qed
qed simp_all

section \<open>What reaches the client\<close>

lemma whole_lines_part:
  assumes "NL \<notin> set part"
  shows "whole_lines (concat (map (\<lambda>m. m @ [NL]) ms) @ part) = concat (map (\<lambda>m. m @ [NL]) ms)"
proof -
  have "dropWhile (\<lambda>c. c \<noteq> NL) (rev part @ xs) = dropWhile (\<lambda>c. c \<noteq> NL) xs" for xs
    using assms by (intro dropWhile_append2) auto
  moreover have "dropWhile (\<lambda>c. c \<noteq> NL) (rev (concat (map (\<lambda>m. m @ [NL]) ms))) =
      rev (concat (map (\<lambda>m. m @ [NL]) ms))"
    by (cases ms rule: rev_cases) simp_all
  ultimately show ?thesis by (simp add: whole_lines_def)
qed

text \<open>A writer that stops somewhere after \<open>k\<close> messages has written at least these, and a part of the next.\<close>

lemma stdio_writer_stops:
  assumes "list_all wire_message ms" and "\<forall>i < k. io (a + i) = None"
  shows "\<exists>n \<ge> k. \<exists>part. NL \<notin> set part \<and>
     stdio_writer io a ms = concat (map (\<lambda>m. m @ [NL]) (take n ms)) @ part"
  using assms
proof (induction ms arbitrary: a k)
  case Nil
  then show ?case by (intro exI [of _ k]) simp
next
  case (Cons m ms)
  have m: "NL \<notin> set m" using Cons.prems(1) by (simp add: wire_message_def)
  show ?case
  proof (cases "io a")
    case None
    have "\<forall>i < k - 1. io (Suc a + i) = None"
    proof (intro allI impI)
      fix i
      assume "i < k - 1"
      then have "Suc i < k" by simp
      with Cons.prems(2) have "io (a + Suc i) = None" by blast
      then show "io (Suc a + i) = None" by simp
    qed
    then obtain n part where n: "k - 1 \<le> n" "NL \<notin> set part"
      "stdio_writer io (Suc a) ms = concat (map (\<lambda>m. m @ [NL]) (take n ms)) @ part"
      using Cons.IH [of "k - 1" "Suc a"] Cons.prems(1) by auto
    with None show ?thesis by (intro exI [of _ "Suc n"]) auto
  next
    case (Some j)
    then have "k = 0" using Cons.prems(2) by (cases k) auto
    show ?thesis
    proof (cases "j \<le> length m")
      case True
      then have "NL \<notin> set (take j m)" using m by (auto dest: in_set_takeD)
      with True Some \<open>k = 0\<close> show ?thesis by (intro exI [of _ 0]) auto
    next
      case False
      with Some \<open>k = 0\<close> show ?thesis by (intro exI [of _ 1]) (auto intro: exI [of _ "[]"])
    qed
  qed
qed

text \<open>What serde promises of the printer: one line, from which the reader gets the same id and error code back.\<close>

definition prints_head :: "serde \<Rightarrow> JsonRpcResponse \<Rightarrow> bool" where
  "prints_head sd r \<longleftrightarrow>
     wire_message (to_string_response sd r) \<and>
     map_sum id head_of (from_str_response sd (to_string_response sd r)) = Inr (head_of r)"

lemma responses_read_back:
  assumes "list_all (prints_head sd) rs" and "\<forall>i < k. io i = None"
  shows "\<exists>n \<ge> k. map (\<lambda>l. map_sum id head_of (from_str_response sd l))
      (stdio_reader (\<lambda>_. True) 0 (read_lines (whole_lines (stdio_writer io 0 (map (send_response sd) rs))))) =
    map Inr (take n (map head_of rs))"
proof -
  have ms: "list_all wire_message (map (send_response sd) rs)"
    using assms(1) by (simp add: list_all_iff prints_head_def send_response_def)
  then obtain n part where n: "k \<le> n" "NL \<notin> set part"
    "stdio_writer io 0 (map (send_response sd) rs) =
      concat (map (\<lambda>m. m @ [NL]) (take n (map (send_response sd) rs))) @ part"
    using stdio_writer_stops [of "map (send_response sd) rs" k io 0] assms(2) by auto
  have "list_all wire_message (take n (map (send_response sd) rs))"
    using ms in_set_takeD unfolding list_all_iff by fastforce
  then have "stdio_reader (\<lambda>_. True) 0 (read_lines (whole_lines (stdio_writer io 0 (map (send_response sd) rs)))) =
      map (send_response sd) (take n rs)"
    by (simp only: n(3) whole_lines_part [OF n(2)] wire.frames_received take_map)
  moreover have "map_sum id head_of (from_str_response sd (send_response sd r)) = Inr (head_of r)"
    if "r \<in> set (take n rs)" for r
    using assms(1) in_set_takeD [OF that] by (simp add: list_all_iff prints_head_def send_response_def)
  ultimately show ?thesis using n(1) by (intro exI [of _ n]) (auto simp: take_map)
qed

section \<open>Properties\<close>

text \<open>
  C12: The gateway refines the protocol, from bytes to bytes: when a client writes its messages as
  lines, the whole lines that come back are answers under the ids, in the order, that the protocol
  machine gives, which knows only the life cycle and the messages, and those the machine refuses carry the
  error code for a session that is not initialised. All answers come back that the writer task
  wrote, thus all of the session if it wrote them all; an exit of the process before that cuts off the rest
  and nothing else. What the backends, the policies, the limiter, the breakers and reloads do
  has no influence on which messages are answered or refused, in which order, and under which id.
\<close>

theorem gateway_refines_protocol:
  assumes "list_all wire_message reqs"
    and "event_lines es = stdio_reader (\<lambda>_. True) 0 (read_lines (concat (map (\<lambda>m. m @ [NL]) reqs)))"
    and "list_all (prints_head (g_serde ctx)) (sends (fst (run_dispatch ctx es st)))"
    and "\<forall>i < k. io i = None"
  shows "\<exists>n \<ge> k. list_all2 (\<lambda>a p. \<exists>c. a = Inr (fst p, c) \<and> (snd p \<longrightarrow> c = Some (- 32002)))
     (map (\<lambda>l. map_sum id head_of (from_str_response (g_serde ctx) l))
        (stdio_reader (\<lambda>_. True) 0 (read_lines (whole_lines (session_output ctx io es st)))))
     (take n (protocol (life_of (mcp st)) (map (from_str_request (g_serde ctx)) reqs)))"
proof -
  let ?heads = "map head_of (sends (fst (run_dispatch ctx es st)))"
  let ?proto = "protocol (life_of (mcp st)) (map (from_str_request (g_serde ctx)) reqs)"
  have "event_lines es = reqs" using assms(1,2) by (simp add: wire.frames_received)
  with run_protocol [of ctx es st] have all: "list_all2 conforms ?heads ?proto" by simp
  obtain n where n: "k \<le> n"
    "map (\<lambda>l. map_sum id head_of (from_str_response (g_serde ctx) l))
       (stdio_reader (\<lambda>_. True) 0 (read_lines (whole_lines (session_output ctx io es st)))) =
     map Inr (take n ?heads)"
    using responses_read_back [OF assms(3,4)] by (auto simp: session_output_def)
  have "list_all2 (\<lambda>a p. \<exists>c. a = Inr (fst p, c) \<and> (snd p \<longrightarrow> c = Some (- 32002)))
      (map Inr (take n ?heads)) (take n ?proto)"
    unfolding list_all2_map1
    by (rule list_all2_mono [OF list_all2_takeI [OF all]]) (auto simp: conforms_def)
  with n show ?thesis by (intro exI [of _ n]) (simp only:)
qed

text \<open>A session that calls a tool before it is initialised, over a printer that shows the id.\<close>

definition wire_serde :: serde where
  "wire_serde = gw_serde\<lparr>
     from_str_response :=
       (\<lambda>s. if s = ''1'' then Inr (resp_success (Number 1) JNull)
            else if s = ''9'' then Inr (mk_error (Number 9) NOT_INITIALIZED_CODE ''Server not initialized'')
            else Inl ''expected value''),
     to_string_response := (\<lambda>r. if resp_id r = Number 1 then ''1'' else ''9'')\<rparr>"

definition wire_ctx :: "unit gw_ctx" where
  "wire_ctx = demo_ctx\<lparr>g_serde := wire_serde\<rparr>"

definition wire_session :: "gw_event list" where
  "wire_session = [Line ''list_workflows'' demo_env, Line ''initialize'' demo_env]"

lemma wire_parse: "from_str_request (g_serde wire_ctx) = from_str_request (g_serde demo_ctx)"
  by (simp add: wire_ctx_def wire_serde_def demo_ctx_def)

lemma wire_session_sends:
  "\<exists>v. sends (fst (run_dispatch wire_ctx wire_session demo_start)) =
     [mk_error (Number 9) NOT_INITIALIZED_CODE ''Server not initialized'', resp_success (Number 1) v]"
proof -
  have "mcp demo_start = Created" by (simp add: demo_start_def)
  moreover have "handle_initialize (g_read_params wire_ctx) (g_print_result wire_ctx) (JObject []) = Inr JNull"
    by (simp add: wire_ctx_def demo_ctx_def handle_initialize_def)
  ultimately show ?thesis
    by (intro exI [of _ JNull])
      (simp add: wire_session_def dispatch_line_def wire_parse demo_parse handle_request_def
        handle_initialize_method_def is_notification_def id_or_null_def Let_def demo_method_def)
qed

theorem gateway_refines_protocol_witness:
  "\<exists>c. map (\<lambda>l. map_sum id head_of (from_str_response wire_serde l))
     (stdio_reader (\<lambda>_. True) 0 (read_lines (whole_lines (session_output wire_ctx (\<lambda>_. None) wire_session demo_start)))) =
     [Inr (Number 9, Some (- 32002)), Inr (Number 1, c)]"
proof -
  let ?reqs = "[''list_workflows'', ''initialize'']"
  have "trim_end ''initialize'' = ''initialize''" "trim_end ''list_workflows'' = ''list_workflows''"
    "trim_end ''1'' = ''1''" "trim_end ''9'' = ''9''"
    by (rule trim_end_id; simp add: ws_last_def ws_chars_def suffix_def)+
  note trims = this
  then have wire: "list_all wire_message ?reqs" by (simp add: wire_message_def valid_utf8_ascii)
  have lines: "event_lines wire_session =
      stdio_reader (\<lambda>_. True) 0 (read_lines (concat (map (\<lambda>m. m @ [NL]) ?reqs)))"
    unfolding wire.frames_received [OF wire] by (simp add: wire_session_def)
  have ser: "g_serde wire_ctx = wire_serde" by (simp add: wire_ctx_def)
  have "list_all (prints_head wire_serde) [mk_error (Number 9) NOT_INITIALIZED_CODE ''Server not initialized'',
      resp_success (Number 1) v]" for v
    using trims by (simp add: prints_head_def wire_serde_def wire_message_def valid_utf8_ascii head_of_def
        mk_error_def resp_success_def)
  then have prints: "list_all (prints_head (g_serde wire_ctx)) (sends (fst (run_dispatch wire_ctx wire_session demo_start)))"
    using wire_session_sends by (auto simp: ser)
  have "protocol (life_of (mcp demo_start)) (map (from_str_request (g_serde wire_ctx)) ?reqs) =
      [(Number 9, True), (Number 1, False)]"
    unfolding wire_parse by (simp add: demo_parse demo_start_def)
  with gateway_refines_protocol [OF wire lines prints, of 2 "\<lambda>_. None"]
  obtain n where "2 \<le> n" and n: "list_all2 (\<lambda>a p. \<exists>c. a = Inr (fst p, c) \<and> (snd p \<longrightarrow> c = Some (- 32002)))
     (map (\<lambda>l. map_sum id head_of (from_str_response wire_serde l))
        (stdio_reader (\<lambda>_. True) 0 (read_lines (whole_lines (session_output wire_ctx (\<lambda>_. None) wire_session demo_start)))))
     (take n [(Number 9, True), (Number 1, False)])"
    by (auto simp only: ser)
  then have "take n [(Number 9, True), (Number 1, False)] = [(Number 9, True), (Number 1, False)]" by simp
  with n show ?thesis by (auto simp: list_all2_Cons2)
qed

end
