(* ===== verification/Audit_Trail.thy ===== *)
theory Audit_Trail
  imports Gateway_Run
begin

text \<open>
  The audit trail from the dispatch loop to the database: the loop hands each entry to a channel
  with \<^verbatim>\<open>try_send\<close>, the writer task of \<^verbatim>\<open>src/src/audit/writer.rs\<close> takes entries out at its own pace,
  and at shutdown \<^verbatim>\<open>src/src/main.rs\<close> drops the sender and waits for the writer. The channel is
  tokio's: a queue of at most \<open>AUDIT_CAPACITY\<close> entries, first in first out. \<open>trail_step\<close> is the step
  relation of both tasks.
\<close>

section \<open>The two tasks\<close>

definition AUDIT_CAPACITY :: nat where "AUDIT_CAPACITY = 1024"

text \<open>
  \<open>channel\<close> is the queue, \<open>db\<close> the database. \<open>sending\<close> holds until the senders are dropped and
  \<open>writing\<close> until the writer returns. The history, which the code does not keep, is in \<open>asked\<close>, the
  tool names of the \<^verbatim>\<open>tools/call\<close> requests handled so far, \<open>offered\<close> and \<open>dropped\<close>, the entries handed
  to the channel and those it did not take, and \<open>written\<close>, those the writer took.
\<close>

record 'db trail =
  gw :: gw_state
  channel :: "AuditEntry list"
  db :: 'db
  sending :: bool
  writing :: bool
  asked :: "string list"
  offered :: "AuditEntry list"
  dropped :: "AuditEntry list"
  written :: "AuditEntry list"

definition offer :: "AuditEntry \<Rightarrow> 'db trail \<Rightarrow> 'db trail" where
  "offer e s =
     (if length (channel s) < AUDIT_CAPACITY
      then s\<lparr>channel := channel s @ [e], offered := offered s @ [e]\<rparr>
      else s\<lparr>dropped := dropped s @ [e], offered := offered s @ [e]\<rparr>)"

text \<open>The tools that a message asks to call, in the sense of the dispatch loop.\<close>

definition asks :: "'v gw_ctx \<Rightarrow> string \<Rightarrow> gw_state \<Rightarrow> string list" where
  "asks ctx l st =
     (case from_str_request (g_serde ctx) l of
        Inl e \<Rightarrow> []
      | Inr r \<Rightarrow>
          if mcp st = Operational \<and> req_method r = ''tools/call'' \<and> req_id r \<noteq> None
          then [case called_tool (req_params r) of None \<Rightarrow> ''unknown'' | Some n \<Rightarrow> n]
          else [])"

definition handle_message :: "'v gw_ctx \<Rightarrow> string \<Rightarrow> msg_env \<Rightarrow> 'db trail \<Rightarrow> 'db trail" where
  "handle_message ctx l env s =
     (case dispatch_line ctx env l (gw s) of
        (effs, st) \<Rightarrow> fold offer (audits effs) (s\<lparr>gw := st, asked := asked s @ asks ctx l (gw s)\<rparr>))"

datatype trail_event = Message string msg_env | Reload HotConfig | Write | DropSenders | WriterDone

inductive trail_step ::
  "'v gw_ctx \<Rightarrow> ((string \<times> sql_value) list \<Rightarrow> 'db \<Rightarrow> string + 'db) \<Rightarrow>
   'db trail \<Rightarrow> trail_event \<Rightarrow> 'db trail \<Rightarrow> bool" for ctx execute where
  message: "sending s \<Longrightarrow> trail_step ctx execute s (Message l env) (handle_message ctx l env s)"
| reload: "trail_step ctx execute s (Reload h) (s\<lparr>gw := (gw s)\<lparr>hot := h\<rparr>\<rparr>)"
| write_one: "writing s \<Longrightarrow> channel s = e # es \<Longrightarrow>
     trail_step ctx execute s Write
       (s\<lparr>channel := es, db := write_entry execute e (db s), written := written s @ [e]\<rparr>)"
| drop_senders: "sending s \<Longrightarrow> trail_step ctx execute s DropSenders (s\<lparr>sending := False\<rparr>)"
| writer_done: "writing s \<Longrightarrow> \<not> sending s \<Longrightarrow> channel s = [] \<Longrightarrow>
     trail_step ctx execute s WriterDone (s\<lparr>writing := False\<rparr>)"

definition trail_init :: "'db \<Rightarrow> 'db trail \<Rightarrow> bool" where
  "trail_init db0 s \<longleftrightarrow>
     channel s = [] \<and> db s = db0 \<and> sending s \<and> writing s \<and>
     asked s = [] \<and> offered s = [] \<and> dropped s = [] \<and> written s = []"

section \<open>The invariant\<close>

text \<open>
  What was taken or waits is an ordered part of what was offered, everything else was dropped, which
  takes more offers than the channel has places, and the database is what the writer makes of the
  entries it took.
\<close>

definition trail_inv ::
  "'v gw_ctx \<Rightarrow> ((string \<times> sql_value) list \<Rightarrow> 'db \<Rightarrow> string + 'db) \<Rightarrow> 'db \<Rightarrow> 'db trail \<Rightarrow> bool" where
  "trail_inv ctx execute db0 s \<longleftrightarrow>
     length (channel s) \<le> AUDIT_CAPACITY \<and>
     subseq (written s @ channel s) (offered s) \<and>
     length (offered s) = length (written s) + length (channel s) + length (dropped s) \<and>
     db s = audit_writer execute (written s) [] db0 \<and>
     (\<not> writing s \<longrightarrow> channel s = [] \<and> \<not> sending s) \<and>
     (dropped s \<noteq> [] \<longrightarrow> AUDIT_CAPACITY < length (offered s)) \<and>
     map ae_tool_name (offered s) = (if g_audit ctx then asked s else [])"

lemma subseq_snoc: "subseq xs ys \<Longrightarrow> subseq (xs @ [z]) (ys @ [z])" "subseq xs ys \<Longrightarrow> subseq xs (ys @ [z])"
  by (simp_all only: subseq_append subseq_rev_drop_many)

lemma audit_writer_snoc:
  "audit_writer execute (es @ [e]) [] db0 = write_entry execute e (audit_writer execute es [] db0)"
  by (simp add: audit_writer_def)

text \<open>Offering an entry keeps everything but the link between the entries and the requests.\<close>

lemma offer_simps [simp]:
  "gw (offer e s) = gw s" "db (offer e s) = db s" "sending (offer e s) = sending s"
  "writing (offer e s) = writing s" "asked (offer e s) = asked s" "written (offer e s) = written s"
  "offered (offer e s) = offered s @ [e]"
  by (simp_all add: offer_def)

lemma dispatch_asks:
  "map ae_tool_name (audits (fst (dispatch_line ctx env l st))) = (if g_audit ctx then asks ctx l st else [])"
  using dispatch_audits [of ctx env l st] by (auto simp: asks_def split: sum.splits if_splits)

lemma asks_le_1: "length (asks ctx l st) \<le> 1"
  by (simp add: asks_def split: sum.splits)

lemma trail_inv_offer:
  assumes inv: "trail_inv ctx execute db0 s" and "sending s"
    and names: "map ae_tool_name es = (if g_audit ctx then ns else [])" and "length es \<le> 1"
  shows "trail_inv ctx execute db0 (fold offer es (s\<lparr>gw := st, asked := asked s @ ns\<rparr>))"
proof (cases es)
  case Nil
  with inv names show ?thesis by (auto simp: trail_inv_def split: if_splits)
next
  case (Cons e es')
  with assms(4) have es: "es = [e]" by simp
  let ?s = "s\<lparr>gw := st, asked := asked s @ ns\<rparr>"
  have "subseq (written s @ channel s) (offered s @ [e])" "subseq (written s @ channel s @ [e]) (offered s @ [e])"
    using inv subseq_snoc [of "written s @ channel s" "offered s" e] by (simp_all add: trail_inv_def)
  moreover have "writing s" using inv assms(2) by (auto simp: trail_inv_def)
  moreover have "g_audit ctx" "ns = [ae_tool_name e]" using names es by (auto split: if_splits)
  ultimately show ?thesis using inv es by (auto simp: trail_inv_def offer_def)
qed

interpretation audit_trail: invariant_system "trail_init db0" "trail_step ctx execute" "trail_inv ctx execute db0"
proof unfold_locales
  show "trail_init db0 s \<Longrightarrow> trail_inv ctx execute db0 s" for s
    by (simp add: trail_init_def trail_inv_def audit_writer_def)
  show "trail_inv ctx execute db0 s \<Longrightarrow> trail_step ctx execute s e t \<Longrightarrow> trail_inv ctx execute db0 t" for s e t
  proof (erule trail_step.cases, goal_cases)
    case (1 s' l env)
    have "length (audits (fst (dispatch_line ctx env l (gw s)))) \<le> 1"
      using dispatch_asks [of ctx env l "gw s"] asks_le_1 [of ctx l "gw s"]
      by (metis le0 length_map list.size(3))
    with 1 trail_inv_offer [OF 1(1) _ dispatch_asks, of env l "gw s"] show ?case
      by (simp add: handle_message_def case_prod_beta)
  next
    case (3 s' e es)
    then show ?case by (auto simp: trail_inv_def audit_writer_snoc)
  qed (auto simp: trail_inv_def)
qed

section \<open>Properties\<close>

text \<open>
  C13: The audit trail is complete. Whatever the interleaving of the dispatch loop and the writer, when
  the writer has finished after shutdown the database holds, in order and once each, a row for every
  entry that the channel took, except those whose insert failed. If the channel dropped none, as is
  certain for a session of at most 1024 \<^verbatim>\<open>tools/call\<close> requests, the entries written are those of all
  these requests, under their tools' names; in general as many are missing as were dropped.
\<close>

theorem audit_trail_complete:
  assumes "reach (trail_init []) (trail_step ctx (log_db fails)) s" and "\<not> writing s" and "g_audit ctx"
  shows "db s = filter (\<lambda>row. \<not> fails row) (map (\<lambda>e. zip audit_columns (bind_entry e)) (written s)) \<and>
     subseq (written s) (offered s) \<and>
     length (written s) + length (dropped s) = length (asked s) \<and>
     (dropped s = [] \<longrightarrow> map ae_tool_name (written s) = asked s) \<and>
     (length (asked s) \<le> AUDIT_CAPACITY \<longrightarrow> dropped s = [])"
proof -
  have inv: "trail_inv ctx (log_db fails) [] s" using assms(1) by (rule audit_trail.reach_inv)
  with assms(2,3) have w: "subseq (written s) (offered s)" "channel s = []"
    "length (offered s) = length (written s) + length (dropped s)"
    "dropped s \<noteq> [] \<longrightarrow> AUDIT_CAPACITY < length (offered s)"
    "map ae_tool_name (offered s) = asked s" "db s = audit_writer (log_db fails) (written s) [] []"
    by (auto simp: trail_inv_def)
  have rows: "db s = filter (\<lambda>row. \<not> fails row) (map (\<lambda>e. zip audit_columns (bind_entry e)) (written s))"
    using w(6) by (simp add: audit_writer_def fold_write_log_db)
  have len: "length (asked s) = length (offered s)" using w(5) by (metis length_map)
  have all: "written s = offered s" if "dropped s = []"
    using that w(1,3) by (intro subseq_same_length) simp_all
  show ?thesis
  proof (intro conjI impI)
    show "map ae_tool_name (written s) = asked s" if "dropped s = []" using all [OF that] w(5) by simp
    show "dropped s = []" if "length (asked s) \<le> AUDIT_CAPACITY" using that w(4) len by linarith
  qed (use rows w(1,3) len in simp_all)
qed

text \<open>A session with one call, which the kill switch refuses, for the witness.\<close>

definition demo_trail :: "(string \<times> sql_value) list list trail" where
  "demo_trail =
     \<lparr>gw = demo_state [''read_query''], channel = [], db = [], sending = True, writing = True, asked = [],
      offered = [], dropped = [], written = []\<rparr>"

lemma demo_message:
  obtains e where "channel (handle_message demo_ctx ''read_query'' demo_env demo_trail) = [e]"
    and "writing (handle_message demo_ctx ''read_query'' demo_env demo_trail)"
    and "sending (handle_message demo_ctx ''read_query'' demo_env demo_trail)"
    and "asked (handle_message demo_ctx ''read_query'' demo_env demo_trail) = [''read_query'']"
proof -
  have asks: "asks demo_ctx ''read_query'' (gw demo_trail) = [''read_query'']"
    by (simp add: asks_def demo_parse demo_trail_def)
  then obtain e where e: "audits (fst (dispatch_line demo_ctx demo_env ''read_query'' (gw demo_trail))) = [e]"
    using dispatch_asks [of demo_ctx demo_env "''read_query''" "gw demo_trail"] by (auto simp: demo_ctx_def)
  let ?s1 = "handle_message demo_ctx ''read_query'' demo_env demo_trail"
  have "channel ?s1 = [e]" "writing ?s1" "sending ?s1" "asked ?s1 = [''read_query'']"
    using e asks
    by (simp_all add: handle_message_def case_prod_beta offer_def AUDIT_CAPACITY_def) (simp_all add: demo_trail_def)
  then show ?thesis by (rule that)
qed

lemma demo_trail_end:
  obtains s where "reach (trail_init []) (trail_step demo_ctx (log_db fails)) s" and "\<not> writing s"
    and "asked s = [''read_query'']"
proof -
  let ?step = "trail_step demo_ctx (log_db fails)"
  let ?s1 = "handle_message demo_ctx ''read_query'' demo_env demo_trail"
  have "reach (trail_init []) ?step demo_trail"
    by (rule reach_init) (simp add: trail_init_def demo_trail_def)
  then have 1: "reach (trail_init []) ?step ?s1"
    by (rule reach_step) (rule trail_step.message, simp add: demo_trail_def)
  obtain e where s1: "channel ?s1 = [e]" "writing ?s1" "sending ?s1" "asked ?s1 = [''read_query'']"
    by (rule demo_message)
  let ?s2 = "?s1\<lparr>channel := [], db := write_entry (log_db fails) e (db ?s1), written := written ?s1 @ [e]\<rparr>"
  have "?step ?s1 Write ?s2" using s1 by (intro trail_step.write_one)
  with 1 have 2: "reach (trail_init []) ?step ?s2" by (rule reach_step)
  have "?step ?s2 DropSenders (?s2\<lparr>sending := False\<rparr>)" using s1 by (intro trail_step.drop_senders) simp
  with 2 have 3: "reach (trail_init []) ?step (?s2\<lparr>sending := False\<rparr>)" by (rule reach_step)
  have "?step (?s2\<lparr>sending := False\<rparr>) WriterDone (?s2\<lparr>sending := False, writing := False\<rparr>)"
    using s1 trail_step.writer_done [of "?s2\<lparr>sending := False\<rparr>" demo_ctx "log_db fails"] by simp
  with 3 have "reach (trail_init []) ?step (?s2\<lparr>sending := False, writing := False\<rparr>)" by (rule reach_step)
  from that [OF this] s1 show ?thesis by simp
qed

theorem audit_trail_complete_witness:
  "\<exists>s. reach (trail_init []) (trail_step demo_ctx (log_db (\<lambda>row. False))) s \<and> dropped s = [] \<and>
     map ae_tool_name (written s) = [''read_query''] \<and>
     db s = map (\<lambda>e. zip audit_columns (bind_entry e)) (written s)"
proof -
  obtain s where s: "reach (trail_init []) (trail_step demo_ctx (log_db (\<lambda>row. False))) s" "\<not> writing s"
    "asked s = [''read_query'']" by (rule demo_trail_end)
  have "g_audit demo_ctx" by (simp add: demo_ctx_def)
  from audit_trail_complete [OF s(1,2) this] s show ?thesis by (auto simp: AUDIT_CAPACITY_def)
qed

end
