(* ===== verification/Shutdown.thy ===== *)
theory Shutdown
  imports Supervisor Audit_Trail
begin

text \<open>
  The end of the program, after the dispatch loop of \<^verbatim>\<open>src/src/main.rs\<close> has returned: the token is
  cancelled, every supervisor gets five seconds to stop, the audit sender is dropped and the audit
  writer is awaited. Times are counted from the cancellation. When \<^verbatim>\<open>main\<close> returns, the runtime drops the
  tasks that still run, so what a supervisor would have done later is not done.

  A supervisor is described by what it is doing when the token is cancelled. \<^verbatim>\<open>run_supervisor\<close> looks at the
  token between passes, during a backoff and while it monitors a child, but not during the handshake.
\<close>

section \<open>A supervisor at cancellation\<close>

text \<open>
  \<open>Handshaking pid left ok\<close>: the handshake with the child goes on for \<open>left\<close> and then succeeds or fails.
  At this time the receiver of the tools channel is gone.
\<close>

datatype phase = Stopped | BackingOff | Handshaking u32 nanos bool | Monitoring u32

record supervisor =
  s_config :: BackendConfig
  s_restarts :: u32
  s_pass :: pass
  s_phase :: phase

fun wind_down :: "BackendConfig \<Rightarrow> pass \<Rightarrow> u32 \<Rightarrow> phase \<Rightarrow> (nanos \<times> action) list" where
  "wind_down config p n Stopped = []"
| "wind_down config p n BackingOff = []"
| "wind_down config p n (Handshaking pid left ok) =
     map (Pair left) (kill_process_group pid @ (if ok then [] else fst (count_restart config p n)))"
| "wind_down config p n (Monitoring pid) = map (Pair 0) (fst (monitor_child config p pid n))"

text \<open>When the task of the supervisor ends; a monitored child gets two seconds to exit.\<close>

fun finish_time :: "pass \<Rightarrow> phase \<Rightarrow> nanos" where
  "finish_time p (Handshaking pid left ok) = left"
| "finish_time p (Monitoring pid) = (if p_child_exits p then 0 else sec 2)"
| "finish_time p _ = 0"

text \<open>This is the rest of the pass that the supervisor is in, and its last.\<close>

lemma supervise_winds_down:
  assumes "\<not> p_cancelled p" and "p_cancel_backoff p" and "spawn (p_spawn p) env config = Inr b"
  shows "snd (supervise sd rt env config p n) = None"
    and "case fst (discover_stdio_tools sd rt (p_ends p) (p_notify p) b) of
       Inl e \<Rightarrow> fst (supervise sd rt env config p n) =
         [SpawnAttempt, Spawned (sb_pid b)] @ map snd (wind_down config p n (Handshaking (sb_pid b) left False))
     | Inr tools \<Rightarrow> fst (supervise sd rt env config p n) =
         [SpawnAttempt, Spawned (sb_pid b)] @
         (if \<not> p_tools_open p then map snd (wind_down config p n (Handshaking (sb_pid b) left True))
          else Publish (bc_name config) tools (snd (discover_stdio_tools sd rt (p_ends p) (p_notify p) b)) #
            map snd (wind_down config p n (Monitoring (sb_pid b))))"
  using assms
  by (auto simp: supervise_simps count_restart_def o_def split: sum.splits prod.splits)

section \<open>The shutdown sequence of main\<close>

datatype shutdown_action =
    CancelAll
  | SupervisorDone nat
  | SupervisorLate nat
  | DropAuditSender
  | AuditWriterDone

fun await_supervisors :: "nanos \<Rightarrow> nat \<Rightarrow> nanos list \<Rightarrow> (nanos \<times> shutdown_action) list \<times> nanos" where
  "await_supervisors now i [] = ([], now)"
| "await_supervisors now i (f # fs) =
     (let step = (if f \<le> now + sec 5 then (max now f, SupervisorDone i)
                  else (now + sec 5, SupervisorLate i))
      in case await_supervisors (fst step) (Suc i) fs of (as, t) \<Rightarrow> (step # as, t))"

text \<open>
  The actions of the shutdown with their times, and the time at which \<^verbatim>\<open>main\<close> returns. \<open>finish\<close> are the
  times at which the supervisors end, \<open>drain\<close> the time the audit writer takes to drain its channel.
\<close>

definition shutdown :: "nanos list \<Rightarrow> nanos option \<Rightarrow> (nanos \<times> shutdown_action) list \<times> nanos" where
  "shutdown finish drain =
     (case await_supervisors 0 0 finish of
        (as, t) \<Rightarrow>
          (case drain of
             None \<Rightarrow> ((0, CancelAll) # as @ [(t, DropAuditSender)], t)
           | Some d \<Rightarrow> ((0, CancelAll) # as @ [(t, DropAuditSender), (t + d, AuditWriterDone)], t + d)))"

lemma await_bounds:
  "now \<le> snd (await_supervisors now i fs) \<and>
   snd (await_supervisors now i fs) \<le> now + length fs * sec 5"
proof (induction fs arbitrary: now i)
  case (Cons f fs)
  let ?now = "if f \<le> now + sec 5 then max now f else now + sec 5"
  have "snd (await_supervisors now i (f # fs)) = snd (await_supervisors ?now (Suc i) fs)"
    by (simp add: case_prod_beta Let_def)
  moreover have "now \<le> ?now" "?now \<le> now + sec 5" by simp_all
  ultimately show ?case using Cons.IH [of ?now "Suc i"] by simp
qed simp

lemma await_in_time: "f \<in> set fs \<Longrightarrow> f \<le> now + sec 5 \<Longrightarrow> f \<le> snd (await_supervisors now i fs)"
proof (induction fs arbitrary: now i)
  case (Cons g fs)
  let ?now = "if g \<le> now + sec 5 then max now g else now + sec 5"
  have "f \<le> snd (await_supervisors ?now (Suc i) fs)"
  proof (cases "f = g")
    case True
    with Cons.prems await_bounds [of ?now "Suc i" fs] show ?thesis by simp
  next
    case False
    with Cons.prems show ?thesis by (intro Cons.IH) auto
  qed
  then show ?case by (simp add: case_prod_beta Let_def split: if_splits)
qed simp

lemma shutdown_exit:
  "snd (shutdown finish drain) = snd (await_supervisors 0 0 finish) + (case drain of None \<Rightarrow> 0 | Some d \<Rightarrow> d)"
  by (simp add: shutdown_def case_prod_beta split: option.splits)

section \<open>The children at the exit\<close>

text \<open>The child of a supervisor, as a process group, and when it is killed.\<close>

fun child_of :: "phase \<Rightarrow> int list" where
  "child_of (Handshaking pid left ok) = [sint pid]"
| "child_of (Monitoring pid) = [sint pid]"
| "child_of _ = []"

fun kill_time :: "phase \<Rightarrow> nanos" where
  "kill_time (Handshaking pid left ok) = left"
| "kill_time _ = 0"

definition until :: "nanos \<Rightarrow> (nanos \<times> 'a) list \<Rightarrow> 'a list" where
  "until t as = map snd (filter (\<lambda>(u, a). u \<le> t) as)"

definition performed :: "nanos \<Rightarrow> supervisor list \<Rightarrow> action list" where
  "performed t sups =
     concat (map (\<lambda>s. until t (wind_down (s_config s) (s_pass s) (s_restarts s) (s_phase s))) sups)"

definition supervisors_finish :: "supervisor list \<Rightarrow> nanos list" where
  "supervisors_finish = map (\<lambda>s. finish_time (s_pass s) (s_phase s))"

lemma until_map_Pair: "until t (map (Pair u) as) = (if u \<le> t then as else [])"
  by (simp add: until_def filter_map o_def)

lemma until_Nil: "until t [] = []"
  by (simp add: until_def)

lemma wind_down_kills:
  "killed (until t (wind_down config p n ph)) = (if kill_time ph \<le> t then child_of ph else [])"
  by (cases ph)
    (simp_all add: until_map_Pair kill_process_group_def monitor_child_def case_prod_beta until_Nil
      del: map_append list.map(2))

lemma performed_kills:
  "killed (performed t sups) = concat (map (child_of \<circ> s_phase) (filter (\<lambda>s. kill_time (s_phase s) \<le> t) sups))"
  by (induction sups) (simp_all add: performed_def wind_down_kills)

lemma kill_before_finish: "kill_time ph \<le> finish_time p ph"
  by (cases ph) simp_all

lemma finish_of_kill: "kill_time ph \<le> sec 5 \<Longrightarrow> finish_time p ph \<le> sec 5"
  by (cases ph) simp_all

lemma killed_before_exit:
  assumes "s \<in> set sups" and "kill_time (s_phase s) \<le> sec 5"
  shows "kill_time (s_phase s) \<le> snd (shutdown (supervisors_finish sups) drain)"
proof -
  have "finish_time (s_pass s) (s_phase s) \<le> snd (await_supervisors 0 0 (supervisors_finish sups))"
    using assms(1) finish_of_kill [OF assms(2), of "s_pass s"]
    by (intro await_in_time) (auto simp: supervisors_finish_def)
  with kill_before_finish [of "s_phase s" "s_pass s"] show ?thesis by (simp add: shutdown_exit)
qed

section \<open>Draining the audit channel\<close>

inductive trail_run ::
  "'v gw_ctx \<Rightarrow> ((string \<times> sql_value) list \<Rightarrow> 'db \<Rightarrow> string + 'db) \<Rightarrow>
   'db trail \<Rightarrow> trail_event list \<Rightarrow> 'db trail \<Rightarrow> bool" for ctx execute where
  trail_nil: "trail_run ctx execute s [] s"
| trail_cons: "trail_step ctx execute s e t \<Longrightarrow> trail_run ctx execute t es u \<Longrightarrow>
     trail_run ctx execute s (e # es) u"

inductive_cases trail_consE: "trail_run ctx execute s (e # es) t"
inductive_cases trail_writeE: "trail_step ctx execute s Write t"
inductive_cases trail_doneE: "trail_step ctx execute s WriterDone t"

text \<open>
  Once the senders are dropped nothing is added to the channel: what the writer has yet to take is
  the rest of it, and the database has the rows of what it took.
\<close>

definition row :: "AuditEntry \<Rightarrow> (string \<times> sql_value) list" where
  "row e = zip audit_columns (bind_entry e)"

definition drained ::
  "((string \<times> sql_value) list \<Rightarrow> bool) \<Rightarrow> (string \<times> sql_value) list list trail \<Rightarrow> trail_event list \<Rightarrow>
   (string \<times> sql_value) list list trail \<Rightarrow> bool" where
  "drained fails s es t \<longleftrightarrow>
     \<not> sending t \<and>
     channel t = drop (count_list es Write) (channel s) \<and> count_list es Write \<le> length (channel s) \<and>
     db t = db s @ filter (\<lambda>x. \<not> fails x) (map row (take (count_list es Write) (channel s)))"

lemma write_entry_row: "write_entry (log_db fails) e d = d @ filter (\<lambda>x. \<not> fails x) [row e]"
  using fold_write_log_db [of fails "[e]" d] by (simp add: row_def)

lemma drained_step:
  assumes "trail_step ctx (log_db fails) s e t" and "drained fails t es u" and "\<not> sending s"
  shows "drained fails s (e # es) u"
  using assms by cases (auto simp: drained_def write_entry_row)

lemma run_drained:
  assumes "trail_run ctx (log_db fails) s es t" and "\<not> sending s"
  shows "drained fails s es t"
  using assms
proof (induction rule: trail_run.induct)
  case (trail_nil s)
  then show ?case by (simp add: drained_def)
next
  case (trail_cons s e t es u)
  then have "\<not> sending t" by (auto elim: trail_step.cases)
  with trail_cons drained_step show ?case by blast
qed

text \<open>A writer that has not returned can take an entry or return.\<close>

lemma writer_progress:
  assumes "writing s" and "\<not> sending s"
  shows "\<exists>e t. e \<in> {Write, WriterDone} \<and> trail_step ctx execute s e t"
proof (cases "channel s")
  case Nil
  with trail_step.writer_done [OF assms Nil, of ctx execute] show ?thesis by blast
next
  case (Cons e es)
  with trail_step.write_one [OF assms(1) Cons, of ctx execute] show ?thesis by blast
qed

lemma run_reach:
  "trail_run ctx execute s es t \<Longrightarrow> reach i (trail_step ctx execute) s \<Longrightarrow> reach i (trail_step ctx execute) t"
  by (induction rule: trail_run.induct) (auto intro: reach_step)

section \<open>Properties\<close>

text \<open>
  C31: The shutdown is bounded and kills the children it waits for. \<^verbatim>\<open>main\<close> returns after at most five
  seconds per supervisor, and the time the audit writer takes to drain. The process groups killed by then are exactly
  those of the monitored children and of the children whose handshake has ended by then; so every child is killed if no handshake
  goes on for more than five seconds, and a child whose handshake outlasts the shutdown is left running.
\<close>

theorem shutdown_kills_children:
  assumes "t = snd (shutdown (supervisors_finish sups) drain)"
  shows "t \<le> length sups * sec 5 + (case drain of None \<Rightarrow> 0 | Some d \<Rightarrow> d) \<and>
     killed (performed t sups) =
       concat (map (child_of \<circ> s_phase) (filter (\<lambda>s. kill_time (s_phase s) \<le> t) sups)) \<and>
     ((\<forall>s \<in> set sups. kill_time (s_phase s) \<le> sec 5) \<longrightarrow>
        killed (performed t sups) = concat (map (child_of \<circ> s_phase) sups))"
proof (intro conjI impI)
  show "t \<le> length sups * sec 5 + (case drain of None \<Rightarrow> 0 | Some d \<Rightarrow> d)"
    using await_bounds [of 0 0 "supervisors_finish sups"]
    by (simp add: assms shutdown_exit supervisors_finish_def)
  show "killed (performed t sups) =
      concat (map (child_of \<circ> s_phase) (filter (\<lambda>s. kill_time (s_phase s) \<le> t) sups))"
    by (rule performed_kills)
  assume "\<forall>s \<in> set sups. kill_time (s_phase s) \<le> sec 5"
  then have "filter (\<lambda>s. kill_time (s_phase s) \<le> t) sups = sups"
    using killed_before_exit assms by (simp add: filter_id_conv)
  then show "killed (performed t sups) = concat (map (child_of \<circ> s_phase) sups)"
    by (simp add: performed_kills)
qed

text \<open>A supervisor that monitors its child, and one in a handshake of a minute.\<close>

definition monitoring :: supervisor where
  "monitoring = \<lparr>s_config = demo_child, s_restarts = 0, s_pass = demo_pass, s_phase = Monitoring 7\<rparr>"

definition handshaking :: supervisor where
  "handshaking = \<lparr>s_config = demo_child, s_restarts = 0, s_pass = demo_pass, s_phase = Handshaking 8 (sec 60) True\<rparr>"

theorem shutdown_kills_children_witness:
  "let t = snd (shutdown (supervisors_finish [monitoring, handshaking]) None) in
   t \<le> sec 10 \<and> killed (performed t [monitoring, handshaking]) = [7] \<and>
   killed (performed t [monitoring]) = [7]"
proof -
  let ?t = "snd (shutdown (supervisors_finish [monitoring, handshaking]) None)"
  have t: "?t \<le> sec 10"
    "killed (performed ?t [monitoring, handshaking]) =
       concat (map (child_of \<circ> s_phase) (filter (\<lambda>s. kill_time (s_phase s) \<le> ?t) [monitoring, handshaking]))"
    using shutdown_kills_children [OF refl, of "[monitoring, handshaking]" None] by simp_all
  then show ?thesis by (auto simp: Let_def performed_kills monitoring_def handshaking_def)
qed

text \<open>
  C14: The wait for the audit writer ends with the channel in the database. From every state that the dispatch
  loop and the writer can reach with the senders dropped, on every way on from there: the writer
  takes at most as many entries as are in the channel, which are at most 1024; until it has returned it
  can always take one or return; and when it has returned, the database has got, in order, a row for
  each of the entries that were in the channel, except those whose insert failed.
\<close>

theorem shutdown_drains_audit:
  assumes "reach (trail_init []) (trail_step ctx (log_db fails)) s" and "\<not> sending s"
    and "trail_run ctx (log_db fails) s es t"
  shows "count_list es Write \<le> length (channel s) \<and> length (channel s) \<le> 1024 \<and>
     (if writing t then \<exists>e u. e \<in> {Write, WriterDone} \<and> trail_step ctx (log_db fails) t e u
      else db t = db s @ filter (\<lambda>x. \<not> fails x) (map (\<lambda>e. zip audit_columns (bind_entry e)) (channel s)))"
proof -
  have d: "drained fails s es t" using assms(3,2) by (rule run_drained)
  have inv: "trail_inv ctx (log_db fails) [] s" using assms(1) by (rule audit_trail.reach_inv)
  have t: "trail_inv ctx (log_db fails) [] t"
    using run_reach [OF assms(3,1)] by (rule audit_trail.reach_inv)
  have "length (channel s) \<le> 1024" using inv by (simp add: trail_inv_def AUDIT_CAPACITY_def)
  moreover have "\<exists>e u. e \<in> {Write, WriterDone} \<and> trail_step ctx (log_db fails) t e u" if "writing t"
    using that d by (intro writer_progress) (simp_all add: drained_def)
  moreover have "db t = db s @ filter (\<lambda>x. \<not> fails x) (map (\<lambda>e. zip audit_columns (bind_entry e)) (channel s))"
    if "\<not> writing t"
    using that d t by (simp add: drained_def trail_inv_def row_def [abs_def])
  ultimately show ?thesis using d by (simp add: drained_def)
qed

text \<open>The sample session of the theory Audit_Trail: one entry is in the channel when the senders are dropped.\<close>

theorem shutdown_drains_audit_witness:
  "\<exists>s t e. channel s = [e] \<and>
     trail_run demo_ctx (log_db (\<lambda>x. False)) s [Write, WriterDone] t \<and> \<not> writing t \<and>
     db t = db s @ [zip audit_columns (bind_entry e)]"
proof -
  let ?step = "trail_step demo_ctx (log_db (\<lambda>x. False))"
  let ?s1 = "handle_message demo_ctx ''read_query'' demo_env demo_trail"
  obtain e where s1: "channel ?s1 = [e]" "writing ?s1" "sending ?s1" by (rule demo_message)
  have "reach (trail_init []) ?step demo_trail"
    by (rule reach_init) (simp add: trail_init_def demo_trail_def)
  moreover have "?step demo_trail (Message ''read_query'' demo_env) ?s1"
    by (rule trail_step.message) (simp add: demo_trail_def)
  moreover have "?step ?s1 DropSenders (?s1\<lparr>sending := False\<rparr>)"
    using s1(3) by (rule trail_step.drop_senders)
  ultimately have reach: "reach (trail_init []) ?step (?s1\<lparr>sending := False\<rparr>)"
    by (blast intro: reach_step)
  let ?s = "?s1\<lparr>sending := False\<rparr>"
  let ?u = "?s\<lparr>channel := [], db := write_entry (log_db (\<lambda>x. False)) e (db ?s), written := written ?s @ [e]\<rparr>"
  have "?step ?s Write ?u" using s1 by (intro trail_step.write_one) simp_all
  moreover have "?step ?u WriterDone (?u\<lparr>writing := False\<rparr>)"
    using s1 by (intro trail_step.writer_done) simp_all
  ultimately have run: "trail_run demo_ctx (log_db (\<lambda>x. False)) ?s [Write, WriterDone] (?u\<lparr>writing := False\<rparr>)"
    by (blast intro: trail_cons trail_nil)
  have "db (?u\<lparr>writing := False\<rparr>) = db ?s @ [zip audit_columns (bind_entry e)]"
    using shutdown_drains_audit [OF reach _ run] s1(1) by simp
  with run s1(1) show ?thesis
    by (intro exI [of _ ?s] exI [of _ "?u\<lparr>writing := False\<rparr>"] exI [of _ e]) simp
qed

end
