(* ===== verification/Protection.thy ===== *)
theory Protection
  imports Gateway_Run
begin

text \<open>
  How the circuit breakers of \<^verbatim>\<open>src/src/health/circuit_breaker.rs\<close> protect failing backends across a whole
  session of the dispatch loop of \<^verbatim>\<open>src/src/gateway.rs\<close>: which messages touch the breaker of a backend,
  and how many calls a backend that is down still gets.
\<close>

section \<open>A breaker that is about to trip\<close>

text \<open>
  \<open>tripping t0 n cb\<close>: in a window that starts at \<open>t0\<close> and is no longer than the recovery time, the breaker
  either blocks or blocks after at most \<open>n\<close> further failures.
\<close>

definition tripping :: "nanos \<Rightarrow> nat \<Rightarrow> CircuitBreaker \<Rightarrow> bool" where
  "tripping t0 n cb \<longleftrightarrow>
     (state_of cb = Open \<and> (\<exists>t \<ge> t0. last_failure cb = Some t)) \<or>
     (state_of cb = Closed \<and> 0 < n \<and> unat (failure_threshold cb) \<le> unat (failure_count cb) + n \<and>
      unat (failure_count cb) + n < 2 ^ 32)"

lemma tripping_allow:
  assumes "tripping t0 n cb" and "t0 \<le> now" and "now < t0 + recovery_timeout cb"
  shows "snd (allow_request now cb) = cb" and "n = 0 \<Longrightarrow> cb_blocked now cb"
    and "\<not> cb_blocked now cb \<Longrightarrow> state_of cb = Closed"
  using assms
  by (auto simp: tripping_def allow_request_def cb_blocked_def elapsed_def split: CircuitState.splits)

lemma tripping_failure:
  assumes "tripping t0 n cb" and "state_of cb = Closed" and "t0 \<le> t"
  shows "tripping t0 (n - 1) (record_failure t cb)"
    and "recovery_timeout (record_failure t cb) = recovery_timeout cb"
proof -
  have n: "0 < n" "unat (failure_threshold cb) \<le> unat (failure_count cb) + n"
    "unat (failure_count cb) + n < 2 ^ 32"
    using assms(1,2) by (auto simp: tripping_def)
  then have "unat (failure_count cb + 1) = Suc (unat (failure_count cb))"
    by (simp add: unat_word_ariths)
  with n assms(2,3) show "tripping t0 (n - 1) (record_failure t cb)"
    by (auto simp: tripping_def record_failure_def Let_def state_of_def word_le_nat_alt)
  show "recovery_timeout (record_failure t cb) = recovery_timeout cb"
    by (simp add: record_failure_def Let_def)
qed

lemma tripping_new: "tripping t0 (max 1 (unat threshold)) (breaker_new threshold timeout)"
  using unsigned_less [of threshold] by (auto simp: tripping_def breaker_new_def state_of_def max_def)

section \<open>Which messages touch a breaker\<close>

lemma guards_breaker:
  assumes "hm_get (breakers st) b = Some cb" and "snd (allow_request (me_cb_allow env) cb) = cb"
  shows "hm_get (breakers (snd (tools_call_guards ctx env st r name))) b = Some cb"
  using assms
  by (auto simp: tools_call_guards_def circuit_guard_def rate_limit_guard_state case_prod_beta split: option.splits)

lemma handle_tools_call_breaker:
  "hm_get (breakers (snd (snd (handle_tools_call sd env c cid params st)))) b =
     (case reachable_backend c st params of
        None \<Rightarrow> hm_get (breakers st) b
      | Some (b', be) \<Rightarrow>
          if b' = b
          then map_option
            (case fst (backend_send sd env be (to_string_value sd (outbound (counter (remapper st)) params))) of
               Inl _ \<Rightarrow> record_failure (me_cb_failure env) | Inr _ \<Rightarrow> record_success)
            (hm_get (breakers st) b)
          else hm_get (breakers st) b)"
  by (auto simp: handle_tools_call_def reachable_backend_def Let_def case_prod_beta remap_def backend_answer_eq
      update_breaker_def split: option.splits sum.splits)

lemma dispatch_breaker:
  assumes "hm_get (breakers st) b = Some cb" and "snd (allow_request (me_cb_allow env) cb) = cb"
    and down: "\<forall>be body. hm_get (backends st) b = Some be \<longrightarrow> isl (fst (backend_send (g_serde ctx) env be body))"
  shows "hm_get (breakers (snd (dispatch_line ctx env l st))) b =
     Some (if b \<in> fst ` set (backend_calls (fst (dispatch_line ctx env l st)))
           then record_failure (me_cb_failure env) cb else cb)"
proof -
  have sent: "hm_get (breakers (snd (snd (handle_tools_call (g_serde ctx) env c cid params st')))) b =
      Some (if b \<in> fst ` set (backend_calls (fst (handle_tools_call (g_serde ctx) env c cid params st')))
            then record_failure (me_cb_failure env) cb else cb)"
    if "hm_get (breakers st') b = Some cb" "backends st' = backends st" for c cid params st'
    using that down
    by (auto simp: handle_tools_call_breaker handle_tools_call_calls reachable_backend_def
        split: option.splits bind_splits sum.splits) (metis sum.disc(2))
  have call: "hm_get (breakers (snd (handle_call_method ctx env r st))) b =
      Some (if b \<in> fst ` set (backend_calls (fst (handle_call_method ctx env r st)))
            then record_failure (me_cb_failure env) cb else cb)" for r
  proof (cases "called_tool (req_params r)")
    case None
    with sent [OF assms(1) refl] assms(1) show ?thesis
      by (simp add: handle_call_method_def case_prod_beta effect_simps)
  next
    case (Some name)
    note st1 = guards_breaker [OF assms(1,2), of ctx r name]
    show ?thesis
    proof (cases "fst (tools_call_guards ctx env st r name)")
      case None
      with Some sent [OF st1 tools_call_guards_state(2)] assms(1) show ?thesis
        by (simp add: handle_call_method_def case_prod_beta effect_simps)
    next
      case refused: (Some effs)
      then have "backend_calls effs = []"
        using tools_call_guards_verdict [of ctx env st r name] by (simp add: refusal_def)
      with Some refused st1 assms(1) show ?thesis by (simp add: handle_call_method_def case_prod_beta)
    qed
  qed
  show ?thesis
  proof (cases "from_str_request (g_serde ctx) l")
    case (Inl e)
    with assms(1) show ?thesis by (simp add: dispatch_line_def)
  next
    case (Inr r)
    with call [of r] assms(1) show ?thesis
      by (auto simp: dispatch_line_def handle_request_def handle_initialize_method_def handle_tools_list_def Let_def)
  qed
qed

section \<open>Runs against a backend that is down\<close>

text \<open>Every call that the run could send to the backend fails.\<close>

fun backend_down :: "'v gw_ctx \<Rightarrow> string \<Rightarrow> gw_event list \<Rightarrow> gw_state \<Rightarrow> bool" where
  "backend_down ctx b [] st = True"
| "backend_down ctx b (Line l env # es) st \<longleftrightarrow>
     (\<forall>be body. hm_get (backends st) b = Some be \<longrightarrow> isl (fst (backend_send (g_serde ctx) env be body))) \<and>
     backend_down ctx b es (snd (dispatch_line ctx env l st))"
| "backend_down ctx b (Sighup rd toml path # es) st \<longleftrightarrow>
     backend_down ctx b es (st\<lparr>hot := on_sighup (reload_hot_config rd toml path) (hot st)\<rparr>)"
| "backend_down ctx b (e # es) st = True"

text \<open>The breaker's clock readings lie within a window.\<close>

fun breaker_window :: "nanos \<Rightarrow> nanos \<Rightarrow> gw_event \<Rightarrow> bool" where
  "breaker_window t0 d (Line l env) \<longleftrightarrow>
     t0 \<le> me_cb_allow env \<and> me_cb_allow env < t0 + d \<and> t0 \<le> me_cb_failure env"
| "breaker_window t0 d e = True"

definition calls_to :: "string \<Rightarrow> effect list \<Rightarrow> nat" where
  "calls_to b effs = length (filter (\<lambda>(b', body). b' = b) (backend_calls effs))"

lemma calls_to_append [simp]: "calls_to b (xs @ ys) = calls_to b xs + calls_to b ys"
  by (simp add: calls_to_def effect_simps)

lemma calls_to_Nil [simp]: "calls_to b [] = 0"
  by (simp add: calls_to_def)

lemma dispatch_calls_to:
  "calls_to b (fst (dispatch_line ctx env l st)) =
     (if b \<in> fst ` set (backend_calls (fst (dispatch_line ctx env l st))) then 1 else 0)"
  using length_backend_calls [of ctx env l st]
  by (cases "backend_calls (fst (dispatch_line ctx env l st))") (auto simp: calls_to_def)

lemma called_not_blocked:
  assumes "b \<in> fst ` set (backend_calls (fst (dispatch_line ctx env l st)))" and "hm_get (breakers st) b = Some cb"
  shows "\<not> cb_blocked (me_cb_allow env) cb"
proof -
  from assms(1) obtain body where "(b, body) \<in> set (backend_calls (fst (dispatch_line ctx env l st)))" by auto
  from dispatch_call_admitted [OF this] assms(2) show ?thesis
    by (auto simp: verdict_Admitted_iff circuit_blocks_def split: if_splits)
qed

lemma run_tripping:
  assumes "hm_get (breakers st) b = Some cb" and "tripping t0 n cb"
    and "list_all (breaker_window t0 (recovery_timeout cb)) es" and "backend_down ctx b es st"
  shows "calls_to b (fst (run_dispatch ctx es st)) \<le> n"
  using assms
proof (induction es st arbitrary: cb n rule: run_induct [where ctx = ctx])
  case (Line l env es st)
  let ?cb = "if b \<in> fst ` set (backend_calls (fst (dispatch_line ctx env l st)))
    then record_failure (me_cb_failure env) cb else cb"
  from Line.prems have w: "t0 \<le> me_cb_allow env" "me_cb_allow env < t0 + recovery_timeout cb"
    "t0 \<le> me_cb_failure env" by simp_all
  note allow = tripping_allow [OF Line.prems(2) w(1,2)]
  have get: "hm_get (breakers (snd (dispatch_line ctx env l st))) b = Some ?cb"
    using Line.prems(1,4) allow(1) by (intro dispatch_breaker) simp_all
  show ?case
  proof (cases "b \<in> fst ` set (backend_calls (fst (dispatch_line ctx env l st)))")
    case True
    from called_not_blocked [OF True Line.prems(1)] allow have c: "state_of cb = Closed" "0 < n" by auto
    note trip = tripping_failure [OF Line.prems(2) c(1) w(3)]
    from Line.IH [OF get _ , of "n - 1"] trip True Line.prems c show ?thesis
      by (simp add: run_dispatch_Line dispatch_calls_to del: run_dispatch.simps(2))
  next
    case False
    from Line.IH [OF get, of n] False Line.prems show ?thesis
      by (simp add: run_dispatch_Line dispatch_calls_to del: run_dispatch.simps(2))
  qed
qed simp_all

section \<open>Properties\<close>

text \<open>
  C10: A backend that is down is protected: in a session that starts with a new breaker and lasts no
  longer than its recovery time, a backend that fails every call gets at most as many calls as the
  threshold of its breaker, or one if the threshold is zero; whatever tools are called, whatever
  else the session does, and across reloads of the configuration.
\<close>

theorem failing_backend_protected:
  assumes "hm_get (breakers st) b = Some (breaker_new threshold timeout)"
    and "list_all (breaker_window t0 timeout) es" and "backend_down ctx b es st"
  shows "calls_to b (fst (run_dispatch ctx es st)) \<le> max 1 (unat threshold)"
  using assms by (intro run_tripping [OF _ tripping_new]) (simp_all add: breaker_new_def)

text \<open>The sample gateway with a network that is down and a breaker with threshold one.\<close>

definition down_env :: msg_env where
  "down_env = demo_env\<lparr>me_net := (\<lambda>a r. Inl \<lparr>is_timeout = False, is_connect = False, rq_text = ''refused''\<rparr>)\<rparr>"

definition down_state :: gw_state where
  "down_state = (demo_state [])\<lparr>breakers := [(''stub-n8n'', breaker_new 1 (sec 30))]\<rparr>"

definition down_session :: "gw_event list" where
  "down_session = [Line ''list_workflows'' down_env, Line ''list_workflows'' down_env]"

lemma dispatch_http_backend:
  assumes "hm_get (backends st) b = Some (HttpB h)"
  shows "hm_get (backends (snd (dispatch_line ctx env l st))) b = Some (HttpB h)"
proof -
  have send: "hm_get (backends (snd (snd (handle_tools_call sd env c cid params st')))) b = Some (HttpB h)"
    if "backends st' = backends st" for sd c cid params st'
    using assms that
    by (auto simp: handle_tools_call_def backend_send_def Let_def case_prod_beta backend_answer_eq split: option.splits)
  have "hm_get (backends (snd (handle_call_method ctx env r st))) b = Some (HttpB h)" for r
    using assms by (simp add: handle_call_method_def case_prod_beta send tools_call_guards_state split: option.splits)
  with assms show ?thesis
    by (simp add: dispatch_line_def handle_request_def handle_initialize_method_def Let_def split: sum.splits)
qed

lemma down_send: "isl (fst (backend_send sd down_env (HttpB h) body))"
  by (simp add: backend_send_def http_send_def retry_with_backoff_def retry_from.simps http_attempt_def
      down_env_def demo_env_def is_retryable_def)

theorem failing_backend_protected_witness:
  "calls_to ''stub-n8n'' (fst (run_dispatch demo_ctx down_session down_state)) \<le> 1"
proof -
  have "backend_down demo_ctx ''stub-n8n'' down_session down_state"
    using dispatch_http_backend [of down_state "''stub-n8n''" demo_http demo_ctx down_env "''list_workflows''"]
    by (auto simp: down_session_def down_send) (auto simp: down_state_def demo_state_def down_send)
  with failing_backend_protected [of down_state "''stub-n8n''" 1 "sec 30" 0 down_session demo_ctx]
  show ?thesis by (simp add: down_state_def down_session_def down_env_def demo_env_def)
qed

end
