(* ===== verification/Accounting.thy ===== *)
theory Accounting
  imports Gateway_Run
begin

text \<open>
  What the dispatch loop of \<^verbatim>\<open>src/src/gateway.rs\<close> reports about a session: that the metrics of
  \<^verbatim>\<open>src/src/metrics/mod.rs\<close> and the entries of the audit trail tell the same story, and that every response
  is a well-formed JSON-RPC response or one that a backend wrote.
\<close>

section \<open>One record per call\<close>

text \<open>A message leaves no trace, or one audit entry with the metric calls that belong to it.\<close>

definition recorded :: "effect list \<Rightarrow> bool" where
  "recorded effs \<longleftrightarrow>
     (audits effs = [] \<and> metric_ops effs = []) \<or>
     (\<exists>e d. audits effs = [e] \<and>
        metric_ops effs =
          record_request (ae_tool_name e) (ae_response_status e) d @
          (if ae_response_status e = ''rate_limited'' then record_rate_limit_hit (ae_tool_name e) else []))"

lemma recordedI:
  assumes "audits effs = [e]"
    and "metric_ops effs = record_request (ae_tool_name e) (ae_response_status e) d @
      (if ae_response_status e = ''rate_limited'' then record_rate_limit_hit (ae_tool_name e) else [])"
  shows "recorded effs"
  using assms unfolding recorded_def by blast

lemma guards_recorded:
  assumes "g_audit ctx" and "g_metrics ctx" and "fst (tools_call_guards ctx env st r name) = Some effs"
  shows "recorded effs"
  using assms
  by (auto simp: tools_call_guards_def kill_tool_guard_def kill_backend_guard_def rate_limit_guard_def
      rbac_guard_def schema_guard_def circuit_guard_def Let_def effect_simps case_prod_beta audit_def
      intro!: recordedI split: option.splits sum.splits if_splits)

lemma finish_recorded:
  assumes "g_audit ctx" and "g_metrics ctx"
  shows "recorded (fst (handle_tools_call sd env c cid params st) @ finish_tools_call ctx env r resp)"
  using assms
  by (cases "resp_error resp")
    (auto simp: finish_tools_call_def Let_def effect_simps audit_def intro!: recordedI)

lemma dispatch_recorded:
  assumes "g_audit ctx" and "g_metrics ctx"
  shows "recorded (fst (dispatch_line ctx env l st))"
proof -
  have none: "recorded effs" if "audits effs = []" "metric_ops effs = []" for effs
    using that by (simp add: recorded_def)
  have call: "recorded (fst (handle_call_method ctx env r st))" for r
    using guards_recorded [OF assms] finish_recorded [OF assms]
    by (auto simp: handle_call_method_def case_prod_beta none split: option.splits)
  show ?thesis
  proof (cases "from_str_request (g_serde ctx) l")
    case (Inl e)
    then show ?thesis by (simp add: dispatch_line_def none)
  next
    case (Inr r)
    then show ?thesis
      using call [of r]
      by (auto simp: dispatch_line_def handle_request_def handle_initialize_method_def handle_tools_list_def
          Let_def none)
  qed
qed

section \<open>Counters and entries\<close>

definition entries_with :: "string \<Rightarrow> string \<Rightarrow> effect list \<Rightarrow> nat" where
  "entries_with t s effs =
     length (filter (\<lambda>e. ae_tool_name e = t \<and> ae_response_status e = s) (audits effs))"

lemma entries_with_append [simp]: "entries_with t s (xs @ ys) = entries_with t s xs + entries_with t s ys"
  by (simp add: entries_with_def effect_simps)

text \<open>The readings that a list of effects should give.\<close>

definition consistent :: "string \<Rightarrow> string \<Rightarrow> effect list \<Rightarrow> bool" where
  "consistent t s effs \<longleftrightarrow>
     list_all labelled (metric_ops effs) \<and>
     counter_value ''sentinel_requests_total'' [t, s] (metric_ops effs) = entries_with t s effs \<and>
     counter_value ''sentinel_errors_total'' [t, s] (metric_ops effs) =
       (if s = ''success'' then 0 else entries_with t s effs) \<and>
     counter_value ''sentinel_rate_limit_hits_total'' [t] (metric_ops effs) =
       entries_with t ''rate_limited'' effs"

lemma consistent_Nil: "consistent t s []"
  by (simp add: consistent_def entries_with_def counter_value_def)

lemma consistent_append: "consistent t s xs \<Longrightarrow> consistent t s ys \<Longrightarrow> consistent t s (xs @ ys)"
  by (auto simp: consistent_def effect_simps)

lemma counter_value_hits:
  "counter_value ''sentinel_requests_total'' [t, s] (record_rate_limit_hit tool) = 0"
  "counter_value ''sentinel_errors_total'' [t, s] (record_rate_limit_hit tool) = 0"
  "counter_value ''sentinel_rate_limit_hits_total'' [t] (record_rate_limit_hit tool) = (if tool = t then 1 else 0)"
  "counter_value ''sentinel_rate_limit_hits_total'' [t] (record_request tool status d) = 0"
  "counter_value n ls [] = 0"
  by (simp_all add: counter_value_def record_rate_limit_hit_def record_request_def)

lemma recorded_consistent:
  assumes "recorded effs"
  shows "consistent t s effs"
proof -
  consider "audits effs = []" "metric_ops effs = []"
    | e d where "audits effs = [e]" "metric_ops effs =
        record_request (ae_tool_name e) (ae_response_status e) d @
        (if ae_response_status e = ''rate_limited'' then record_rate_limit_hit (ae_tool_name e) else [])"
    using assms by (auto simp: recorded_def)
  then show ?thesis
  proof cases
    case 1
    then show ?thesis by (simp add: consistent_def entries_with_def counter_value_def)
  next
    case (2 e d)
    have "list_all labelled (metric_ops effs)" using record_labelled by (simp add: 2)
    then show ?thesis
      by (simp add: consistent_def 2 entries_with_def counter_value_record counter_value_hits)
  qed
qed

lemma run_consistent:
  assumes "g_audit ctx" and "g_metrics ctx"
  shows "consistent t s (fst (run_dispatch ctx es st))"
  by (induction es st rule: run_induct [where ctx = ctx])
    (simp_all add: run_dispatch_Line consistent_Nil consistent_append recorded_consistent
      dispatch_recorded [OF assms] del: run_dispatch.simps(2))

section \<open>Well-formed responses\<close>

text \<open>JSON-RPC 2.0: the version, and either a result or an error.\<close>

definition well_formed :: "JsonRpcResponse \<Rightarrow> bool" where
  "well_formed r \<longleftrightarrow> resp_jsonrpc r = ''2.0'' \<and> (resp_result r = None \<longleftrightarrow> resp_error r \<noteq> None)"

lemma well_formed_simps [simp]:
  "well_formed (resp_success i v)" "well_formed (mk_error i c m)" "well_formed (error_with_data i c m d)"
  by (simp_all add: well_formed_def resp_success_def mk_error_def error_with_data_def)

text \<open>
  What the client gets for a call that was passed to a backend, from what the backend's \<^verbatim>\<open>send\<close> returned:
  the response in it under the client's id, or an error.
\<close>

definition reply_to :: "serde \<Rightarrow> JsonRpcId \<Rightarrow> BackendError + string \<Rightarrow> JsonRpcResponse" where
  "reply_to sd i res =
     (case res of
        Inl e \<Rightarrow> mk_error i INTERNAL_ERROR (''Backend error: '' @ backend_error_display e)
      | Inr text' \<Rightarrow>
          (case from_str_response sd text' of
             Inl e \<Rightarrow> mk_error i INTERNAL_ERROR (''Invalid backend response: '' @ e)
           | Inr reply \<Rightarrow> reply\<lparr>resp_id := i\<rparr>))"

lemma backend_answer_reply:
  assumes "remap i b tbl = (g, remapper st)"
  shows "fst (backend_answer sd env b' g res st) = reply_to sd i res"
proof -
  have "fst (restore_id g (update_breaker b' f st)) = Some i" for f
    using assms by (intro restore_id_remapped) simp
  then show ?thesis
    by (simp add: backend_answer_eq reply_to_def Let_def unwrap_id_def split: sum.splits)
qed

lemma guards_well_formed:
  "fst (tools_call_guards ctx env st r name) = Some effs \<Longrightarrow>
   list_all well_formed (sends effs) \<and> backend_calls effs = []"
  by (auto simp: tools_call_guards_def kill_tool_guard_def kill_backend_guard_def rate_limit_guard_def
      rbac_guard_def schema_guard_def circuit_guard_def Let_def effect_simps case_prod_beta
      split: option.splits sum.splits if_splits)

text \<open>The responses to a message: well formed, or the reply to the one call it made.\<close>

definition replied :: "'v gw_ctx \<Rightarrow> msg_env \<Rightarrow> gw_state \<Rightarrow> JsonRpcRequest \<Rightarrow> effect list \<Rightarrow> bool" where
  "replied ctx env st r effs \<longleftrightarrow>
     (case backend_calls effs of
        [] \<Rightarrow> list_all well_formed (sends effs)
      | (b, body) # rest \<Rightarrow> rest = [] \<and>
          (\<exists>be. hm_get (backends st) b = Some be \<and>
             sends effs = [reply_to (g_serde ctx) (id_or_null r) (fst (backend_send (g_serde ctx) env be body))]))"

lemma handle_tools_call_replied:
  "replied ctx env st r
     (fst (handle_tools_call (g_serde ctx) env (g_catalog ctx) (id_or_null r) (req_params r) st) @
      finish_tools_call ctx env r
        (fst (snd (handle_tools_call (g_serde ctx) env (g_catalog ctx) (id_or_null r) (req_params r) st))))"
proof (cases "reachable_backend (g_catalog ctx) st (req_params r)")
  case None
  then have "well_formed (fst (snd (handle_tools_call (g_serde ctx) env (g_catalog ctx) (id_or_null r)
      (req_params r) st)))"
    by (auto simp: handle_tools_call_def reachable_backend_def split: option.splits)
  with None show ?thesis by (simp add: replied_def effect_simps handle_tools_call_calls)
next
  case (Some p)
  obtain b be where p: "p = (b, be)" by (cases p)
  obtain g tbl where g: "remap (id_or_null r) b (remapper st) = (g, tbl)"
    by (cases "remap (id_or_null r) b (remapper st)")
  let ?body = "to_string_value (g_serde ctx) (outbound g (req_params r))"
  obtain res be' where s: "backend_send (g_serde ctx) env be ?body = (res, be')"
    by (cases "backend_send (g_serde ctx) env be ?body")
  have "hm_get (backends st) b = Some be"
    using Some p by (auto simp: reachable_backend_def split: option.splits bind_splits)
  with handle_tools_call_reachable [OF Some [unfolded p] g refl s] g s show ?thesis
    by (simp add: replied_def effect_simps backend_answer_reply [of "id_or_null r" b "remapper st"])
qed

lemma handle_call_method_replied: "replied ctx env st r (fst (handle_call_method ctx env r st))"
proof (cases "is_notification r")
  case True
  then show ?thesis by (simp add: handle_call_method_def replied_def)
next
  case False
  show ?thesis
  proof (cases "called_tool (req_params r)")
    case None
    with False handle_tools_call_replied [of ctx env st r] show ?thesis
      by (simp add: handle_call_method_def case_prod_beta)
  next
    case (Some name)
    let ?st = "snd (tools_call_guards ctx env st r name)"
    show ?thesis
    proof (cases "fst (tools_call_guards ctx env st r name)")
      case None
      moreover have "replied ctx env ?st r effs \<longleftrightarrow> replied ctx env st r effs" for effs
        unfolding replied_def tools_call_guards_state ..
      ultimately show ?thesis
        using False Some handle_tools_call_replied [of ctx env ?st r]
        by (simp add: handle_call_method_def case_prod_beta)
    next
      case (Some effs)
      with False \<open>called_tool (req_params r) = Some name\<close> guards_well_formed [OF Some] show ?thesis
        by (simp add: handle_call_method_def case_prod_beta replied_def)
    qed
  qed
qed

lemma dispatch_replied:
  "case from_str_request (g_serde ctx) l of
     Inl e \<Rightarrow> list_all well_formed (sends (fst (dispatch_line ctx env l st))) \<and>
       backend_calls (fst (dispatch_line ctx env l st)) = []
   | Inr r \<Rightarrow> replied ctx env st r (fst (dispatch_line ctx env l st))"
proof (cases "from_str_request (g_serde ctx) l")
  case (Inl e)
  then show ?thesis by (simp add: dispatch_line_def)
next
  case (Inr r)
  then show ?thesis
    using handle_call_method_replied [of ctx env st r]
    by (auto simp: dispatch_line_def handle_request_def handle_initialize_method_def handle_tools_list_def
        Let_def replied_def split: sum.splits)
qed

section \<open>Properties\<close>

text \<open>
  C11: The metrics and the audit trail tell the same story. Over any session with both on, no metric call
  has the wrong labels, which would panic; for every tool and status, the request counter is the number
  of audit entries with that tool and status, the error counter is the same for every status but
  success, and the rate-limit counter of a tool is the number of its entries with that status.
\<close>

theorem metrics_match_audit:
  assumes "g_audit ctx" and "g_metrics ctx"
  shows "let effs = fst (run_dispatch ctx es st) in
     list_all labelled (metric_ops effs) \<and>
     counter_value ''sentinel_requests_total'' [t, s] (metric_ops effs) = entries_with t s effs \<and>
     counter_value ''sentinel_errors_total'' [t, s] (metric_ops effs) =
       (if s = ''success'' then 0 else entries_with t s effs) \<and>
     counter_value ''sentinel_rate_limit_hits_total'' [t] (metric_ops effs) = entries_with t ''rate_limited'' effs"
  using run_consistent [OF assms, of t s es st] by (simp add: consistent_def Let_def)

theorem metrics_match_audit_witness:
  "counter_value ''sentinel_requests_total'' [''list_workflows'', ''success'']
     (metric_ops (fst (run_dispatch demo_ctx demo_session demo_start))) =
   entries_with ''list_workflows'' ''success'' (fst (run_dispatch demo_ctx demo_session demo_start))"
proof -
  have "g_audit demo_ctx" "g_metrics demo_ctx" by (simp_all add: demo_ctx_def)
  from metrics_match_audit [OF this, of demo_session demo_start "''list_workflows''" "''success''"]
  show ?thesis by (simp add: Let_def)
qed

text \<open>
  C4: Every response of the gateway's own making is a well-formed JSON-RPC 2.0 response, with the
  version and exactly one of result and error. The only other responses are those of a backend: for a
  message that was passed to a backend, the client gets exactly one response under the id of its own
  request, which is the response that this backend's \<^verbatim>\<open>send\<close> returned for the forwarded body, changed in
  nothing but the id, or a well-formed internal error if the call failed or its text is no response.
\<close>

theorem responses_well_formed:
  "let effs = fst (dispatch_line ctx env l st) in
   (case backend_calls effs of
      [] \<Rightarrow> list_all well_formed (sends effs)
    | (b, body) # rest \<Rightarrow>
        rest = [] \<and>
        (\<exists>r be. from_str_request (g_serde ctx) l = Inr r \<and> hm_get (backends st) b = Some be \<and>
           (case fst (backend_send (g_serde ctx) env be body) of
              Inl e \<Rightarrow> \<exists>resp. sends effs = [resp] \<and> well_formed resp \<and> resp_id resp = id_or_null r \<and>
                map_option err_code (resp_error resp) = Some INTERNAL_ERROR
            | Inr text' \<Rightarrow>
                (case from_str_response (g_serde ctx) text' of
                   Inl e \<Rightarrow> \<exists>resp. sends effs = [resp] \<and> well_formed resp \<and> resp_id resp = id_or_null r \<and>
                     map_option err_code (resp_error resp) = Some INTERNAL_ERROR
                 | Inr reply \<Rightarrow> sends effs = [reply\<lparr>resp_id := id_or_null r\<rparr>]))))"
proof (cases "from_str_request (g_serde ctx) l")
  case (Inl e)
  with dispatch_replied [where ctx = ctx and env = env and l = l and st = st] show ?thesis by (simp add: Let_def)
next
  case (Inr r)
  have err: "well_formed (mk_error i c m) \<and> resp_id (mk_error i c m) = i \<and>
      map_option err_code (resp_error (mk_error i c m)) = Some c" for i c m
    by (simp add: mk_error_def well_formed_def)
  from Inr dispatch_replied [where ctx = ctx and env = env and l = l and st = st] show ?thesis
    by (auto simp: Let_def replied_def reply_to_def err split: list.splits sum.splits)
qed

end
