(* ===== verification/Stdio_Call.thy ===== *)
theory Stdio_Call
  imports Backend_Stdio
begin

text \<open>
  The call function of a stdio backend (\<^verbatim>\<open>StdioBackend::send\<close> in \<^verbatim>\<open>src/src/backend/stdio.rs\<close>) against the
  concurrent tasks: the results that \<open>stdio_send\<close> can give are exactly those that a call can have
  under some schedule of caller, reader and child.
\<close>

section \<open>Runs with a single caller\<close>

fun concerns :: "nat \<Rightarrow> string \<Rightarrow> stdio_event \<Rightarrow> bool" where
  "concerns w body (Begin v b) \<longleftrightarrow> v = w \<and> b = body"
| "concerns w body _ \<longleftrightarrow> True"

text \<open>A call can end with a response only if some line of the child can carry it.\<close>

fun answerable :: "serde \<Rightarrow> string \<Rightarrow> call_end \<Rightarrow> bool" where
  "answerable sd body (Response r) \<longleftrightarrow>
     (\<exists>line i. request_id sd body = Inr i \<and> reader_line sd line = Some (i, r))"
| "answerable sd body _ \<longleftrightarrow> True"

text \<open>
  What holds in such a run: only the caller is pending, and a finished call ended as its call function
  says.
\<close>

definition ended :: "serde \<Rightarrow> string \<Rightarrow> BackendError + string \<Rightarrow> bool" where
  "ended sd body r \<longleftrightarrow>
     (case request_id sd body of
        Inl e \<Rightarrow> r = Inl e
      | Inr i \<Rightarrow> \<exists>ending. answerable sd body ending \<and> r = fst (finish_call ending i []))"

definition alone :: "serde \<Rightarrow> nat \<Rightarrow> string \<Rightarrow> stdio_state \<Rightarrow> bool" where
  "alone sd w body s \<longleftrightarrow>
     (\<forall>j v. hm_get (pending s) j = Some v \<longrightarrow> v = w) \<and>
     (\<forall>c. hm_get (calls s) w = Some c \<longrightarrow>
        call_body c = body \<and> (\<forall>r. call_status c = Done r \<longrightarrow> ended sd body r))"

lemma finish_call_result: "fst (finish_call e i m) = fst (finish_call e i [])"
  by (cases e) simp_all

lemma alone_pending:
  assumes "alone sd w body s" and "calls t = calls s"
    and "\<And>j v. hm_get (pending t) j = Some v \<Longrightarrow> hm_get (pending s) j = Some v"
  shows "alone sd w body t"
  using assms unfolding alone_def by metis

text \<open>A step that ends some call keeps this, provided the way it ends is possible for the caller.\<close>

lemma alone_end_call:
  assumes "alone sd w body s" and inv: "stdio_inv sd s" and v: "status_of v s = Some st"
    and st: "st \<in> {Registered, Waiting}" and e: "v = w \<Longrightarrow> answerable sd body e"
  shows "alone sd w body (end_call v e s)"
proof -
  obtain c where c: "hm_get (calls s) v = Some c" "call_status c \<in> {Registered, Waiting}"
    using v st by (auto simp: status_of_Some)
  have settled: "ended sd body (fst (finish_call e (call_id c) (pending s)))" if "v = w"
  proof -
    have "request_id sd body = Inr (call_id c)"
      using call_okD [OF inv c(1)] c that assms(1) by (auto simp: call_ok_def alone_def)
    then show ?thesis
      using e [OF that] finish_call_result [of e "call_id c" "pending s"] by (auto simp: ended_def)
  qed
  have left: "hm_get (pending s) j = Some u" if "hm_get (pending (end_call v e s)) j = Some u" for j u
    using that finish_call_pending(2) [of e "call_id c" "pending s" j u] by (simp add: end_call_pending [OF c(1)])
  show ?thesis
    unfolding alone_def
  proof (intro conjI allI impI)
    show "u = w" if "hm_get (pending (end_call v e s)) j = Some u" for j u
      using left [OF that] assms(1) by (simp add: alone_def)
    fix d
    assume d: "hm_get (calls (end_call v e s)) w = Some d"
    show "call_body d = body"
      using d assms(1) c(1) by (auto simp: alone_def end_call_calls [OF c(1)] split: if_splits)
    show "ended sd body r" if "call_status d = Done r" for r
      using that d assms(1) settled by (auto simp: alone_def end_call_calls [OF c(1)] split: if_splits)
  qed
qed

lemma slot_answerable:
  assumes "stdio_inv sd s" and "alone sd w body s" and "status_of w s = Some Waiting"
    and "hm_get (slots s) w = Some r"
  shows "answerable sd body (Response r)"
proof -
  obtain c where c: "hm_get (calls s) w = Some c" "call_status c = Waiting"
    using assms(3) by (auto simp: status_of_Some)
  obtain line where "reader_line sd line = Some (call_id c, r)"
    using slot_call [OF assms(1,4)] c(1) by auto
  moreover have "request_id sd body = Inr (call_id c)"
    using call_okD [OF assms(1) c(1)] c assms(2) by (auto simp: call_ok_def alone_def)
  ultimately show ?thesis by auto
qed

lemma alone_step:
  assumes "alone sd w body s" and inv: "stdio_inv sd s" and "stdio_step sd s e t" and "concerns w body e"
  shows "alone sd w body t"
  using assms(3)
proof cases
  case (register v b i)
  then show ?thesis using assms(1,4) by (auto simp: alone_def split: if_splits)
next
  case (reject v b er)
  then show ?thesis using assms(1,4) by (auto simp: alone_def ended_def)
next
  case (enqueue v c)
  then show ?thesis using assms(1) by (auto simp: alone_def set_status_def split: if_splits)
next
  case (read_line line)
  then show ?thesis
    using assms(1)
    by (auto simp: deliver_def intro!: alone_pending [OF assms(1)] split: option.splits if_splits)
next
  case (write_stdin m ms)
  then show ?thesis by (auto intro!: alone_pending [OF assms(1)])
next
  case writer_end
  then show ?thesis by (auto intro!: alone_pending [OF assms(1)])
next
  case read_end
  then show ?thesis by (auto simp: drain_pending_def intro!: alone_pending [OF assms(1)])
next
  case (response v r)
  then show ?thesis
    using slot_answerable [OF inv assms(1)] by (auto intro!: alone_end_call [OF assms(1) inv])
qed (auto intro!: alone_end_call [OF assms(1) inv])

lemma alone_run:
  assumes "stdio_run sd s es t" and "alone sd w body s" and "stdio_inv sd s"
    and "list_all (concerns w body) es"
  shows "alone sd w body t \<and> stdio_inv sd t"
  using assms
  by (induction rule: stdio_run.induct) (auto dest: alone_step stdio_inv_step)

section \<open>The call function against the tasks\<close>

lemma stdio_send_result:
  "fst (stdio_send sd ending b body) =
     (case request_id sd body of Inl e \<Rightarrow> Inl e | Inr i \<Rightarrow> fst (finish_call ending i []))"
  by (cases ending) (auto simp: stdio_send_def split: sum.splits)

lemma stdio_send_backend: "snd (stdio_send sd ending b body) = b\<lparr>sb_pending := sb_pending (snd (stdio_send sd ending b body))\<rparr>"
  by (auto simp: stdio_send_def split: sum.splits prod.splits)

lemma ended_iff: "ended sd body r \<longleftrightarrow> (\<exists>ending. answerable sd body ending \<and> fst (stdio_send sd ending b body) = r)"
proof (cases "request_id sd body")
  case (Inl e)
  then show ?thesis by (auto simp: ended_def stdio_send_result intro: exI [of _ TimedOut])
qed (auto simp: ended_def stdio_send_result)

text \<open>Every result under a schedule is one of the call function, and nothing stays pending.\<close>

lemma single_call_sound:
  assumes "stdio_inv sd s" and "hm_get (calls s) w = None" and "pending s = []"
    and "stdio_run sd s es t" and "list_all (concerns w body) es" and "status_of w t = Some (Done r)"
  shows "ended sd body r \<and> pending t = []"
proof -
  have "alone sd w body s" using assms(2,3) by (simp add: alone_def)
  then have t: "alone sd w body t" "stdio_inv sd t" using alone_run assms(1,4,5) by blast+
  obtain c where c: "hm_get (calls t) w = Some c" "call_status c = Done r"
    using assms(6) by (auto simp: status_of_Some)
  have "hm_get (pending t) j \<noteq> Some v" for j v
    using t(1) pending_call(1) [OF t(2), of j v] c by (auto simp: alone_def)
  then have "pending t = []" by (cases "pending t") (auto, fastforce split: if_splits)
  then show ?thesis using t(1) c by (simp add: alone_def)
qed

lemma call_schedule_concerns: "list_all (concerns w body) (call_schedule w body line ending)"
  by (cases ending) simp_all

lemma run_append: "stdio_run sd s es t \<Longrightarrow> stdio_run sd t es' u \<Longrightarrow> stdio_run sd s (es @ es') u"
  by (induction rule: stdio_run.induct) (auto intro: run_cons)

text \<open>Every result of the call function is had under some schedule, after the writer has made room.\<close>

lemma single_call_complete:
  assumes "idle sd s w" and "answerable sd body ending"
  shows "\<exists>es t. stdio_run sd s es t \<and> list_all (concerns w body) es \<and>
     status_of w t = Some (Done (fst (stdio_send sd ending b body)))"
proof (cases "request_id sd body")
  case (Inl e)
  let ?t = "s\<lparr>calls := hm_insert w \<lparr>call_id = 0, call_body = body, call_status = Done (Inl e)\<rparr> (calls s)\<rparr>"
  have "stdio_step sd s (Begin w body) ?t"
    using assms(1) Inl by (intro stdio_step.reject) (simp_all add: idle_def)
  from run_one [OF this] Inl show ?thesis
    by (intro exI [of _ "[Begin w body]"] exI [of _ ?t]) (simp add: status_of_def stdio_send_result)
next
  case (Inr i)
  obtain line where "\<forall>r. ending = Response r \<longrightarrow> reader_line sd line = Some (i, r)"
    using assms(2) Inr by (cases ending) auto
  moreover obtain pre s' where pre: "stdio_run sd s pre s'" "set pre \<subseteq> {WriteStdin}" "idle sd s' w" "room s'"
    using idle_makes_room [OF assms(1)] by blast
  ultimately obtain t where
    t: "stdio_run sd s' (call_schedule w body line ending) t"
    "status_of w t = Some (Done (fst (finish_call ending i (pending s'))))"
    using call_schedule_runs [OF pre(3) Inr pre(4)] by blast
  have "list_all (concerns w body) pre" using pre(2) by (auto simp: list_all_iff)
  then show ?thesis
    using run_append [OF pre(1) t(1)] t(2) call_schedule_concerns [of w body line ending]
      finish_call_result [of ending i "pending s'"]
    by (intro exI [of _ "pre @ call_schedule w body line ending"] exI [of _ t]) (simp add: stdio_send_result Inr)
qed

section \<open>Properties\<close>

text \<open>
  C33: The call function and the concurrent tasks agree. For a backend whose reader and writer tasks run
  and that has no call under way, a result and a pending map are those of the call under some interleaving of its own steps with the
  lines and the exit of the child exactly if \<open>stdio_send\<close> gives them for some way the wait can end; in
  both cases nothing stays pending.
\<close>

theorem stdio_send_exact:
  assumes "idle sd s w" and "pending s = []" and "sb_pending b = []"
  shows "(\<exists>es t. stdio_run sd s es t \<and> list_all (concerns w body) es \<and>
            status_of w t = Some (Done r) \<and> pending t = p) \<longleftrightarrow>
         (\<exists>ending. answerable sd body ending \<and> stdio_send sd ending b body = (r, b\<lparr>sb_pending := p\<rparr>))"
    (is "?runs \<longleftrightarrow> ?sends")
proof -
  have s: "stdio_inv sd s" "hm_get (calls s) w = None" using assms(1) by (simp_all add: idle_def)
  have idle: "snd (stdio_send sd ending b body) = b\<lparr>sb_pending := []\<rparr>" for ending
    using stdio_send_backend [of sd ending b body] stdio_send_idle [OF assms(3)] by metis
  have update: "b\<lparr>sb_pending := []\<rparr> = b\<lparr>sb_pending := p\<rparr> \<longleftrightarrow> p = []"
    by (metis StdioBackend.select_convs(2) StdioBackend.surjective StdioBackend.update_convs(2))
  have sends: "?sends \<longleftrightarrow> p = [] \<and> ended sd body r"
    unfolding ended_iff [of sd body r b] using update by (auto simp: prod_eq_iff idle)
  have runs: "?runs \<longleftrightarrow> p = [] \<and> ended sd body r"
  proof
    assume ?runs
    then show "p = [] \<and> ended sd body r"
      using single_call_sound [OF s assms(2)] by blast
  next
    assume p: "p = [] \<and> ended sd body r"
    then obtain es t where t: "stdio_run sd s es t" "list_all (concerns w body) es"
      "status_of w t = Some (Done r)"
      using ended_iff [of sd body r b] single_call_complete [OF assms(1)] by blast
    then show ?runs using single_call_sound [OF s assms(2) t] p by blast
  qed
  show ?thesis by (simp only: sends runs)
qed

theorem stdio_send_exact_witness:
  "\<exists>es t. stdio_run demo_serde demo_idle es t \<and> list_all (concerns 0 ''q'') es \<and>
     status_of 0 t = Some (Done (Inr ''a'')) \<and> pending t = []"
proof -
  let ?b = "\<lparr>sb_name = ''b'', sb_pending = [], sb_pid = 1, sb_timeout = sec 1\<rparr>"
  have "answerable demo_serde ''q'' (Response ''a'')" using demo_request demo_line by auto
  moreover have "stdio_send demo_serde (Response ''a'') ?b ''q'' = (Inr ''a'', ?b\<lparr>sb_pending := []\<rparr>)"
    by (simp add: stdio_send_def demo_request)
  ultimately have "\<exists>ending. answerable demo_serde ''q'' ending \<and>
      stdio_send demo_serde ending ?b ''q'' = (Inr ''a'', ?b\<lparr>sb_pending := []\<rparr>)" by blast
  moreover have "pending demo_idle = []" "sb_pending ?b = []" by (simp_all add: demo_idle_def)
  ultimately show ?thesis by (simp only: stdio_send_exact [OF demo_idle(2)])
qed

end
