(* ===== verification/Spec2Isabelle.thy ===== *)
theory Spec2Isabelle
  imports Access Session Shutdown Protection Accounting Stdio_Call
begin

text \<open>
  A verification library for the Sentinel MCP Gateway, the Rust program under \<^verbatim>\<open>src/src\<close>.

  \<^bold>\<open>The program.\<close> The gateway sits between one MCP client, on stdin and stdout, and many MCP servers, the
  backends. At start-up (\<^verbatim>\<open>main.rs\<close>) it loads its configuration, asks each backend for its tools,
  registers them in a catalog, authenticates the session with a JWT, and starts its tasks: the
  transport on stdin and stdout, the dispatch loop, the audit writer, the health server and checker,
  one supervisor per stdio backend, and the handlers of signals. The dispatch loop (\<^verbatim>\<open>gateway.rs\<close>)
  follows the MCP life cycle; a \<^verbatim>\<open>tools/call\<close> passes, in this order, the kill switches, the rate
  limiter, the role check, the argument schema and the circuit breaker, is sent under a new id to its
  backend, over HTTP with retries or to a child process, and is answered, counted and audited.

  \<^bold>\<open>Conventions.\<close> A Rust struct is a record, an enum a datatype, a machine integer a word, an
  \<^verbatim>\<open>Instant\<close> or \<^verbatim>\<open>Duration\<close> a number of nanoseconds, a \<^verbatim>\<open>HashMap\<close> an association list without
  repeated keys behind the interface \<open>keyed_store\<close>, a string the list of its bytes, and a failing
  function returns a sum whose left side is the error. State is passed explicitly; a handler also returns its
  effects in order. What an operation reads from clocks, random numbers, the network, the environment
  or the operating system is an argument. Tasks that interleave are step relations over atomic actions,
  and their invariants go through the interface \<open>invariant_system\<close>. Third-party crates (serde, toml,
  jsonwebtoken, jsonschema, reqwest, sqlx, prometheus, axum) are parameters; where a theorem needs
  something of them it is a named hypothesis, such as \<open>decode_contract\<close>, \<open>random_range_ok\<close>
  or \<open>prints_head\<close>, and a witness shows that it can hold.

  \<^bold>\<open>The theories.\<close>

  \<^item> Sentinel_Prelude: word types, the interface of hash maps and its lemmas, runs, reachable states.
  \<^item> Rust_Str: the string functions of the standard library the program uses, and UTF-8.
  \<^item> Jsonrpc, Mcp: \<^verbatim>\<open>protocol/jsonrpc.rs\<close> and \<^verbatim>\<open>protocol/mcp.rs\<close>, messages and the life cycle.
  \<^item> Id_Remapper: \<^verbatim>\<open>protocol/id_remapper.rs\<close>, as functions and as interleaved atomic actions; callers
    are never given each other's ids.
  \<^item> Config, Hot_Config: \<^verbatim>\<open>config/\<close>, which configurations load, and that a reload is all or nothing.
  \<^item> Auth: \<^verbatim>\<open>auth/\<close>, tokens, the caller of the session, and the role check as the documented policy.
  \<^item> Rate_Limit: \<^verbatim>\<open>ratelimit.rs\<close>, bounds on what is admitted, isolation of clients and tools, and that
    the retry hint suffices.
  \<^item> Circuit_Breaker: \<^verbatim>\<open>health/circuit_breaker.rs\<close>, which refines a three-state machine.
  \<^item> Catalog, Validation: \<^verbatim>\<open>catalog/\<close> and \<^verbatim>\<open>validation/\<close>, registration, routing and schema checks.
  \<^item> Metrics, Audit_Log: \<^verbatim>\<open>metrics/\<close> and \<^verbatim>\<open>audit/\<close>, what is counted and written.
  \<^item> Backend_Http: \<^verbatim>\<open>backend/error.rs\<close>, \<^verbatim>\<open>retry.rs\<close>, \<^verbatim>\<open>sse.rs\<close>, \<^verbatim>\<open>http.rs\<close>; the retry loop ends with the
    right result and delays, and event streams are decoded whatever their chunks.
  \<^item> Transport: \<^verbatim>\<open>transport/stdio.rs\<close>, framing and its round trip.
  \<^item> Backend_Stdio, Supervisor: \<^verbatim>\<open>backend/stdio.rs\<close>, calls to a child under any interleaving of its
    tasks, with the bounded channel to the writer task, the environment of the child, and the loop that
    restarts it. Stdio_Call: the call function
    gives exactly the results that the tasks can give a call.
  \<^item> Gateway: \<^verbatim>\<open>gateway.rs\<close> and \<^verbatim>\<open>backend/mod.rs\<close>, all handlers and the loop. Gateway_Call: one message,
    that is the verdict on a call, responses, audit entries, tool lists. Gateway_Run: sessions, that is the
    invariant of the loop, the order of the handshake, and the policies across messages.
  \<^item> Protection: the circuit breakers across a session; a backend that is down gets few calls.
  \<^item> Accounting: metrics against audit entries over a session, and the form of the responses.
  \<^item> Session: from the bytes of stdin to those of stdout, wherever the writer task is cut off; the gateway
    refines a protocol machine that shares no definition with it.
  \<^item> Audit_Trail: dispatch loop, audit channel and writer together; the trail is complete.
  \<^item> Health: \<^verbatim>\<open>health/server.rs\<close> and \<^verbatim>\<open>health/checker.rs\<close>, the routes and the record of the checker.
  \<^item> Boot: \<^verbatim>\<open>main.rs\<close>, what start-up establishes and the authentication of the session. Access: every call
    that reaches a backend is granted by the caller's role.
  \<^item> Shutdown: the end of \<^verbatim>\<open>main.rs\<close> against the supervisors and the audit writer, over time; how long it
    takes, which children are killed, and that the audit channel is drained.
  \<^item> This theory: properties that need start-up, sessions, authentication and health checks together.

  \<^bold>\<open>Interfaces.\<close> The locales are \<open>keyed_store\<close> (hash maps), \<open>invariant_system\<close> (interpreted by the id table,
  the stdio tasks, the dispatch loop and the audit trail), \<open>correlation_table\<close> (the id table),
  \<open>budget_gate\<close> (the token bucket), \<open>breaker_contract\<close> (the circuit breaker), \<open>tool_directory\<close> (the
  catalog) and \<open>framing\<close> (the client's pipes and those of a child).

  \<^bold>\<open>Bounds.\<close> No definition uses fuel. The retry loop terminates by a measure on words; every other loop
  is a recursion over the messages, ticks, passes or chunks it consumes, for all such lists. The theorems on
  counters state the number of events up to which words do not wrap: \<open>2 ^ 64\<close> ids, \<open>2 ^ 32\<close> failures, 57
  doublings of the retry delay. Floating-point seconds are nanoseconds, or rationals for the
  backoff of the supervisor.

  \<^bold>\<open>Not modelled.\<close> The command line (\<^verbatim>\<open>cli.rs\<close>), logging (\<^verbatim>\<open>logging.rs\<close> and the log statements), the
  module lists, the settings of the HTTP client, the pool and migrations of the database, the
  listening socket of the health server and the registration of signal handlers: they configure or call
  libraries and keep no state of their own. The dispatch loop handles one message at a time, so
  that the other tasks reach its state only through the channels, the pending map and the reload
  that are modelled; the order of a full channel's waiting senders is not. \<open>BackendCall\<close> is one call of
  \<^verbatim>\<open>Backend::send\<close>, and the loop is modelled for sends that return; Backend_Stdio shows when a send to a
  child does not. A task that is dropped in mid-operation when \<^verbatim>\<open>main\<close> returns is modelled for the supervisors
  and for the stdout writer; the health server and checker write nothing that lasts. \<open>spawn\<close> counts no child
  that the system starts without the pipes it was asked for, and \<open>health_router\<close> answers GET requests, the
  only ones the routes are registered for.
\<close>

section \<open>Properties that span the program\<close>

text \<open>
  C26: A gateway that started never promises a tool it cannot reach: after any session, in a gateway
  that connected some backend, an admitted call of a tool of the catalog is sent, once, to the
  backend the catalog names for it; a gateway that connected none serves the stub catalog and sends
  nothing.
\<close>

theorem booted_tools_connected:
  assumes "boot lib w env path = Inr bt"
    and "st = snd (run_dispatch (bt_ctx bt) es (bt_state bt))" and "mcp st = Operational"
    and "from_str_request (g_serde (bt_ctx bt)) line = Inr r" and "req_method r = ''tools/call''"
    and "req_id r \<noteq> None" and "called_tool (req_params r) = Some name"
    and "route (g_catalog (bt_ctx bt)) name = Some b"
    and "verdict_of (bt_ctx bt) me st (req_params r) name = Admitted"
  shows "map fst (backend_calls (fst (dispatch_line (bt_ctx bt) me line st))) =
         (if backends (bt_state bt) = [] then [] else [b])"
proof -
  have "hm_contains (backends st) n \<longleftrightarrow> hm_contains (backends (bt_state bt)) n" for n
    using run_backends [of "bt_ctx bt" es "bt_state bt"] assms(2) by (auto simp: dom_def set_eq_iff)
  then have found: "hm_contains (backends st) b \<longleftrightarrow> backends (bt_state bt) \<noteq> []"
    using boot_routes [OF assms(1) _ assms(8)] by auto
  have "dispatch_line (bt_ctx bt) me line st = handle_call_method (bt_ctx bt) me r st"
    using assms(3-5) by (simp add: dispatch_line_def handle_request_call)
  moreover have "answered (bt_ctx bt) me st r name (fst (handle_call_method (bt_ctx bt) me r st))"
    using handle_call_method_named [OF _ assms(7), of "bt_ctx bt" me st] assms(6,9)
    by (simp add: is_notification_def)
  ultimately show ?thesis
    using found assms(7,8) by (auto simp: answered_def reachable_backend_def)
qed

text \<open>The sample gateway of \<open>demo_boot\<close>, for the witness, after the handshake.\<close>

definition demo_bt :: "unit booted" where
  "demo_bt =
     assemble demo_libs demo_world boot_config
       (add_backend ''h'' [make_tool ''t'' ''d''] (HttpB (http_backend_new boot_backend None))
         \<lparr>su_catalog = catalog_new, su_backends = [], su_succeeded = False\<rparr>)
       (Some (identity_of demo_claims)) False"

definition demo_handshake :: "gw_event list" where
  "demo_handshake = [Line ''initialize'' demo_env, Line ''notifications/initialized'' demo_env]"

lemma demo_bt_parse:
  "from_str_request (g_serde (bt_ctx demo_bt)) s = from_str_request gw_serde s"
  by (simp add: demo_bt_def assemble_def demo_libs_def Let_def)

lemma demo_bt_ready:
  "snd (run_dispatch (bt_ctx demo_bt) demo_handshake (bt_state demo_bt)) = (bt_state demo_bt)\<lparr>mcp := Operational\<rparr>"
proof -
  have "mcp (bt_state demo_bt) = Created" by (simp add: demo_bt_def assemble_def Let_def)
  then show ?thesis
    by (simp add: demo_handshake_def dispatch_line_def demo_bt_parse handle_request_def
        handle_initialize_method_def Let_def gw_serde_def)
qed

lemma demo_bt_route: "route (g_catalog (bt_ctx demo_bt)) ''t'' = Some ''h''"
  by (simp add: demo_bt_def assemble_def Let_def load_catalog_def add_backend_def register_backend_def
      register_tool_def catalog_new_def route_def make_tool_def)

lemma demo_bt_verdict:
  "verdict_of (bt_ctx demo_bt) demo_env ((bt_state demo_bt)\<lparr>mcp := Operational\<rparr>)
     (req_params (demo_call ''t'')) ''t'' = Admitted"
proof -
  have "rate_answer (bt_ctx demo_bt) demo_env ((bt_state demo_bt)\<lparr>mcp := Operational\<rparr>) ''t'' = Inr ()"
    by (simp add: rate_answer_def demo_bt_def assemble_def Let_def check_def bucket_of_def bucket_new_def
        try_consume_def elapsed_def rpm_of_def limiter_new_def boot_config_def hot_new_def
        RateLimitConfig_default_def default_rpm_def demo_env_def)
  moreover have "is_tool_allowed (ci_role (g_caller (bt_ctx demo_bt))) ''t'' Execute (g_rbac (bt_ctx demo_bt))"
    by (simp add: demo_bt_def assemble_def Let_def effective_caller_def identity_of_def demo_claims_def
        boot_config_def demo_rbac_def is_tool_allowed_def)
  moreover have "schema_answer (bt_ctx demo_bt) (req_params (demo_call ''t'')) ''t'' = Inr ()"
    by (simp add: schema_answer_def demo_call_def)
  moreover have "disabled_tools (kill_switch (hot (bt_state demo_bt))) = []"
    "disabled_backends (kill_switch (hot (bt_state demo_bt))) = []"
    by (simp_all add: demo_bt_def assemble_def Let_def hot_new_def boot_config_def KillSwitchConfig_default_def)
  moreover have "hm_get (breakers (bt_state demo_bt)) ''h'' = Some (breaker_new 5 (sec 30))"
    by (simp add: demo_bt_def assemble_def Let_def boot_config_def init_breakers_def add_backend_def
        boot_backend_def)
  moreover have "\<not> cb_blocked t (breaker_new n d)" for t n d
    by (simp add: cb_blocked_def breaker_new_def state_of_def circuit_state_from_def)
  ultimately show ?thesis
    by (simp add: verdict_Admitted_iff backend_killed_def circuit_blocks_def demo_bt_route)
qed

theorem booted_tools_connected_witness:
  "map fst (backend_calls (fst (dispatch_line (bt_ctx demo_bt) demo_env ''t''
     (snd (run_dispatch (bt_ctx demo_bt) demo_handshake (bt_state demo_bt)))))) = [''h'']"
proof -
  have "backends (bt_state demo_bt) \<noteq> []"
    by (simp add: demo_bt_def assemble_def Let_def add_backend_def)
  moreover have "from_str_request (g_serde (bt_ctx demo_bt)) ''t'' = Inr (demo_call ''t'')"
    by (simp add: demo_bt_parse gw_serde_def)
  ultimately show ?thesis
    using booted_tools_connected [OF demo_boot [folded demo_bt_def] refl _ _ _ _ _ demo_bt_route,
        of demo_handshake "''t''" "demo_call ''t''" demo_env] demo_bt_verdict
    by (simp add: demo_bt_ready)
qed

text \<open>
  C17: No access without a token that grants it. In a gateway that was started with a JWT secret, whatever
  the client sends, and whatever reloads happen, every message that reaches a backend calls a tool of
  that backend, which is one of the configured ones, and there is a token that was accepted under
  the secret, for the configured issuer and audience, not expired when the session started, whose
  role the configuration allows to execute this tool.
\<close>

theorem calls_need_granting_token:
  assumes "boot lib w env path = Inr bt" and "decode_contract (lib_decode lib) now"
    and "load_config_lenient (lib_read_file lib) (lib_toml lib) path = Inr config"
    and "env (jwt_secret_env (cfg_auth config)) = Some secret" and "secret \<noteq> ''''"
  shows "list_all
     (\<lambda>(b, body). \<exists>token c v name params i.
        env ''SENTINEL_TOKEN'' = Some token \<and> lib_decode lib token secret v = Inr c \<and>
        cl_iss c = jwt_issuer (cfg_auth config) \<and> cl_aud c = jwt_audience (cfg_auth config) \<and>
        now \<le> unat (cl_exp c) + 60 \<and>
        body = to_string_value (lib_serde lib) (outbound i params) \<and> called_tool params = Some name \<and>
        route (g_catalog (bt_ctx bt)) name = Some b \<and> b \<in> bc_name ` set (cfg_backends config) \<and>
        is_tool_allowed (cl_role c) name Execute (cfg_rbac config))
     (backend_calls (fst (run_dispatch (bt_ctx bt) es (bt_state bt))))"
proof -
  obtain token c v where token: "env ''SENTINEL_TOKEN'' = Some token" "lib_decode lib token secret v = Inr c"
    "cl_iss c = jwt_issuer (cfg_auth config)" "cl_aud c = jwt_audience (cfg_auth config)"
    "now \<le> unat (cl_exp c) + 60" and caller: "g_caller (bt_ctx bt) = identity_of c"
    using boot_caller [OF assms] by blast
  note conf = boot_configured [OF assms(1,3)]
  have role: "ci_role (g_caller (bt_ctx bt)) = cl_role c" by (simp add: caller identity_of_def)
  show ?thesis
    unfolding list_all_iff
  proof (clarify, goal_cases)
    case (1 b body)
    then have "granted (bt_ctx bt) (dom (hm_get (backends (bt_state bt)))) (b, body)"
      using run_granted [of "bt_ctx bt" "bt_state bt" es] by (simp add: list_all_iff)
    with token conf role show ?case unfolding granted_def by fastforce
  qed
qed

lemma demo_bt_calls:
  "backend_calls (fst (run_dispatch (bt_ctx demo_bt) (demo_handshake @ [Line ''t'' demo_env]) (bt_state demo_bt))) \<noteq> []"
proof -
  have parse: "from_str_request (g_serde (bt_ctx demo_bt)) ''t'' = Inr (demo_call ''t'')"
    by (simp add: demo_bt_parse gw_serde_def)
  have "hm_contains (backends (bt_state demo_bt)) ''h''"
    by (simp add: demo_bt_def assemble_def Let_def add_backend_def)
  then have "backend_calls (fst (dispatch_line (bt_ctx demo_bt) demo_env ''t''
      ((bt_state demo_bt)\<lparr>mcp := Operational\<rparr>))) \<noteq> []"
    using named_call_reaches [OF parse, of "(bt_state demo_bt)\<lparr>mcp := Operational\<rparr>" "''t''" demo_env]
      demo_bt_verdict demo_bt_route
    by (simp add: reachable_backend_def)
  moreover have "run_dispatch (bt_ctx demo_bt) (demo_handshake @ es) (bt_state demo_bt) =
      (fst (run_dispatch (bt_ctx demo_bt) demo_handshake (bt_state demo_bt)) @
       fst (run_dispatch (bt_ctx demo_bt) es ((bt_state demo_bt)\<lparr>mcp := Operational\<rparr>)),
       snd (run_dispatch (bt_ctx demo_bt) es ((bt_state demo_bt)\<lparr>mcp := Operational\<rparr>)))" for es
    using demo_bt_ready by (simp add: demo_handshake_def case_prod_beta)
  ultimately show ?thesis by (simp add: effect_simps run_dispatch_Line del: run_dispatch.simps(2))
qed

theorem calls_need_granting_token_witness:
  "\<exists>b body c v name. (b, body) \<in> set (backend_calls (fst (run_dispatch (bt_ctx demo_bt)
       (demo_handshake @ [Line ''t'' demo_env]) (bt_state demo_bt)))) \<and>
     demo_decode ''tok'' ''k'' v = Inr c \<and> route (g_catalog (bt_ctx demo_bt)) name = Some b \<and>
     is_tool_allowed (cl_role c) name Execute demo_rbac"
proof -
  obtain b body where call: "(b, body) \<in> set (backend_calls (fst (run_dispatch (bt_ctx demo_bt)
      (demo_handshake @ [Line ''t'' demo_env]) (bt_state demo_bt))))"
    using demo_bt_calls by (metis hd_in_set surj_pair)
  have "decode_contract (lib_decode demo_libs) 1060"
    by (auto simp: decode_contract_def demo_libs_def demo_decode_def demo_claims_def)
  moreover have "demo_environment (jwt_secret_env (cfg_auth boot_config)) = Some ''k''" "''k'' \<noteq> ''''"
    by (simp_all add: demo_environment_def boot_config_def)
  ultimately have "list_all (\<lambda>(b, body). \<exists>token c v name params i.
        demo_environment ''SENTINEL_TOKEN'' = Some token \<and> lib_decode demo_libs token ''k'' v = Inr c \<and>
        cl_iss c = jwt_issuer (cfg_auth boot_config) \<and> cl_aud c = jwt_audience (cfg_auth boot_config) \<and>
        1060 \<le> unat (cl_exp c) + 60 \<and>
        body = to_string_value (lib_serde demo_libs) (outbound i params) \<and> called_tool params = Some name \<and>
        route (g_catalog (bt_ctx demo_bt)) name = Some b \<and> b \<in> bc_name ` set (cfg_backends boot_config) \<and>
        is_tool_allowed (cl_role c) name Execute (cfg_rbac boot_config))
     (backend_calls (fst (run_dispatch (bt_ctx demo_bt) (demo_handshake @ [Line ''t'' demo_env]) (bt_state demo_bt))))"
    using calls_need_granting_token [OF demo_boot [folded demo_bt_def] _ demo_load] by blast
  with call show ?thesis
    by (fastforce simp: list_all_iff demo_environment_def demo_libs_def boot_config_def)
qed

text \<open>
  C34: The readiness route tells what is connected: after start-up and at least one round of the health
  checker, the gateway reports ready exactly if some connected HTTP backend answered its last ping
  or some stdio backend was connected at start-up. So a stdio backend, which is never pinged, keeps
  the gateway ready whatever becomes of its process.
\<close>

theorem ready_reflects_backends:
  assumes "boot lib w env path = Inr bt" and "ts \<noteq> []"
  shows "hr_status (readiness
           \<lparr>health_map = snd (health_checker True (bt_checked bt) ts (bt_health bt)),
            app_metrics = m, health_token = tok\<rparr>) =
         (if \<exists>n b. hm_get (backends (bt_state bt)) n = Some b \<and>
               (case b of StdioB s \<Rightarrow> True | HttpB h \<Rightarrow> last (outcomes n h ts)) then 200 else 503)"
proof -
  let ?bs = "backends (bt_state bt)"
  let ?m = "snd (health_checker True (bt_checked bt) ts (bt_health bt))"
  from boot_health [OF assms(1)] have bt: "bt_health bt = init_health (bw_now w) ?bs"
    "bt_checked bt = checked_backends ?bs" and d: "distinct (map fst ?bs)" by (auto simp: hm_wf_def)
  have wf: "hm_wf ?m" by (simp add: bt health_checker_wf init_health_wf)
  have dc: "distinct (map fst (bt_checked bt))" using d by (simp add: bt distinct_checked_backends)
  have get: "(\<exists>e. hm_get ?m n = Some e \<and> healthy e) \<longleftrightarrow>
      (\<exists>b. hm_get ?bs n = Some b \<and> (case b of StdioB s \<Rightarrow> True | HttpB h \<Rightarrow> last (outcomes n h ts)))" for n
  proof (cases "hm_get (bt_checked bt) n")
    case None
    from health_checker_frame [OF this dc, of True ts "bt_health bt"] None show ?thesis
      using checked_backends_get [OF d, of n]
      by (auto simp: bt init_health_get split: option.splits Backend.splits)
  next
    case (Some h)
    from health_checker_last [OF dc Some assms(2), of True "bt_health bt"] Some show ?thesis
      using checked_backends_get [OF d, of n] by (auto simp: bt split: option.splits Backend.splits)
  qed
  show ?thesis using readiness_status [of "\<lparr>health_map = ?m, app_metrics = m, health_token = tok\<rparr>"] wf get
    by simp
qed

theorem ready_reflects_backends_witness:
  "hr_status (readiness
     \<lparr>health_map = snd (health_checker True (bt_checked demo_bt)
        [\<lparr>tk_time = (\<lambda>n. 5), tk_send = (\<lambda>n b body. Inl StdinClosed)\<rparr>] (bt_health demo_bt)),
      app_metrics = None, health_token = None\<rparr>) = 503"
proof -
  have "hm_get (backends (bt_state demo_bt)) n = Some b \<Longrightarrow> \<exists>h. b = HttpB h" for n b
    by (auto simp: demo_bt_def assemble_def Let_def add_backend_def split: if_splits)
  then show ?thesis
    using ready_reflects_backends [OF demo_boot [folded demo_bt_def],
        of "[\<lparr>tk_time = (\<lambda>n. 5), tk_send = (\<lambda>n b body. Inl StdinClosed)\<rparr>]" None None]
    by (auto simp: outcomes_def split: if_splits Backend.splits)
qed

end
